(* ===== verification/Prelude.thy ===== *)
theory Prelude
  imports
    Complex_Main
    "HOL-Library.AList"
    "HOL-Library.Multiset"
    "HOL-Library.Char_ord"
    "HOL-Library.List_Lexorder"
    "HOL-Library.Product_Lexorder"
begin

text \<open>
  Shared vocabulary of the development. A JavaScript \<open>Map\<close> is an association list: \<open>set\<close> on a
  key that is present overwrites in place and otherwise appends (\<open>AList.update\<close>), so iteration
  order is insertion order, as in the language; \<open>delete\<close> is \<open>AList.delete\<close>, \<open>get\<close> is
  \<open>map_of\<close>. A JavaScript \<open>Set\<close> is a list without repetitions. Comparators of the code that
  order by several columns are sort keys in a lexicographic product; JavaScript's sort is stable,
  as \<open>sort_key\<close> is.
\<close>

named_theorems jsmap \<open>lookup, keys and update of association-list maps\<close>
named_theorems invs \<open>invariants established and kept by the operations\<close>

type_synonym ('k, 'v) jsmap = "('k \<times> 'v) list"

abbreviation jget :: "('k, 'v) jsmap \<Rightarrow> 'k \<Rightarrow> 'v option" where
  "jget m k \<equiv> map_of m k"

abbreviation jset :: "'k \<Rightarrow> 'v \<Rightarrow> ('k, 'v) jsmap \<Rightarrow> ('k, 'v) jsmap" where
  "jset k v m \<equiv> AList.update k v m"

abbreviation jdel :: "'k \<Rightarrow> ('k, 'v) jsmap \<Rightarrow> ('k, 'v) jsmap" where
  "jdel k m \<equiv> AList.delete k m"

definition jhas :: "('k, 'v) jsmap \<Rightarrow> 'k \<Rightarrow> bool" where
  "jhas m k = (case map_of m k of None \<Rightarrow> False | Some _ \<Rightarrow> True)"

definition jget_or :: "('k, 'v) jsmap \<Rightarrow> 'k \<Rightarrow> 'v \<Rightarrow> 'v" where
  "jget_or m k d = (case map_of m k of None \<Rightarrow> d | Some v \<Rightarrow> v)"

definition set_add :: "'a \<Rightarrow> 'a list \<Rightarrow> 'a list" where
  "set_add x xs = (if x \<in> set xs then xs else xs @ [x])"

text \<open>Grouping a list under a key, in order: \<open>const l = m.get(k) ?? []; l.push(x); m.set(k, l)\<close>.\<close>

definition jpush :: "'k \<Rightarrow> 'v \<Rightarrow> ('k, 'v list) jsmap \<Rightarrow> ('k, 'v list) jsmap" where
  "jpush k v m = jset k (jget_or m k [] @ [v]) m"

definition group_on :: "('v \<Rightarrow> 'k) \<Rightarrow> 'v list \<Rightarrow> ('k, 'v list) jsmap" where
  "group_on f xs = foldl (\<lambda>m x. jpush (f x) x m) [] xs"

section \<open>Association-list maps\<close>

lemma jget_jset [jsmap, simp]: "jget (jset k v m) k' = (if k' = k then Some v else jget m k')"
  by (simp add: update_conv')

lemma jget_jdel [jsmap, simp]: "jget (jdel k m) k' = (if k' = k then None else jget m k')"
  by (simp add: delete_conv')

lemma jhas_iff [jsmap]: "jhas m k \<longleftrightarrow> k \<in> fst ` set m"
proof -
  have "jhas m k \<longleftrightarrow> map_of m k \<noteq> None"
    by (simp add: jhas_def split: option.splits)
  then show ?thesis by (simp add: map_of_eq_None_iff)
qed

lemma jhas_get: "jhas m k \<longleftrightarrow> jget m k \<noteq> None"
  by (simp add: jhas_def split: option.splits)

lemma jhas_jset [jsmap, simp]: "jhas (jset k v m) k' \<longleftrightarrow> k' = k \<or> jhas m k'"
  by (auto simp: jhas_get)

lemma jhas_jdel [jsmap, simp]: "jhas (jdel k m) k' \<longleftrightarrow> k' \<noteq> k \<and> jhas m k'"
  by (auto simp: jhas_get)

lemma keys_jset [jsmap]: "fst ` set (jset k v m) = insert k (fst ` set m)"
  by (induction m) auto

lemma keys_jdel [jsmap]: "fst ` set (jdel k m) = fst ` set m - {k}"
  by (auto simp: AList.delete_eq image_iff)

lemma map_fst_jset [jsmap]:
  "map fst (jset k v m) = (if k \<in> set (map fst m) then map fst m else map fst m @ [k])"
  by (rule update_keys)

lemma distinct_jset [jsmap, intro]: "distinct (map fst m) \<Longrightarrow> distinct (map fst (jset k v m))"
  by (rule distinct_update)

lemma distinct_jdel [jsmap, intro]: "distinct (map fst m) \<Longrightarrow> distinct (map fst (jdel k m))"
  by (rule distinct_delete)

lemma jget_or_jset [jsmap, simp]:
  "jget_or (jset k v m) k' d = (if k' = k then v else jget_or m k' d)"
  by (simp add: jget_or_def)

lemma length_jset: "length m \<le> length (jset k v m)"
  by (induction m) auto

lemma jget_SomeD: "jget m k = Some v \<Longrightarrow> (k, v) \<in> set m"
  by (rule map_of_SomeD)

lemma jget_in: "distinct (map fst m) \<Longrightarrow> (k, v) \<in> set m \<Longrightarrow> jget m k = Some v"
  by simp

lemma set_jset_subset: "set (jset k v m) \<subseteq> insert (k, v) (set m)"
  by (induction m) auto

lemma set_jdel_subset: "set (jdel k m) \<subseteq> set m"
  by (auto simp: AList.delete_eq)

lemma in_set_jsetD: "(a, b) \<in> set (jset k v m) \<Longrightarrow> (a = k \<and> b = v) \<or> (a, b) \<in> set m"
  using set_jset_subset by fastforce

lemma set_add_set [simp]: "set (set_add x xs) = insert x (set xs)"
  by (auto simp: set_add_def)

lemma distinct_set_add [intro]: "distinct xs \<Longrightarrow> distinct (set_add x xs)"
  by (simp add: set_add_def)

text \<open>A sum over a map never exceeds the sum of what was stored into it.\<close>

lemma sum_list_jset_le:
  fixes v :: int
  assumes "\<forall>x \<in> set m. 0 \<le> snd x"
  shows "sum_list (map snd (jset k v m)) \<le> sum_list (map snd m) + v"
  using assms by (induction m) auto

section \<open>Grouping\<close>

lemma jpush_get [jsmap, simp]:
  "jget_or (jpush k v m) k' [] = (if k' = k then jget_or m k [] @ [v] else jget_or m k' [])"
  by (simp add: jpush_def)

lemma group_on_foldl:
  "jget_or (foldl (\<lambda>m x. jpush (f x) x m) m xs) k [] = jget_or m k [] @ filter (\<lambda>x. f x = k) xs"
  by (induction xs arbitrary: m) auto

lemma jget_or_group_on [simp]: "jget_or (group_on f xs) k [] = filter (\<lambda>x. f x = k) xs"
  unfolding group_on_def group_on_foldl by (simp add: jget_or_def)

lemma keys_group_foldl:
  "fst ` set (foldl (\<lambda>m x. jpush (f x) x m) m xs) = fst ` set m \<union> f ` set xs"
  by (induction xs arbitrary: m) (auto simp: jpush_def keys_jset)

lemma keys_group_on [simp]: "fst ` set (group_on f xs) = f ` set xs"
  by (simp add: group_on_def keys_group_foldl)

lemma distinct_group_foldl:
  "distinct (map fst m) \<Longrightarrow> distinct (map fst (foldl (\<lambda>m x. jpush (f x) x m) m xs))"
  by (induction xs arbitrary: m) (auto simp: jpush_def intro: distinct_jset)

lemma distinct_group_on [simp]: "distinct (map fst (group_on f xs))"
  by (simp add: group_on_def distinct_group_foldl)

section \<open>Maps filled from a list\<close>

lemma foldl_jset_map:
  assumes "distinct (map f xs)"
  shows "foldl (\<lambda>m x. jset (f x) (g x) m) [] xs = map (\<lambda>x. (f x, g x)) xs"
proof -
  have "foldl (\<lambda>m x. jset (f x) (g x) m) m ys = m @ map (\<lambda>x. (f x, g x)) ys"
    if "distinct (map f ys)" "f ` set ys \<inter> fst ` set m = {}" for m ys
    using that
  proof (induction ys arbitrary: m)
    case (Cons y ys)
    have "jset (f y) (g y) m = m @ [(f y, g y)]" using Cons.prems(2) by (induction m) auto
    moreover have "f ` set ys \<inter> fst ` set (m @ [(f y, g y)]) = {}" using Cons.prems by auto
    ultimately show ?case using Cons.IH [of "m @ [(f y, g y)]"] Cons.prems(1) by simp
  qed simp
  from this [of xs "[]"] show ?thesis using assms by simp
qed

lemma jget_map_keyed: "distinct (map f xs) \<Longrightarrow> x \<in> set xs \<Longrightarrow> jget (map (\<lambda>x. (f x, g x)) xs) (f x) = Some (g x)"
  by (rule jget_in) (auto simp: comp_def)

section \<open>Sorting by an injective key\<close>

lemma filter_key_eq_replicate:
  assumes "inj_on f (set xs)" "x \<in> set xs"
  shows "filter (\<lambda>y. f x = f y) xs = replicate (count (mset xs) x) x"
proof -
  have "filter (\<lambda>y. f x = f y) xs = filter (\<lambda>y. x = y) xs"
    by (rule filter_cong) (use assms in \<open>auto dest: inj_onD\<close>)
  also have "\<dots> = replicate (count (mset xs) x) x"
    by (induction xs) auto
  finally show ?thesis .
qed

lemma filter_key_mset_cong:
  assumes inj: "inj_on f (set xs)" and m: "mset xs = mset ys"
  shows "filter (\<lambda>y. k = f y) xs = filter (\<lambda>y. k = f y) ys"
proof -
  have s: "set ys = set xs" using m by (metis set_mset_mset)
  show ?thesis
  proof (cases "\<exists>x \<in> set xs. k = f x")
    case True
    then obtain x where x: "x \<in> set xs" "k = f x" by blast
    have "inj_on f (set ys)" "x \<in> set ys" using inj s x(1) by simp_all
    then have "filter (\<lambda>y. f x = f y) ys = replicate (count (mset ys) x) x"
      by (rule filter_key_eq_replicate)
    moreover have "filter (\<lambda>y. f x = f y) xs = replicate (count (mset xs) x) x"
      using inj x(1) by (rule filter_key_eq_replicate)
    ultimately show ?thesis using x(2) m by simp
  next
    case False
    then have "filter (\<lambda>y. k = f y) xs = []" "filter (\<lambda>y. k = f y) ys = []"
      using s by (simp_all add: filter_empty_conv)
    then show ?thesis by simp
  qed
qed

lemma sort_key_mset_cong:
  assumes inj: "inj_on f (set xs)" and m: "mset xs = mset ys"
  shows "sort_key f xs = sort_key f ys"
proof (rule properties_for_sort_key)
  show "mset (sort_key f ys) = mset xs" using m by simp
  show "filter (\<lambda>y. f k = f y) (sort_key f ys) = filter (\<lambda>y. f k = f y) xs"
    if "k \<in> set (sort_key f ys)" for k
  proof -
    have "filter (\<lambda>y. f k = f y) (sort_key f ys) = filter (\<lambda>y. f k = f y) ys"
      using sort_key_stable [of f "f k" ys] by (simp add: eq_commute)
    then show ?thesis using filter_key_mset_cong [OF inj m] by simp
  qed
  show "sorted (map f (sort_key f ys))" by simp
qed

lemma sort_key_idem [simp]: "sort_key f (sort_key f xs) = sort_key f xs"
  by (rule sort_key_id_if_sorted) simp

lemma filter_sort_key: "filter P (sort_key f xs) = sort_key f (filter P xs)"
  by (rule filter_sort)

section \<open>Searching a list\<close>

lemma find_SomeD: "find P xs = Some x \<Longrightarrow> x \<in> set xs \<and> P x"
  by (induction xs) (auto split: if_splits)

lemma find_None: "find P xs = None \<Longrightarrow> x \<in> set xs \<Longrightarrow> \<not> P x"
  by (induction xs) (auto split: if_splits)

lemma find_only:
  assumes "x \<in> set xs" "P x" "\<And>y. y \<in> set xs \<Longrightarrow> P y \<Longrightarrow> y = x"
  shows "find P xs = Some x"
proof (cases "find P xs")
  case None
  then show ?thesis using find_None [OF None assms(1)] assms(2) by simp
next
  case (Some y)
  then show ?thesis using find_SomeD [OF Some] assms(3) by simp
qed

end
