(* ===== verification/JsValue.thy ===== *)
theory JsValue
  imports Prelude
begin

text \<open>
  The JSON payloads of the chain pins and the JavaScript operations the engines use on them
  (\<open>asNum\<close>, \<open>asStr\<close>, \<open>truthyStr\<close> of metatask/engine.ts, \<open>canonJ\<close> and the hashes of
  metatask/canon.ts). A value of TypeScript type \<open>unknown\<close> is a \<open>json option\<close>, with
  \<open>None\<close> for \<open>undefined\<close>. Numbers are exact rationals: every finite double is one, and the
  integers the protocol uses stay below 2^53, where double arithmetic is exact; \<open>NaN\<close> and the
  infinities are not JSON. Strings are lists of code units below 256, on which the order of
  JavaScript's \<open><\<close> and the lexicographic order coincide. Only own properties of objects are
  modelled, not members inherited from a prototype. SHA-256 (node:crypto) is a parameter.
\<close>

datatype json =
    JNull
  | JBool bool
  | JNum rat
  | JStr string
  | JArr "json list"
  | JObj "(string \<times> json) list"

type_synonym body = "(string \<times> json) list"

section \<open>Reading values\<close>

text \<open>Property read on any value: undefined on everything but an object that owns the key.\<close>

fun jprop :: "json \<Rightarrow> string \<Rightarrow> json option" where
  "jprop (JObj kv) k = map_of kv k"
| "jprop _ k = None"

text \<open>The same behind \<open>?.\<close>.\<close>

definition jopt :: "json option \<Rightarrow> string \<Rightarrow> json option" where
  "jopt v k = (case v of None \<Rightarrow> None | Some j \<Rightarrow> jprop j k)"

definition asNum :: "json option \<Rightarrow> rat \<Rightarrow> rat" where
  "asNum v fallback = (case v of Some (JNum q) \<Rightarrow> q | _ \<Rightarrow> fallback)"

definition asStr :: "json option \<Rightarrow> string \<Rightarrow> string" where
  "asStr v fallback = (case v of Some (JStr s) \<Rightarrow> s | _ \<Rightarrow> fallback)"

text \<open>The white space \<open>String.prototype.trim\<close> strips, below 256.\<close>

definition js_space :: "char \<Rightarrow> bool" where
  "js_space c \<longleftrightarrow> (of_char c :: nat) \<in> {9, 10, 11, 12, 13, 32, 160}"

definition js_trim :: "string \<Rightarrow> string" where
  "js_trim s = rev (dropWhile js_space (rev (dropWhile js_space s)))"

definition truthyStr :: "json option \<Rightarrow> bool" where
  "truthyStr v = (case v of Some (JStr s) \<Rightarrow> length (js_trim s) > 0 | _ \<Rightarrow> False)"

text \<open>\<open>Boolean(v)\<close>.\<close>

fun js_truthy :: "json option \<Rightarrow> bool" where
  "js_truthy None = False"
| "js_truthy (Some JNull) = False"
| "js_truthy (Some (JBool b)) = b"
| "js_truthy (Some (JNum q)) = (q \<noteq> 0)"
| "js_truthy (Some (JStr s)) = (s \<noteq> [])"
| "js_truthy (Some (JArr _)) = True"
| "js_truthy (Some (JObj _)) = True"

text \<open>\<open>v && typeof v === 'object'\<close> (arrays are objects), and the same without arrays.\<close>

fun is_object :: "json option \<Rightarrow> bool" where
  "is_object (Some (JArr _)) = True"
| "is_object (Some (JObj _)) = True"
| "is_object _ = False"

fun is_plain_object :: "json option \<Rightarrow> bool" where
  "is_plain_object (Some (JObj _)) = True"
| "is_plain_object _ = False"

text \<open>\<open>Array.isArray(v) ? v : []\<close> and the filter that keeps the strings of an array.\<close>

definition arr_or_empty :: "json option \<Rightarrow> json list" where
  "arr_or_empty v = (case v of Some (JArr xs) \<Rightarrow> xs | _ \<Rightarrow> [])"

fun str_items :: "json list \<Rightarrow> string list" where
  "str_items [] = []"
| "str_items (JStr s # xs) = s # str_items xs"
| "str_items (_ # xs) = str_items xs"

text \<open>\<open>v ?? d\<close> where undefined and null both count as missing.\<close>

definition nullish :: "json option \<Rightarrow> json option \<Rightarrow> json option" where
  "nullish v d = (case v of None \<Rightarrow> d | Some JNull \<Rightarrow> d | Some j \<Rightarrow> Some j)"

definition or_null :: "json option \<Rightarrow> json" where
  "or_null v = (case v of None \<Rightarrow> JNull | Some j \<Rightarrow> j)"

text \<open>\<open>Number.isInteger\<close> on a number.\<close>

definition is_integer :: "rat \<Rightarrow> bool" where
  "is_integer q \<longleftrightarrow> of_int \<lfloor>q\<rfloor> = q"

text \<open>An integral number of a closed range, as the weight checks read it.\<close>

definition int_in_range :: "json option \<Rightarrow> int \<Rightarrow> int \<Rightarrow> int option" where
  "int_in_range v lo hi =
     (case v of
        Some (JNum q) \<Rightarrow> if is_integer q \<and> lo \<le> \<lfloor>q\<rfloor> \<and> \<lfloor>q\<rfloor> \<le> hi then Some \<lfloor>q\<rfloor> else None
      | _ \<Rightarrow> None)"

section \<open>Strings of numbers and values\<close>

definition digit_char :: "int \<Rightarrow> char" where
  "digit_char d = char_of (48 + d)"

text \<open>Decimal digits of a non-negative integer.\<close>

function nat_string :: "int \<Rightarrow> string" where
  "nat_string n = (if n < 10 then [digit_char n] else nat_string (n div 10) @ [digit_char (n mod 10)])"
  by pat_completeness auto
termination by (relation "measure nat") auto

declare nat_string.simps [simp del]

definition int_string :: "int \<Rightarrow> string" where
  "int_string i = (if i < 0 then ''-'' @ nat_string (- i) else nat_string i)"

text \<open>Decimal places of a fraction in [0, 1), until it ends or the places are used up.\<close>

fun frac_digits :: "nat \<Rightarrow> rat \<Rightarrow> string" where
  "frac_digits 0 r = []"
| "frac_digits (Suc n) r =
     (if r = 0 then [] else digit_char \<lfloor>10 * r\<rfloor> # frac_digits n (10 * r - of_int \<lfloor>10 * r\<rfloor>))"

text \<open>\<open>String(n)\<close>: plain decimal notation; 17 places are what a double can need. The exponent
  notation of JavaScript for numbers from 10^21 on or below 10^-6 is not modelled.\<close>

definition num_string :: "rat \<Rightarrow> string" where
  "num_string q =
     (let a = \<bar>q\<bar>; whole = \<lfloor>a\<rfloor>; frac = a - of_int whole
      in (if q < 0 then ''-'' else '''') @ nat_string whole @
         (if frac = 0 then '''' else ''.'' @ frac_digits 17 frac))"

fun join_comma :: "string list \<Rightarrow> string" where
  "join_comma [] = ''''"
| "join_comma [x] = x"
| "join_comma (x # y # xs) = x @ '','' @ join_comma (y # xs)"

fun js_string :: "json \<Rightarrow> string" where
  "js_string JNull = ''null''"
| "js_string (JBool b) = (if b then ''true'' else ''false'')"
| "js_string (JNum q) = num_string q"
| "js_string (JStr s) = s"
| "js_string (JArr xs) = join_comma (map (\<lambda>x. if x = JNull then '''' else js_string x) xs)"
| "js_string (JObj _) = ''[object Object]''"

text \<open>\<open>String(v)\<close> with undefined.\<close>

definition js_string_opt :: "json option \<Rightarrow> string" where
  "js_string_opt v = (case v of None \<Rightarrow> ''undefined'' | Some j \<Rightarrow> js_string j)"

section \<open>Objects\<close>

text \<open>Own properties enumerate integer indices first, ascending, then the rest in insertion order.\<close>

definition is_digit_char :: "char \<Rightarrow> bool" where
  "is_digit_char c \<longleftrightarrow> 48 \<le> (of_char c :: int) \<and> (of_char c :: int) \<le> 57"

definition nat_of_digits :: "string \<Rightarrow> int" where
  "nat_of_digits s = foldl (\<lambda>n c. 10 * n + ((of_char c :: int) - 48)) 0 s"

definition is_index_key :: "string \<Rightarrow> bool" where
  "is_index_key s \<longleftrightarrow>
     s \<noteq> [] \<and> (\<forall>c \<in> set s. is_digit_char c) \<and> (length s = 1 \<or> hd s \<noteq> CHR ''0'') \<and>
     nat_of_digits s < 2 ^ 32 - 1"

definition own_order :: "(string \<times> 'a) list \<Rightarrow> (string \<times> 'a) list" where
  "own_order kv =
     sort_key (\<lambda>(k, _). nat_of_digits k) (filter (\<lambda>(k, _). is_index_key k) kv) @
     filter (\<lambda>(k, _). \<not> is_index_key k) kv"

text \<open>\<open>{ ...v }\<close> and the assignment \<open>v.k = x\<close> on the copy.\<close>

fun spread :: "json \<Rightarrow> json" where
  "spread (JObj kv) = JObj kv"
| "spread (JArr xs) = JObj (zip (map (nat_string \<circ> int) [0..<length xs]) xs)"
| "spread _ = JObj []"

fun jassign :: "json \<Rightarrow> string \<Rightarrow> json \<Rightarrow> json" where
  "jassign (JObj kv) k x = JObj (jset k x kv)"
| "jassign j k x = j"

section \<open>Canonical JSON and hashes (metatask/canon.ts)\<close>

fun sortDeep :: "json \<Rightarrow> json" where
  "sortDeep (JArr xs) = JArr (map sortDeep xs)"
| "sortDeep (JObj kv) = JObj (sort_key fst (map (\<lambda>(k, v). (k, sortDeep v)) kv))"
| "sortDeep j = j"

definition hex_digit :: "nat \<Rightarrow> char" where
  "hex_digit d = (if d < 10 then char_of (48 + d) else char_of (87 + d))"

lemma mset_own_order: "mset (own_order kv) = mset kv"
proof -
  have "filter (\<lambda>(k, _). is_index_key k) kv = filter (\<lambda>x. is_index_key (fst x)) kv"
    "filter (\<lambda>(k, _). \<not> is_index_key k) kv = filter (\<lambda>x. \<not> is_index_key (fst x)) kv"
    by (simp_all add: case_prod_unfold)
  then show ?thesis by (simp add: own_order_def)
qed

text \<open>\<open>JSON.stringify\<close>: string escapes, then values; an object's keys come in \<open>own_order\<close>.\<close>

definition json_escape :: "char \<Rightarrow> string" where
  "json_escape c =
     (let n = (of_char c :: nat) in
      if n = 34 then [CHR 0x5C, CHR 0x22] else if n = 92 then [CHR 0x5C, CHR 0x5C]
      else if n = 8 then [CHR 0x5C, CHR ''b''] else if n = 9 then [CHR 0x5C, CHR ''t'']
      else if n = 10 then [CHR 0x5C, CHR ''n''] else if n = 12 then [CHR 0x5C, CHR ''f'']
      else if n = 13 then [CHR 0x5C, CHR ''r'']
      else if n < 32 then [CHR 0x5C, CHR ''u'', CHR ''0'', CHR ''0'', hex_digit (n div 16), hex_digit (n mod 16)]
      else [c])"

definition json_quote :: "string \<Rightarrow> string" where
  "json_quote s = CHR 0x22 # concat (map json_escape s) @ [CHR 0x22]"

fun stringify :: "json \<Rightarrow> string" where
  "stringify JNull = ''null''"
| "stringify (JBool b) = (if b then ''true'' else ''false'')"
| "stringify (JNum q) = num_string q"
| "stringify (JStr s) = json_quote s"
| "stringify (JArr xs) = ''['' @ join_comma (map stringify xs) @ '']''"
| "stringify (JObj kv) =
     ''{'' @
     join_comma (map (\<lambda>(k, t). json_quote k @ '':'' @ t)
       (own_order (map (\<lambda>(k, v). (k, stringify v)) kv))) @ ''}''"

definition canonJ :: "json \<Rightarrow> string" where
  "canonJ j = stringify (sortDeep j)"

text \<open>\<open>sha\<close> is \<open>sha256Hex\<close>: SHA-256 of the text's UTF-8 bytes, in hex.\<close>

definition outerHash :: "(string \<Rightarrow> string) \<Rightarrow> body \<Rightarrow> string" where
  "outerHash sha result = sha (canonJ (JObj result))"

definition innerHash :: "(string \<Rightarrow> string) \<Rightarrow> body \<Rightarrow> string" where
  "innerHash sha result = sha (canonJ (JObj (filter (\<lambda>(k, _). k \<noteq> ''hash'') result)))"

section \<open>Rounding\<close>

text \<open>\<open>Math.trunc\<close> and \<open>Math.round\<close> (halves go up).\<close>

definition js_trunc :: "rat \<Rightarrow> int" where
  "js_trunc q = (if q < 0 then \<lceil>q\<rceil> else \<lfloor>q\<rfloor>)"

definition js_round :: "rat \<Rightarrow> int" where
  "js_round q = \<lfloor>q + 1 / 2\<rfloor>"

section \<open>Evaluation\<close>

text \<open>Code equations that read a character bit by bit, so that concrete texts evaluate fast.\<close>

lemma is_digit_char_bits [code]:
  "is_digit_char (Char b0 b1 b2 b3 b4 b5 b6 b7) \<longleftrightarrow> \<not> b7 \<and> \<not> b6 \<and> b5 \<and> b4 \<and> (\<not> b3 \<or> (\<not> b2 \<and> \<not> b1))"
  by (cases b0; cases b1; cases b2; cases b3; cases b4; cases b5; cases b6; cases b7) (simp_all add: is_digit_char_def of_char_Char)

lemma js_space_bits [code]:
  "js_space (Char b0 b1 b2 b3 b4 b5 b6 b7) \<longleftrightarrow>
     (\<not> b7 \<and> \<not> b6 \<and> \<not> b5 \<and> \<not> b4 \<and> b3 \<and> (b2 \<or> b1 \<or> b0) \<and> \<not> (b2 \<and> b1)) \<or>
     (\<not> b6 \<and> b5 \<and> \<not> b4 \<and> \<not> b3 \<and> \<not> b2 \<and> \<not> b1 \<and> \<not> b0)"
  by (cases b0; cases b1; cases b2; cases b3; cases b4; cases b5; cases b6; cases b7) (simp_all add: js_space_def of_char_Char)

definition escape_control :: "char \<Rightarrow> string" where "escape_control = json_escape"

lemma escape_control_code [code]:
  "escape_control c =
     (let n = (of_char c :: nat) in
      if n = 34 then [CHR 0x5C, CHR 0x22] else if n = 92 then [CHR 0x5C, CHR 0x5C]
      else if n = 8 then [CHR 0x5C, CHR ''b''] else if n = 9 then [CHR 0x5C, CHR ''t'']
      else if n = 10 then [CHR 0x5C, CHR ''n''] else if n = 12 then [CHR 0x5C, CHR ''f'']
      else if n = 13 then [CHR 0x5C, CHR ''r'']
      else if n < 32 then [CHR 0x5C, CHR ''u'', CHR ''0'', CHR ''0'', hex_digit (n div 16), hex_digit (n mod 16)]
      else [c])"
  by (simp only: escape_control_def json_escape_def)


lemma json_escape_bits [code]:
  "json_escape (Char b0 b1 b2 b3 b4 b5 b6 b7) =
     (if b5 \<or> b6 \<or> b7 then
        (if Char b0 b1 b2 b3 b4 b5 b6 b7 = CHR 0x22 then [CHR 0x5C, CHR 0x22]
         else if Char b0 b1 b2 b3 b4 b5 b6 b7 = CHR 0x5C then [CHR 0x5C, CHR 0x5C]
         else [Char b0 b1 b2 b3 b4 b5 b6 b7])
      else escape_control (Char b0 b1 b2 b3 b4 b5 b6 b7))"
  by (cases b0; cases b1; cases b2; cases b3; cases b4; cases b5; cases b6; cases b7) (simp_all add: escape_control_def json_escape_def of_char_Char)

end
