(* ===== verification/MtTypes.thy ===== *)
theory MtTypes
  imports JsValue
begin

text \<open>
  The data of the MetaTask replay (metatask/types.ts, metatask/constants.ts and the interfaces
  of metatask/engine.ts): chain events, votes, claim cycles, candidate submissions, and the
  projection a replay returns. Heights, transaction indices and timestamps are the integers the
  collector writes; payload numbers stay JSON numbers. Records prefix their fields, because
  field names are global in HOL. A height gate that was never announced (positive infinity in
  the code) is \<open>None\<close>.
\<close>

section \<open>Constants\<close>

definition H_ACT :: int where "H_ACT = 190000"
definition H_ACT2 :: "int option" where "H_ACT2 = Some 191500"
definition H_ACT3 :: "int option" where "H_ACT3 = Some 192800"
definition SUBMITTER_SHARE_BP_DEFAULT :: rat where "SUBMITTER_SHARE_BP_DEFAULT = 8000"
definition SUBMITTER_SHARE_BP_MIN :: rat where "SUBMITTER_SHARE_BP_MIN = 6000"
definition SUBMITTER_SHARE_BP_MAX :: rat where "SUBMITTER_SHARE_BP_MAX = 9000"
definition REVIEWER_ACCURACY_FLOOR_BP :: int where "REVIEWER_ACCURACY_FLOOR_BP = 2500"
definition CHALLENGE_TTL_DAYS_DEFAULT :: rat where "CHALLENGE_TTL_DAYS_DEFAULT = 14"
definition ENGINE_ALGO_VERSION :: string where
  "ENGINE_ALGO_VERSION = ''idbots-metatask-engine/1.2.1''"
definition ENGINE_ALGO_VERSION_COMPETITIVE :: string where
  "ENGINE_ALGO_VERSION_COMPETITIVE = ''idbots-metatask-engine/1.3.0''"

definition METATASK_EVENT_PATHS :: "string list" where
  "METATASK_EVENT_PATHS =
     [''task'', ''tree'', ''spec'', ''claim'', ''release'', ''submission'', ''verify'', ''amend'', ''challenge'']"

definition METATASK_ROSTER_SEGMENT :: string where
  "METATASK_ROSTER_SEGMENT = ''metatask-roster''"

definition METATASK_COLLECTED_PATHS :: "string list" where
  "METATASK_COLLECTED_PATHS = METATASK_EVENT_PATHS @ [METATASK_ROSTER_SEGMENT]"

definition metataskPoolPath :: "string \<Rightarrow> string" where
  "metataskPoolPath segment =
     (if segment = METATASK_ROSTER_SEGMENT then ''/protocols/metatask-roster''
      else ''/protocols/metatask'' @ ''/'' @ segment)"

text \<open>\<open>hAct2Or\<close>: a published non-negative height, else infinity.\<close>

definition hAct2Or :: "int option \<Rightarrow> int option" where
  "hAct2Or value = (case value of Some n \<Rightarrow> if 0 \<le> n then Some n else None | None \<Rightarrow> None)"

definition below_gate :: "int \<Rightarrow> int option \<Rightarrow> bool" where
  "below_gate h gate = (case gate of None \<Rightarrow> True | Some n \<Rightarrow> h < n)"

lemma below_gate_simps [simp]: "below_gate h None" "below_gate h (Some n) \<longleftrightarrow> h < n"
  by (simp_all add: below_gate_def)

section \<open>Chain events and their order\<close>

record chain_event =
  ev_pinId :: string
  ev_path :: string
  ev_author :: string
  ev_height :: int
  ev_txIndex :: int
  ev_timestampMs :: int
  ev_body :: body

type_synonym order_key = "int \<times> int \<times> int \<times> string"

definition BIG :: int where "BIG = 1000000000000"

definition normHeight :: "int \<Rightarrow> int" where
  "normHeight h = (if 0 \<le> h then h else BIG)"

definition orderKey :: "chain_event \<Rightarrow> order_key" where
  "orderKey event = (normHeight (ev_height event), ev_txIndex event, ev_timestampMs event, ev_pinId event)"

text \<open>The code's comparator walks the four columns; on keys it is the lexicographic order.\<close>

definition compareByOrderKey :: "chain_event \<Rightarrow> chain_event \<Rightarrow> int" where
  "compareByOrderKey a b =
     (case (orderKey a, orderKey b) of ((a0, a1, a2, a3), (b0, b1, b2, b3)) \<Rightarrow>
        if a0 \<noteq> b0 then (if a0 < b0 then -1 else 1)
        else if a1 \<noteq> b1 then (if a1 < b1 then -1 else 1)
        else if a2 \<noteq> b2 then (if a2 < b2 then -1 else 1)
        else if a3 \<noteq> b3 then (if a3 < b3 then -1 else 1)
        else 0)"

lemma compareByOrderKey_neg_iff: "compareByOrderKey a b < 0 \<longleftrightarrow> orderKey a < orderKey b"
  by (cases "orderKey a"; cases "orderKey b")
     (auto simp: compareByOrderKey_def less_prod_def less_prod_def')

definition body_get :: "chain_event \<Rightarrow> string \<Rightarrow> json option" where
  "body_get e k = map_of (ev_body e) k"

text \<open>\<open>asStr(pin.body.k)\<close>, the way the engine reads most fields.\<close>

definition body_str :: "chain_event \<Rightarrow> string \<Rightarrow> string" where
  "body_str e k = asStr (body_get e k) ''''"

section \<open>Working records of the replay\<close>

record vote_record =
  vr_bot :: string
  vr_pinId :: string
  vr_body :: body
  vr_height :: int
  vr_timestampMs :: int

record cycle_submission =
  cs_pinId :: string
  cs_author :: string
  cs_atMs :: int
  cs_height :: int
  cs_supersedeid :: "string option"

datatype cycle_outcome = Verified | FailRejected | Open

record effective_submission =
  ef_pinId :: string
  ef_author :: string
  ef_atMs :: int

record cycle_record =
  cy_node :: string
  cy_claimId :: string
  cy_claimant :: string
  cy_submissions :: "cycle_submission list"
  cy_effective :: "effective_submission option"
  cy_superseded :: "string list"
  cy_outcome :: cycle_outcome

record holder =
  ho_pinId :: string
  ho_claimant :: string
  ho_sinceMs :: int

record comp_submission =
  sb_pinId :: string
  sb_node :: string
  sb_author :: string
  sb_atMs :: int
  sb_height :: int
  sb_txIndex :: int
  sb_parentrefs :: "body option"
  sb_supersedeid :: "string option"
  sb_passVoters :: "(string, string) jsmap"
  sb_failed :: bool
  sb_verified :: bool
  sb_verifiedVote :: "order_key option" \<comment> \<open>raw height, txIndex, timestampMs, pinId\<close>
  sb_superseded :: bool

text \<open>The effective tree: node id to the published (or amended) node object.\<close>

type_synonym tree = "(string, json) jsmap"

type_synonym ignored = "(string \<times> string) list" \<comment> \<open>pinId and reason\<close>

section \<open>The projection\<close>

record vote_summary =
  vs_voter :: string
  vs_verdict :: string
  vs_pinId :: string
  vs_counted :: bool
  vs_ignoreReason :: "string option"
  vs_semanticCheck :: bool
  vs_failreason :: bool
  vs_targetid :: string
  vs_height :: int
  vs_timestampMs :: int
  vs_failreasonText :: "string option"
  vs_semanticCheckText :: "string option"

record candidate =
  ca_pinId :: string
  ca_submitter :: string
  ca_atMs :: int
  ca_result :: "body option"
  ca_hash :: "string option"
  ca_contentType :: "string option"
  ca_attachment :: "string option"
  ca_parentrefs :: "body option"
  ca_verified :: bool
  ca_chainValid :: bool
  ca_superseded :: bool
  ca_failed :: bool
  ca_passVotes :: nat
  ca_failVotes :: nat
  ca_verifiedHeight :: "int option"
  ca_verifiedTxIndex :: "int option"
  ca_votes :: "vote_summary list"

record submission_view =
  sv_pinId :: string
  sv_submitter :: string
  sv_atMs :: int
  sv_superseded :: bool
  sv_result :: "body option"
  sv_hash :: "string option"
  sv_contentType :: "string option"
  sv_attachment :: "string option"
  sv_parentrefs :: "body option option" \<comment> \<open>outer None: the field is absent (tree mode)\<close>

datatype node_status = StOpen | StClaimed | StVerified

record node_projection =
  np_id :: string
  np_parent :: json
  np_title :: json
  np_kind :: json
  np_weight :: json
  np_params :: json
  np_specid :: json
  np_deps :: "string list"
  np_status :: node_status
  np_disputed :: bool
  np_holder :: "holder option"
  np_submission :: "submission_view option"
  np_submissions :: "candidate list option"
  np_passVotes :: nat
  np_failVotes :: nat
  np_votes :: "vote_summary list"
  np_cycleCount :: nat

record participant =
  pa_metaId :: string
  pa_effectiveClaims :: nat
  pa_submissions :: nat
  pa_verifiedContrib :: nat
  pa_reviewVotes :: nat
  pa_reviewCorrect :: nat
  pa_reviewTerminal :: nat

record share_parts =
  sp_submittedBP :: int
  sp_reviewedBP :: int

record share =
  sh_metaId :: string
  sh_shareBP :: int
  sh_from :: share_parts

record unpaid =
  un_node :: string
  un_author :: string
  un_pinId :: string
  un_reason :: string

record settlement =
  se_taskid :: string
  se_boundaryBlock :: int
  se_eventSetHash :: string
  se_engineAlgoVersion :: string
  se_shares :: "share list"
  se_unpaidHistory :: "unpaid list"
  se_disputed :: "string list"
  se_weightsTableHash :: string
  se_mode :: "string option"
  se_winningChain :: "string list option"

record policy_view =
  po_claimTtlHours :: rat
  po_verifyQuorum :: rat
  po_verifyWindowHours :: rat
  po_rewardSat :: rat
  po_challengeTtlDays :: rat
  po_hasSplit :: bool
  po_rosterid :: json
  po_submitterShareBP :: rat
  po_mode :: string
  po_finalNode :: "string option"

record progress =
  pr_total :: nat
  pr_verified :: nat
  pr_claimed :: nat
  pr_open :: nat
  pr_disputed :: nat
  pr_satisfied :: nat

record freshness =
  fr_boundaryBlock :: int
  fr_evaluatedAtMs :: int
  fr_eventCount :: nat
  fr_eventSetHash :: string
  fr_expiryApplied :: bool

record task_projection =
  tp_rootPinId :: string
  tp_title :: string
  tp_brief :: string
  tp_publisher :: string
  tp_tags :: "string list"
  tp_policy :: policy_view
  tp_nodes :: "json list"
  tp_amendHead :: string
  tp_nodeStates :: "(string, node_projection) jsmap"
  tp_progress :: progress
  tp_taskComplete :: bool
  tp_participants :: "participant list"
  tp_settlement :: "settlement option"
  tp_lastActivityMs :: int
  tp_freshness :: freshness
  tp_ignoredEvents :: ignored

end
