(* ===== verification/EventSet.thy ===== *)
theory EventSet
  imports MtTypes
begin

text \<open>
  A task's replay-relevant event set: \<open>taskEventSet\<close> and \<open>taskDirtyKey\<close> of metatask/engine.ts.
  The pool is grouped by path and each group sorted by the order key; the event set, its hash
  rows and the dirty key are computed from the groups. The lemmas show that none of it depends
  on the order in which a sweep delivered the pool, as long as pin ids are distinct, that the
  hash rows hold confirmed pins only, and that the task root is a task pin of the pool.
\<close>

datatype replay_error = NoTaskRootPin

type_synonym by_path = "(string, chain_event list) jsmap"

definition byPathOf :: "chain_event list \<Rightarrow> by_path" where
  "byPathOf events = map (\<lambda>(p, l). (p, sort_key orderKey l)) (group_on ev_path events)"

definition pathList :: "by_path \<Rightarrow> string \<Rightarrow> chain_event list" where
  "pathList byPath p = jget_or byPath p []"

record hash_entry =
  he_path :: string
  he_pinId :: string
  he_height :: int
  he_txIndex :: int

record task_event_set =
  ts_rootPin :: chain_event
  ts_rootAuthor :: string
  ts_taskBody :: body
  ts_treePinId :: string
  ts_treePin :: "chain_event option"
  ts_submissions :: "chain_event list"
  ts_knownTargets :: "string list"
  ts_scopedByPin :: "(string, chain_event) jsmap"
  ts_hashEntries :: "hash_entry list"
  ts_boundaryBlock :: int
  ts_mempoolPinIds :: "string list"

definition find_pin :: "string \<Rightarrow> chain_event list \<Rightarrow> chain_event option" where
  "find_pin pid l = find (\<lambda>pin. ev_pinId pin = pid) l"

definition rootPinOf :: "by_path \<Rightarrow> string option \<Rightarrow> chain_event option" where
  "rootPinOf byPath rootPinId =
     (let taskPins = pathList byPath ''task'' in
      case rootPinId of
        Some pid \<Rightarrow> if pid \<noteq> '''' then find_pin pid taskPins
                   else (if taskPins = [] then None else Some (last taskPins))
      | None \<Rightarrow> (if taskPins = [] then None else Some (last taskPins)))"

definition put_all :: "chain_event list \<Rightarrow> (string, chain_event) jsmap \<Rightarrow> (string, chain_event) jsmap" where
  "put_all l m = foldl (\<lambda>m pin. jset (ev_pinId pin) pin m) m l"

text \<open>Scoping by taskid (every path but task, tree and spec), then verify and challenge by target.\<close>

definition scopedByPinOf ::
  "by_path \<Rightarrow> chain_event \<Rightarrow> chain_event option \<Rightarrow> string list \<Rightarrow> (string, chain_event) jsmap" where
  "scopedByPinOf byPath rootPin treePin knownTargets =
     (let base = jset (ev_pinId rootPin) rootPin [];
          base = (case treePin of None \<Rightarrow> base | Some t \<Rightarrow> jset (ev_pinId t) t base);
          byTask = foldl (\<lambda>m (path, l).
             if path = ''task'' \<or> path = ''tree'' \<or> path = ''spec'' then m
             else put_all (filter (\<lambda>pin. body_str pin ''taskid'' = ev_pinId rootPin) l) m) base byPath
      in foldl (\<lambda>m scopePath.
           put_all (filter (\<lambda>pin. body_str pin ''targetid'' \<in> set knownTargets) (pathList byPath scopePath)) m)
         byTask [''verify'', ''challenge''])"

text \<open>One path's rows of the eventSetHash recipe: confirmed pins, by (height, txIndex, pinId).\<close>

definition hashRowsOf ::
  "by_path \<Rightarrow> chain_event \<Rightarrow> string \<Rightarrow> body \<Rightarrow> string list \<Rightarrow> string \<Rightarrow> chain_event list" where
  "hashRowsOf byPath rootPin treePinId taskBody knownTargets path =
     sort_key (\<lambda>pin. (ev_height pin, ev_txIndex pin, ev_pinId pin))
       (filter (\<lambda>pin.
          if ev_height pin < 0 then False
          else if path = ''task'' then ev_pinId pin = ev_pinId rootPin
          else if path = ''tree'' then ev_pinId pin = treePinId
          else if path = ''spec'' then
            js_truthy (jget taskBody ''specid'') \<and> jget taskBody ''specid'' = Some (JStr (ev_pinId pin))
          else if path = ''verify'' \<or> path = ''challenge'' then
            body_str pin ''targetid'' \<in> set knownTargets
          else body_str pin ''taskid'' = ev_pinId rootPin)
        (pathList byPath path))"

definition toHashEntry :: "string \<Rightarrow> chain_event \<Rightarrow> hash_entry" where
  "toHashEntry path pin =
     \<lparr>he_path = ''/protocols/metatask/'' @ path, he_pinId = ev_pinId pin,
      he_height = ev_height pin, he_txIndex = ev_txIndex pin\<rparr>"

definition buildEventSet :: "by_path \<Rightarrow> chain_event \<Rightarrow> task_event_set" where
  "buildEventSet byPath rootPin =
     (let taskBody = ev_body rootPin;
          treePinId = asStr (jget taskBody ''treeid'') [];
          treePin = find_pin treePinId (pathList byPath ''tree'');
          submissions = sort_key orderKey
            (filter (\<lambda>pin. body_str pin ''taskid'' = ev_pinId rootPin) (pathList byPath ''submission''));
          knownTargets = map ev_pinId submissions;
          scoped = scopedByPinOf byPath rootPin treePin knownTargets;
          rows = map (\<lambda>p. (p, hashRowsOf byPath rootPin treePinId taskBody knownTargets p)) METATASK_EVENT_PATHS
      in \<lparr>ts_rootPin = rootPin,
          ts_rootAuthor = ev_author rootPin,
          ts_taskBody = taskBody,
          ts_treePinId = treePinId,
          ts_treePin = treePin,
          ts_submissions = submissions,
          ts_knownTargets = knownTargets,
          ts_scopedByPin = scoped,
          ts_hashEntries = concat (map (\<lambda>(p, l). map (toHashEntry p) l) rows),
          ts_boundaryBlock = foldl (\<lambda>b pin. if ev_height pin > b then ev_height pin else b) (-1)
            (concat (map snd rows)),
          ts_mempoolPinIds = sort (map ev_pinId (filter (\<lambda>pin. ev_height pin < 0) (map snd scoped)))\<rparr>)"

text \<open>\<open>throw new Error('metatask replay: no task root pin in event set')\<close> is \<open>Inl\<close>.\<close>

definition taskEventSet :: "by_path \<Rightarrow> string option \<Rightarrow> replay_error + task_event_set" where
  "taskEventSet byPath rootPinId =
     (case rootPinOf byPath rootPinId of
        None \<Rightarrow> Inl NoTaskRootPin
      | Some rootPin \<Rightarrow> Inr (buildEventSet byPath rootPin))"

definition hashEntryJson :: "hash_entry \<Rightarrow> json" where
  "hashEntryJson e = JObj [(''path'', JStr (he_path e)), (''pinId'', JStr (he_pinId e)),
     (''height'', JNum (of_int (he_height e))), (''txIndex'', JNum (of_int (he_txIndex e)))]"

definition eventSetHashOf :: "(string \<Rightarrow> string) \<Rightarrow> task_event_set \<Rightarrow> string" where
  "eventSetHashOf sha ts = sha (canonJ (JArr (map hashEntryJson (ts_hashEntries ts))))"

definition PROJECTION_FORMAT_VERSION :: rat where "PROJECTION_FORMAT_VERSION = 3"

definition taskDirtyKey :: "(string \<Rightarrow> string) \<Rightarrow> task_event_set \<Rightarrow> body \<Rightarrow> string" where
  "taskDirtyKey sha ts rosterPins =
     (let rosterid = nullish (jopt (jopt (jget (ts_taskBody ts) ''policy'') ''split'') ''rosterid'') (Some JNull);
          bodies = sort_key fst
            (map (\<lambda>(_, pin). (ev_pinId pin, sha (canonJ (JObj (ev_body pin))))) (ts_scopedByPin ts))
      in sha (canonJ (JObj
           [(''formatVersion'', JNum PROJECTION_FORMAT_VERSION),
            (''confirmed'', JArr (map hashEntryJson (ts_hashEntries ts))),
            (''unconfirmed'', JArr (map JStr (ts_mempoolPinIds ts))),
            (''bodies'', JArr (map (\<lambda>(p, h). JObj [(''pinId'', JStr p), (''bodyHash'', JStr h)]) bodies)),
            (''rosterPin'', if js_truthy rosterid
               then or_null (map_of rosterPins (js_string_opt rosterid)) else JNull)])))"

section \<open>Order independence of the pool\<close>

text \<open>
  Both protocol engines first sort a pool of pins by a total key that ends in the pin id. What
  they rely on is this contract: a key that separates pins with different ids. The lemma proved
  once here is that a filtered, sorted view of the pool is the same for every delivery order.
\<close>

locale pin_order =
  fixes key :: "'e \<Rightarrow> 'k::linorder" and pin :: "'e \<Rightarrow> string"
  assumes key_pin: "key a = key b \<Longrightarrow> pin a = pin b"
begin

lemma inj_on_key:
  assumes "distinct (map pin xs)"
  shows "inj_on key (set xs)"
proof (rule inj_onI)
  fix a b assume "a \<in> set xs" "b \<in> set xs" "key a = key b"
  moreover have "inj_on pin (set xs)" using assms by (simp add: distinct_map)
  ultimately show "a = b" using key_pin by (auto dest: inj_onD)
qed

lemma sorted_view_perm:
  assumes "distinct (map pin xs)" and m: "mset xs = mset ys"
  shows "sort_key key (filter P xs) = sort_key key (filter P ys)"
proof (rule sort_key_mset_cong)
  show "inj_on key (set (filter P xs))"
    using inj_on_key [OF assms(1)] by (rule inj_on_subset) auto
  show "mset (filter P xs) = mset (filter P ys)" using m by (simp add: mset_filter)
qed

end

interpretation mt_order: pin_order orderKey ev_pinId
  by unfold_locales (simp add: orderKey_def)

lemma jget_or_map_snd: "f d = d \<Longrightarrow> jget_or (map (\<lambda>(k, v). (k, f v)) m) k d = f (jget_or m k d)"
  by (induction m) (auto simp: jget_or_def)

lemma pathList_byPathOf: "pathList (byPathOf events) p = sort_key orderKey (filter (\<lambda>e. ev_path e = p) events)"
  by (simp add: pathList_def byPathOf_def jget_or_map_snd)

lemma keys_byPathOf: "fst ` set (byPathOf events) = ev_path ` set events"
proof -
  have "map fst (byPathOf events) = map fst (group_on ev_path events)"
    by (simp add: byPathOf_def case_prod_unfold)
  then show ?thesis by (metis keys_group_on set_map)
qed

lemma distinct_byPathOf: "distinct (map fst (byPathOf events))"
  by (simp add: byPathOf_def case_prod_unfold comp_def)

lemma pathList_perm:
  assumes "distinct (map ev_pinId events)" "mset events' = mset events"
  shows "pathList (byPathOf events') p = pathList (byPathOf events) p"
  using mt_order.sorted_view_perm [OF assms(1), of events' "\<lambda>e. ev_path e = p"] assms(2)
  by (simp add: pathList_byPathOf)

lemma set_pathList: "set (pathList (byPathOf events) p) = {e \<in> set events. ev_path e = p}"
  by (auto simp: pathList_byPathOf)

lemma sorted_pathList: "sorted (map orderKey (pathList (byPathOf events) p))"
  by (simp add: pathList_byPathOf)

lemma in_byPathOf: "(p, l) \<in> set (byPathOf events) \<Longrightarrow> l = pathList (byPathOf events) p"
  using jget_in [OF distinct_byPathOf] by (simp add: pathList_def jget_or_def)

section \<open>The scoped pins as a set\<close>

text \<open>A map that stores every pin under its own id.\<close>

definition self_keyed :: "(string, chain_event) jsmap \<Rightarrow> chain_event set \<Rightarrow> bool" where
  "self_keyed m U \<longleftrightarrow> (\<forall>(k, e) \<in> set m. k = ev_pinId e \<and> e \<in> U) \<and> distinct (map fst m)"

lemma set_jset_self_keyed:
  assumes "self_keyed m U" "e \<in> U" "inj_on ev_pinId U"
  shows "set (jset (ev_pinId e) e m) = insert (ev_pinId e, e) (set m)"
  using assms
proof (induction m)
  case (Cons x m)
  obtain k e' where x: "x = (k, e')" by (cases x)
  have m: "self_keyed m U" using Cons.prems(1) by (auto simp: self_keyed_def)
  have k: "k = ev_pinId e'" "e' \<in> U" using Cons.prems(1) by (auto simp: self_keyed_def x)
  then have "k = ev_pinId e \<Longrightarrow> e' = e" using Cons.prems(2,3) by (auto dest: inj_onD)
  then show ?case using Cons.IH [OF m Cons.prems(2,3)] by (auto simp: x)
qed simp

lemma self_keyed_jset:
  assumes "self_keyed m U" "e \<in> U" "inj_on ev_pinId U"
  shows "self_keyed (jset (ev_pinId e) e m) U"
  using assms set_jset_self_keyed [OF assms] by (auto simp: self_keyed_def intro: distinct_jset)

lemma put_all_self_keyed:
  assumes "self_keyed m U" "set l \<subseteq> U" "inj_on ev_pinId U"
  shows "self_keyed (put_all l m) U \<and> set (put_all l m) = set m \<union> (\<lambda>e. (ev_pinId e, e)) ` set l"
  using assms
proof (induction l arbitrary: m)
  case (Cons e l)
  then have e: "e \<in> U" by simp
  have "put_all (e # l) m = put_all l (jset (ev_pinId e) e m)" by (simp add: put_all_def)
  then show ?case
    using Cons.IH [OF self_keyed_jset [OF Cons.prems(1) e Cons.prems(3)] _ Cons.prems(3)]
      set_jset_self_keyed [OF Cons.prems(1) e Cons.prems(3)] Cons.prems(2)
    by auto
qed (simp add: put_all_def)

lemma self_keyed_mset_eq:
  assumes "self_keyed m U" "self_keyed m' U" "set m = set m'"
  shows "mset m = mset m'"
  using assms set_eq_iff_mset_eq_distinct [of m m'] by (auto simp: self_keyed_def distinct_map)

text \<open>What the two scoping loops collect.\<close>

definition scoped_events ::
  "chain_event set \<Rightarrow> chain_event \<Rightarrow> chain_event option \<Rightarrow> string set \<Rightarrow> chain_event set" where
  "scoped_events U rootPin treePin known =
     {e. e = rootPin \<or> treePin = Some e \<or>
         (e \<in> U \<and> ev_path e \<notin> {''task'', ''tree'', ''spec''} \<and> body_str e ''taskid'' = ev_pinId rootPin) \<or>
         (e \<in> U \<and> ev_path e \<in> {''verify'', ''challenge''} \<and> body_str e ''targetid'' \<in> known)}"

lemma scope_by_task_set:
  fixes P :: "chain_event \<Rightarrow> bool"
  assumes inj: "inj_on ev_pinId U" and m: "self_keyed m U"
    and bp: "\<forall>(p, l) \<in> set bp. set l \<subseteq> U"
  defines "step \<equiv> \<lambda>m (path, l).
       if path = ''task'' \<or> path = ''tree'' \<or> path = ''spec'' then m
       else put_all (filter P l) m"
  shows "self_keyed (foldl step m bp) U \<and>
    set (foldl step m bp) = set m \<union> {(ev_pinId e, e) | e. \<exists>p l. (p, l) \<in> set bp \<and>
       p \<notin> {''task'', ''tree'', ''spec''} \<and> e \<in> set l \<and> P e}"
  using m bp
proof (induction bp arbitrary: m)
  case (Cons x bp)
  obtain p l where x: "x = (p, l)" by (cases x)
  have l: "set (filter P l) \<subseteq> U" using Cons.prems(2) x by auto
  have sk: "self_keyed (step m x) U"
    using put_all_self_keyed [OF Cons.prems(1) l inj] Cons.prems(1) by (simp add: step_def x)
  have st: "set (step m x) = set m \<union> {(ev_pinId e, e) | e.
      p \<notin> {''task'', ''tree'', ''spec''} \<and> e \<in> set l \<and> P e}"
    using put_all_self_keyed [OF Cons.prems(1) l inj] by (auto simp: step_def x)
  have "self_keyed (foldl step (step m x) bp) U \<and>
    set (foldl step (step m x) bp) = set (step m x) \<union> {(ev_pinId e, e) | e. \<exists>p l. (p, l) \<in> set bp \<and>
       p \<notin> {''task'', ''tree'', ''spec''} \<and> e \<in> set l \<and> P e}"
    using Cons.IH [OF sk] Cons.prems(2) by simp
  moreover have "{(ev_pinId e, e) | e. \<exists>p l. (p, l) \<in> set (x # bp) \<and>
       p \<notin> {''task'', ''tree'', ''spec''} \<and> e \<in> set l \<and> P e} =
     {(ev_pinId e, e) | e. p \<notin> {''task'', ''tree'', ''spec''} \<and> e \<in> set l \<and> P e} \<union>
     {(ev_pinId e, e) | e. \<exists>p l. (p, l) \<in> set bp \<and>
       p \<notin> {''task'', ''tree'', ''spec''} \<and> e \<in> set l \<and> P e}"
    unfolding x list.set by blast
  ultimately show ?case using st by (simp add: Un_assoc)
qed simp

lemma scopedByPinOf_set:
  assumes inj: "inj_on ev_pinId (set events)" and r: "rootPin \<in> set events"
    and t: "\<forall>e. treePin = Some e \<longrightarrow> e \<in> set events"
  shows "self_keyed (scopedByPinOf (byPathOf events) rootPin treePin known) (set events) \<and>
    set (scopedByPinOf (byPathOf events) rootPin treePin known) =
      (\<lambda>e. (ev_pinId e, e)) ` scoped_events (set events) rootPin treePin (set known)"
proof -
  let ?U = "set events" and ?bp = "byPathOf events"
  let ?ini = "jset (ev_pinId rootPin) rootPin []"
  let ?base = "case treePin of None \<Rightarrow> ?ini | Some t \<Rightarrow> jset (ev_pinId t) t ?ini"
  have b0: "self_keyed ?ini ?U" using r by (simp add: self_keyed_def)
  have base: "self_keyed ?base ?U \<and> set ?base =
      insert (ev_pinId rootPin, rootPin) {(ev_pinId e, e) | e. treePin = Some e}"
  proof (cases treePin)
    case None
    then show ?thesis using b0 by simp
  next
    case (Some e)
    then have e: "e \<in> ?U" using t by simp
    show ?thesis
      using self_keyed_jset [OF b0 e inj] set_jset_self_keyed [OF b0 e inj] Some by auto
  qed
  let ?P = "\<lambda>pin. body_str pin ''taskid'' = ev_pinId rootPin"
  let ?byTask = "foldl (\<lambda>m (path, l). if path = ''task'' \<or> path = ''tree'' \<or> path = ''spec'' then m
       else put_all (filter ?P l) m) ?base ?bp"
  have bp: "\<forall>(p, l) \<in> set ?bp. set l \<subseteq> ?U"
    by (auto dest!: in_byPathOf simp: set_pathList)
  have ex: "(\<exists>l. (p, l) \<in> set ?bp \<and> e \<in> set l) \<longleftrightarrow> e \<in> ?U \<and> ev_path e = p" for e p
  proof
    assume "\<exists>l. (p, l) \<in> set ?bp \<and> e \<in> set l"
    then show "e \<in> ?U \<and> ev_path e = p" by (auto dest!: in_byPathOf simp: set_pathList)
  next
    assume e: "e \<in> ?U \<and> ev_path e = p"
    then have "p \<in> fst ` set ?bp" by (auto simp: keys_byPathOf)
    then obtain l where l: "(p, l) \<in> set ?bp" by auto
    then have "e \<in> set l" using e in_byPathOf [OF l] by (simp add: set_pathList)
    then show "\<exists>l. (p, l) \<in> set ?bp \<and> e \<in> set l" using l by blast
  qed
  have task: "self_keyed ?byTask ?U \<and> set ?byTask = set ?base \<union> {(ev_pinId e, e) | e.
      e \<in> ?U \<and> ev_path e \<notin> {''task'', ''tree'', ''spec''} \<and> ?P e}"
  proof -
    have "(\<exists>p l. (p, l) \<in> set ?bp \<and> N p \<and> e \<in> set l \<and> Q) \<longleftrightarrow> e \<in> ?U \<and> N (ev_path e) \<and> Q" for e N Q
    proof
      assume "\<exists>p l. (p, l) \<in> set ?bp \<and> N p \<and> e \<in> set l \<and> Q"
      then obtain p l where a: "(p, l) \<in> set ?bp" "e \<in> set l" "N p" "Q" by blast
      then have "e \<in> ?U \<and> ev_path e = p" using ex [of p e, THEN iffD1] by blast
      then show "e \<in> ?U \<and> N (ev_path e) \<and> Q" using a by simp
    next
      assume a: "e \<in> ?U \<and> N (ev_path e) \<and> Q"
      then obtain l where "(ev_path e, l) \<in> set ?bp" "e \<in> set l"
        using ex [of "ev_path e" e, THEN iffD2] by blast
      then show "\<exists>p l. (p, l) \<in> set ?bp \<and> N p \<and> e \<in> set l \<and> Q" using a by blast
    qed
    from this [of "\<lambda>p. p \<notin> {''task'', ''tree'', ''spec''}"]
    show ?thesis using scope_by_task_set [OF inj conjunct1 [OF base] bp, of ?P] by simp
  qed
  let ?put = "\<lambda>p m. put_all (filter (\<lambda>pin. body_str pin ''targetid'' \<in> set known) (pathList ?bp p)) m"
  have sub: "set (filter (\<lambda>pin. body_str pin ''targetid'' \<in> set known) (pathList ?bp p)) \<subseteq> ?U" for p
    by (auto simp: set_pathList)
  note v = put_all_self_keyed [OF conjunct1 [OF task] sub inj, of "''verify''"]
  note c = put_all_self_keyed [OF conjunct1 [OF v] sub inj, of "''challenge''"]
  have eq: "scopedByPinOf ?bp rootPin treePin known = ?put ''challenge'' (?put ''verify'' ?byTask)"
    unfolding scopedByPinOf_def Let_def foldl.simps ..
  let ?f = "\<lambda>e. (ev_pinId e, e)"
  let ?T = "\<lambda>p. {e \<in> ?U. ev_path e = p \<and> body_str e ''targetid'' \<in> set known}"
  have im: "{(ev_pinId e, e) | e. Q e} = ?f ` {e. Q e}" for Q by blast
  have lists: "set (filter (\<lambda>pin. body_str pin ''targetid'' \<in> set known) (pathList ?bp p)) = ?T p" for p
    by (auto simp: set_pathList)
  have "set (scopedByPinOf ?bp rootPin treePin known) =
      ?f ` ({rootPin} \<union> {e. treePin = Some e} \<union>
            {e. e \<in> ?U \<and> ev_path e \<notin> {''task'', ''tree'', ''spec''} \<and> ?P e} \<union> ?T ''verify'' \<union> ?T ''challenge'')"
    using v c task base unfolding eq im lists by (simp add: image_Un Un_assoc)
  also have "{rootPin} \<union> {e. treePin = Some e} \<union>
      {e. e \<in> ?U \<and> ev_path e \<notin> {''task'', ''tree'', ''spec''} \<and> ?P e} \<union> ?T ''verify'' \<union> ?T ''challenge'' =
      scoped_events ?U rootPin treePin (set known)"
    unfolding scoped_events_def by blast
  finally show ?thesis using c unfolding eq by simp
qed

section \<open>The event set does not depend on delivery order\<close>

text \<open>Two event sets that agree on everything but the internal order of the scoped pins.\<close>

definition ts_equiv :: "task_event_set \<Rightarrow> task_event_set \<Rightarrow> bool" where
  "ts_equiv t t' \<longleftrightarrow>
     t' = t\<lparr>ts_scopedByPin := ts_scopedByPin t'\<rparr> \<and>
     mset (ts_scopedByPin t') = mset (ts_scopedByPin t) \<and> distinct (map fst (ts_scopedByPin t))"

lemma find_pin_in: "find_pin p l = Some e \<Longrightarrow> e \<in> set l \<and> ev_pinId e = p"
  by (auto simp: find_pin_def find_Some_iff)

lemma rootPinOf_in:
  assumes "rootPinOf (byPathOf events) r = Some e"
  shows "e \<in> set events \<and> ev_path e = ''task''"
proof -
  have "e \<in> set (pathList (byPathOf events) ''task'')"
    using assms by (auto simp: rootPinOf_def Let_def dest: find_pin_in split: option.splits if_splits)
  then show ?thesis by (simp add: set_pathList)
qed

lemma scopedByPinOf_perm:
  assumes d: "distinct (map ev_pinId events)" and m: "mset events' = mset events"
    and r: "rootPin \<in> set events" and t: "\<forall>e. treePin = Some e \<longrightarrow> e \<in> set events"
  shows "mset (scopedByPinOf (byPathOf events') rootPin treePin known) =
         mset (scopedByPinOf (byPathOf events) rootPin treePin known)"
    and "distinct (map fst (scopedByPinOf (byPathOf events) rootPin treePin known))"
proof -
  have s: "set events' = set events" using m by (metis set_mset_mset)
  have inj: "inj_on ev_pinId (set events)" using d by (simp add: distinct_map)
  note a = scopedByPinOf_set [OF inj r t, of known]
  have "inj_on ev_pinId (set events')" "rootPin \<in> set events'" "\<forall>e. treePin = Some e \<longrightarrow> e \<in> set events'"
    using inj r t s by simp_all
  note b = scopedByPinOf_set [OF this, of known]
  show "mset (scopedByPinOf (byPathOf events') rootPin treePin known) =
        mset (scopedByPinOf (byPathOf events) rootPin treePin known)"
    using a b s by (intro self_keyed_mset_eq [where U = "set events"]) simp_all
  show "distinct (map fst (scopedByPinOf (byPathOf events) rootPin treePin known))"
    using a by (simp add: self_keyed_def)
qed

lemma sort_mset_cong:
  fixes xs ys :: "'a::linorder list"
  shows "mset xs = mset ys \<Longrightarrow> sort xs = sort ys"
  by (rule sort_key_mset_cong) auto

lemma buildEventSet_perm:
  assumes d: "distinct (map ev_pinId events)" and m: "mset events' = mset events"
    and e: "e \<in> set events"
  shows "ts_equiv (buildEventSet (byPathOf events) e) (buildEventSet (byPathOf events') e)"
proof -
  have pl: "pathList (byPathOf events') = pathList (byPathOf events)"
    using pathList_perm [OF d m] by blast
  have hr: "hashRowsOf (byPathOf events') = hashRowsOf (byPathOf events)"
    by (intro ext) (simp add: hashRowsOf_def pl)
  let ?tree = "find_pin (asStr (jget (ev_body e) ''treeid'') []) (pathList (byPathOf events) ''tree'')"
  have tree: "\<forall>x. ?tree = Some x \<longrightarrow> x \<in> set events"
    using find_pin_in set_pathList by blast
  let ?known = "map ev_pinId (sort_key orderKey (filter (\<lambda>pin. body_str pin ''taskid'' = ev_pinId e)
     (pathList (byPathOf events) ''submission'')))"
  let ?s = "scopedByPinOf (byPathOf events) e ?tree ?known"
  let ?s' = "scopedByPinOf (byPathOf events') e ?tree ?known"
  let ?mem = "\<lambda>s. sort (map ev_pinId (filter (\<lambda>pin. ev_height pin < 0) (map snd s)))"
  note sc = scopedByPinOf_perm [OF d m e tree, of ?known]
  have mp: "?mem ?s' = ?mem ?s"
    by (rule sort_mset_cong) (simp only: mset_map mset_filter sc(1))
  have "buildEventSet (byPathOf events') e = (buildEventSet (byPathOf events) e)\<lparr>ts_scopedByPin := ?s'\<rparr>"
    unfolding buildEventSet_def pl hr Let_def task_event_set.update_convs mp ..
  moreover have "ts_scopedByPin (buildEventSet (byPathOf events) e) = ?s"
    by (simp add: buildEventSet_def Let_def)
  ultimately show ?thesis using sc by (simp add: ts_equiv_def)
qed

lemma taskEventSet_perm:
  assumes d: "distinct (map ev_pinId events)" and m: "mset events' = mset events"
  shows "rel_sum (=) ts_equiv (taskEventSet (byPathOf events) r) (taskEventSet (byPathOf events') r)"
proof -
  have "rootPinOf (byPathOf events') r = rootPinOf (byPathOf events) r"
    using pathList_perm [OF d m] by (simp add: rootPinOf_def)
  then show ?thesis
    using buildEventSet_perm [OF d m] rootPinOf_in
    by (auto simp: taskEventSet_def split: option.splits)
qed

end
