(* ===== verification/Votes.thy ===== *)
theory Votes
  imports EventSet
begin

text \<open>
  The vote pre-pass of \<open>replayMetaTask\<close>: the #8/#9 validity gates, the same-side roster filter
  and the last valid vote per (target, bot). Shown here: the vote that acts for a target and a bot
  is the chain-last one that passes the gates, so a malformed vote never withdraws an earlier
  valid one; every acting vote passed the gates and targets a submission of the task; and a bot
  has at most one acting vote on a target.
\<close>

section \<open>Gates and roster\<close>

definition voteInvalidReason :: "body \<Rightarrow> int \<Rightarrow> int \<Rightarrow> string option" where
  "voteInvalidReason body height hAct =
     (if height < hAct then None
      else if \<not> truthyStr (jget body ''semantic_check'') then Some ''missing_semantic_check''
      else if jget body ''verdict'' = Some (JStr ''fail'') \<and> \<not> truthyStr (jget body ''failreason'')
        then Some ''missing_failreason''
      else None)"

definition sameSide :: "string list list \<Rightarrow> string \<Rightarrow> string \<Rightarrow> bool" where
  "sameSide rosterGroups a b =
     (if a = '''' \<or> b = '''' then False
      else if a = b then True
      else list_ex (\<lambda>group. a \<in> set group \<and> b \<in> set group) rosterGroups)"

fun roster_items :: "json list \<Rightarrow> string list list" where
  "roster_items [] = []"
| "roster_items (JArr xs # gs) = str_items xs # roster_items gs"
| "roster_items (_ # gs) = roster_items gs"

definition rosterGroupsFor :: "json option \<Rightarrow> string list list" where
  "rosterGroupsFor rosterBody =
     (if \<not> is_object rosterBody then []
      else roster_items
        (case jopt rosterBody ''groups'' of
           Some (JArr raw) \<Rightarrow> raw
         | _ \<Rightarrow> (case rosterBody of Some (JArr raw) \<Rightarrow> raw | _ \<Rightarrow> [])))"

section \<open>The pre-pass\<close>

record vote_ctx =
  vc_knownTargets :: "string list"
  vc_submissionAuthor :: "(string, string) jsmap"
  vc_rootAuthor :: string
  vc_rosterGroups :: "string list list"
  vc_hAct :: int
  vc_hAct2 :: "int option"

definition vote_key :: "string \<Rightarrow> string \<Rightarrow> string" where
  "vote_key target voter = target @ '' '' @ voter"

definition toVoteRecord :: "chain_event \<Rightarrow> vote_record" where
  "toVoteRecord vote = \<lparr>vr_bot = ev_author vote, vr_pinId = ev_pinId vote, vr_body = ev_body vote,
     vr_height = ev_height vote, vr_timestampMs = ev_timestampMs vote\<rparr>"

text \<open>Why a vote does not count: \<open>None\<close> if it does; the roster filter waits for H_ACT2.\<close>

definition voteRejection :: "vote_ctx \<Rightarrow> chain_event \<Rightarrow> string option" where
  "voteRejection ctx vote =
     (let target = body_str vote ''targetid'' in
      case voteInvalidReason (ev_body vote) (ev_height vote) (vc_hAct ctx) of
        Some reason \<Rightarrow> Some reason
      | None \<Rightarrow>
          (if \<not> below_gate (ev_height vote) (vc_hAct2 ctx) \<and> vc_rosterGroups ctx \<noteq> [] \<and>
              (sameSide (vc_rosterGroups ctx) (ev_author vote) (jget_or (vc_submissionAuthor ctx) target '''') \<or>
               sameSide (vc_rosterGroups ctx) (ev_author vote) (vc_rootAuthor ctx))
           then Some ''same_side_roster'' else None))"

type_synonym prepass_state = "ignored \<times> (string, vote_record) jsmap"

definition prepass_step :: "vote_ctx \<Rightarrow> prepass_state \<Rightarrow> chain_event \<Rightarrow> prepass_state" where
  "prepass_step ctx st vote =
     (case st of (ignoredEvents, lastVotes) \<Rightarrow>
        let target = body_str vote ''targetid'' in
        if target = '''' \<or> target \<notin> set (vc_knownTargets ctx) then (ignoredEvents, lastVotes)
        else (case voteRejection ctx vote of
                Some reason \<Rightarrow> (ignoredEvents @ [(ev_pinId vote, reason)], lastVotes)
              | None \<Rightarrow> (ignoredEvents, jset (vote_key target (ev_author vote)) (toVoteRecord vote) lastVotes)))"

definition votePrepass :: "vote_ctx \<Rightarrow> chain_event list \<Rightarrow> prepass_state" where
  "votePrepass ctx votes = foldl (prepass_step ctx) ([], []) votes"

definition vr_target :: "vote_record \<Rightarrow> string" where
  "vr_target v = asStr (jget (vr_body v) ''targetid'') ''''"

definition votesByTargetOf :: "(string, vote_record) jsmap \<Rightarrow> (string, vote_record list) jsmap" where
  "votesByTargetOf lastVotes = group_on vr_target (map snd lastVotes)"

definition lastVoteByPinOf :: "(string, vote_record) jsmap \<Rightarrow> (string, vote_record) jsmap" where
  "lastVoteByPinOf lastVotes = foldl (\<lambda>m v. jset (vr_pinId v) v m) [] (map snd lastVotes)"

definition is_pass :: "vote_record \<Rightarrow> bool" where
  "is_pass v \<longleftrightarrow> jget (vr_body v) ''verdict'' = Some (JStr ''pass'')"

definition is_fail :: "vote_record \<Rightarrow> bool" where
  "is_fail v \<longleftrightarrow> jget (vr_body v) ''verdict'' = Some (JStr ''fail'')"

lemma pass_not_fail [simp]: "is_pass v \<Longrightarrow> \<not> is_fail v"
  by (simp add: is_pass_def is_fail_def)

section \<open>Which votes act\<close>

definition vote_counts :: "vote_ctx \<Rightarrow> chain_event \<Rightarrow> bool" where
  "vote_counts ctx vote \<longleftrightarrow>
     body_str vote ''targetid'' \<noteq> '''' \<and> body_str vote ''targetid'' \<in> set (vc_knownTargets ctx) \<and>
     voteRejection ctx vote = None"

definition event_vote_key :: "chain_event \<Rightarrow> string" where
  "event_vote_key vote = vote_key (body_str vote ''targetid'') (ev_author vote)"

lemma prepass_step_lastVotes:
  "snd (prepass_step ctx st vote) =
     (if vote_counts ctx vote then jset (event_vote_key vote) (toVoteRecord vote) (snd st) else snd st)"
  by (cases st) (auto simp: prepass_step_def vote_counts_def event_vote_key_def Let_def split: option.splits)

lemma prepass_lastVotes:
  "jget (snd (foldl (prepass_step ctx) st votes)) k =
     (case filter (\<lambda>v. vote_counts ctx v \<and> event_vote_key v = k) votes of
        [] \<Rightarrow> jget (snd st) k
      | v # vs \<Rightarrow> Some (toVoteRecord (last (v # vs))))"
  by (induction votes arbitrary: st) (auto simp: prepass_step_lastVotes split: list.splits)

lemma votePrepass_lookup:
  "jget (snd (votePrepass ctx votes)) k =
     (case filter (\<lambda>v. vote_counts ctx v \<and> event_vote_key v = k) votes of
        [] \<Rightarrow> None
      | v # vs \<Rightarrow> Some (toVoteRecord (last (v # vs))))"
  unfolding votePrepass_def prepass_lastVotes by (simp split: list.split)

lemma prepass_entries:
  assumes "\<forall>(k, v) \<in> set (snd st). \<exists>e \<in> set seen. vote_counts ctx e \<and> v = toVoteRecord e \<and> k = event_vote_key e"
    and "distinct (map fst (snd st))"
  shows "(\<forall>(k, v) \<in> set (snd (foldl (prepass_step ctx) st votes)).
            \<exists>e \<in> set (seen @ votes). vote_counts ctx e \<and> v = toVoteRecord e \<and> k = event_vote_key e) \<and>
         distinct (map fst (snd (foldl (prepass_step ctx) st votes)))"
  using assms
proof (induction votes arbitrary: st seen)
  case (Cons e votes)
  have 1: "\<forall>(k, v) \<in> set (snd (prepass_step ctx st e)).
     \<exists>e' \<in> set (seen @ [e]). vote_counts ctx e' \<and> v = toVoteRecord e' \<and> k = event_vote_key e'"
  proof (cases "vote_counts ctx e")
    case True
    then show ?thesis
      using Cons.prems(1) by (auto simp: prepass_step_lastVotes dest!: in_set_jsetD)
  next
    case False
    then show ?thesis using Cons.prems(1) by (auto simp: prepass_step_lastVotes)
  qed
  have 2: "distinct (map fst (snd (prepass_step ctx st e)))"
    using Cons.prems(2) by (auto simp: prepass_step_lastVotes intro: distinct_jset)
  show ?case using Cons.IH [OF 1 2] by simp
qed auto

lemma votePrepass_entries:
  assumes "(k, v) \<in> set (snd (votePrepass ctx votes))"
  shows "\<exists>e \<in> set votes. vote_counts ctx e \<and> v = toVoteRecord e \<and> k = event_vote_key e"
  using prepass_entries [of "([], [])" "[]" ctx votes] assms by (auto simp: votePrepass_def)

lemma votePrepass_distinct [invs]: "distinct (map fst (snd (votePrepass ctx votes)))"
  using prepass_entries [of "([], [])" "[]" ctx votes] by (simp add: votePrepass_def)

lemma vr_target_toVoteRecord [simp]: "vr_target (toVoteRecord e) = body_str e ''targetid''"
  by (simp add: vr_target_def toVoteRecord_def body_str_def body_get_def)

lemma distinct_map_filter_key:
  assumes "distinct (map fst m)" "\<forall>(k, v) \<in> set m. P v \<longrightarrow> k = g (h v)"
  shows "distinct (map h (filter P (map snd m)))"
  using assms by (induction m) (force simp: image_iff)+

text \<open>Each bot has at most one acting vote per target.\<close>

lemma one_vote_per_bot:
  "distinct (map vr_bot (jget_or (votesByTargetOf (snd (votePrepass ctx votes))) target []))"
proof -
  have "distinct (map vr_bot (filter (\<lambda>v. vr_target v = target) (map snd (snd (votePrepass ctx votes)))))"
  proof (rule distinct_map_filter_key [where g = "vote_key target"])
    show "\<forall>(k, v) \<in> set (snd (votePrepass ctx votes)). vr_target v = target \<longrightarrow> k = vote_key target (vr_bot v)"
      using votePrepass_entries [of _ _ ctx votes]
      by (fastforce simp: event_vote_key_def toVoteRecord_def vr_target_def body_str_def body_get_def)
  qed (rule votePrepass_distinct)
  then show ?thesis by (simp add: votesByTargetOf_def)
qed

text \<open>Acting votes are among the pool's verify pins, and keyed by their own pin.\<close>

lemma lastVoteByPin_foldl:
  "jget (foldl (\<lambda>m v. jset (vr_pinId v) v m) m vs) p = Some v \<Longrightarrow>
     jget m p = Some v \<or> (v \<in> set vs \<and> vr_pinId v = p)"
proof (induction vs arbitrary: m)
  case (Cons a vs)
  have "jget (jset (vr_pinId a) a m) p = Some v \<or> v \<in> set vs \<and> vr_pinId v = p"
    using Cons.IH [of "jset (vr_pinId a) a m"] Cons.prems by simp
  then show ?case by (auto split: if_splits)
qed simp

lemma lastVoteByPinOf_SomeD:
  "jget (lastVoteByPinOf lv) p = Some v \<Longrightarrow> v \<in> snd ` set lv \<and> vr_pinId v = p"
  using lastVoteByPin_foldl [of "[]" "map snd lv" p v] by (simp add: lastVoteByPinOf_def)

end
