(* ===== verification/Steps.thy ===== *)
theory Steps
  imports Prelude
begin

text \<open>
  Loops as step systems. The code walks a sorted list of chain events over a mutable state; the
  models are \<open>foldl step init events\<close>. \<open>reach\<close> is the state machine of such a loop, and the
  locale \<open>stepwise\<close> is the contract between a step function and an invariant; each walk of the
  development interprets it.
\<close>

inductive reach :: "('s \<Rightarrow> 'e \<Rightarrow> 's) \<Rightarrow> ('e \<Rightarrow> bool) \<Rightarrow> 's \<Rightarrow> 's \<Rightarrow> bool" for step ok s0 where
  reach_init: "reach step ok s0 s0"
| reach_next: "reach step ok s0 s \<Longrightarrow> ok e \<Longrightarrow> reach step ok s0 (step s e)"

inductive_cases reachE: "reach step ok s0 s"

lemma reach_trans: "reach step ok b c \<Longrightarrow> reach step ok a b \<Longrightarrow> reach step ok a c"
  by (induction rule: reach.induct) (auto intro: reach_next)

lemma reach_foldl: "(\<forall>e \<in> set es. ok e) \<Longrightarrow> reach step ok s (foldl step s es)"
proof (induction es arbitrary: s)
  case (Cons e es)
  have "reach step ok s (step s e)" using Cons.prems by (auto intro: reach_init reach_next)
  then show ?case using Cons reach_trans by fastforce
qed (simp add: reach_init)

locale stepwise =
  fixes step :: "'s \<Rightarrow> 'e \<Rightarrow> 's" and ok :: "'e \<Rightarrow> bool" and inv :: "'s \<Rightarrow> bool"
  assumes keeps: "inv s \<Longrightarrow> ok e \<Longrightarrow> inv (step s e)"
begin

lemma reach_inv: "reach step ok s0 s \<Longrightarrow> inv s0 \<Longrightarrow> inv s"
  by (induction rule: reach.induct) (auto intro: keeps)

lemma run_inv: "inv s \<Longrightarrow> (\<forall>e \<in> set es. ok e) \<Longrightarrow> inv (foldl step s es)"
  by (rule reach_inv [OF reach_foldl])

end

text \<open>A loop that only changes what an observation does not see, or moves it along an order.\<close>

lemma foldl_invariant: "P a \<Longrightarrow> (\<And>x y. P x \<Longrightarrow> y \<in> set ys \<Longrightarrow> P (f x y)) \<Longrightarrow> P (foldl f a ys)"
  by (induction ys arbitrary: a) auto

lemma foldl_const: "(\<And>x y. y \<in> set ys \<Longrightarrow> g (f x y) = g x) \<Longrightarrow> g (foldl f a ys) = g a"
  by (induction ys arbitrary: a) auto

lemma foldl_filter: "foldl (\<lambda>a x. if P x then f a x else a) a xs = foldl f a (filter P xs)"
  by (induction xs arbitrary: a) auto

end
