(* ===== verification/TreeWalk.thy ===== *)
theory TreeWalk
  imports Votes Steps
begin

text \<open>
  Tree mode, the unified ordered walk of \<open>replayMetaTask\<close>: claims, releases, submissions and
  acting votes in chain order, over the lock of each node, the claim cycles, the pass voters and
  the verified set; then the expiry pass that a clock enables. One function per branch of the
  loop body, in the order of the code. The invariant of the walk follows: cycles are keyed by
  node and claim, their submissions share one author, and a verified pin of a node's cycle has a
  quorum of distinct voters, none of them its author or the publisher.
\<close>

record walk_ctx =
  wc_quorum :: rat
  wc_rootAuthor :: string
  wc_hAct2 :: "int option"
  wc_lastVoteByPin :: "(string, vote_record) jsmap"
  wc_submissionAuthor :: "(string, string) jsmap"

record walk_state =
  wk_holders :: "(string, holder) jsmap"
  wk_firstClaimOrder :: "(string, order_key) jsmap"
  wk_effectiveClaims :: "(string \<times> string) list" \<comment> \<open>node and author\<close>
  wk_cycles :: "(string, cycle_record) jsmap"
  wk_verifiedPins :: "string list"
  wk_passVoters :: "(string, (string, string) jsmap) jsmap"
  wk_liveTargets :: "(string, string) jsmap"
  wk_ignored :: ignored

definition cycle_key :: "string \<Rightarrow> string \<Rightarrow> string" where
  "cycle_key node claimId = node @ '' '' @ claimId"

section \<open>The branches of the loop body\<close>

definition step_claim :: "walk_state \<Rightarrow> chain_event \<Rightarrow> walk_state" where
  "step_claim st pin =
     (let node = body_str pin ''node'' in
      if node \<noteq> '''' \<and> \<not> jhas (wk_holders st) node then
        st\<lparr>wk_holders := jset node \<lparr>ho_pinId = ev_pinId pin, ho_claimant = ev_author pin,
              ho_sinceMs = ev_timestampMs pin\<rparr> (wk_holders st),
           wk_firstClaimOrder := (if jhas (wk_firstClaimOrder st) node then wk_firstClaimOrder st
              else jset node (orderKey pin) (wk_firstClaimOrder st)),
           wk_effectiveClaims := wk_effectiveClaims st @ [(node, ev_author pin)]\<rparr>
      else st)"

definition drop_lock :: "string \<Rightarrow> walk_state \<Rightarrow> walk_state" where
  "drop_lock node st = st\<lparr>wk_holders := jdel node (wk_holders st), wk_passVoters := jdel node (wk_passVoters st)\<rparr>"

definition step_release :: "walk_state \<Rightarrow> chain_event \<Rightarrow> walk_state" where
  "step_release st pin =
     (let node = body_str pin ''node'' in
      case jget (wk_holders st) node of
        None \<Rightarrow> st
      | Some holder \<Rightarrow> if body_str pin ''claimid'' = ho_pinId holder then drop_lock node st else st)"

definition truthy_str_field :: "chain_event \<Rightarrow> string \<Rightarrow> string option" where
  "truthy_str_field pin k =
     (case body_get pin k of Some (JStr s) \<Rightarrow> if s \<noteq> '''' then Some s else None | _ \<Rightarrow> None)"

definition toCycleSubmission :: "chain_event \<Rightarrow> cycle_submission" where
  "toCycleSubmission pin =
     \<lparr>cs_pinId = ev_pinId pin, cs_author = ev_author pin, cs_atMs = ev_timestampMs pin,
      cs_height = ev_height pin, cs_supersedeid = truthy_str_field pin ''supersedeid''\<rparr>"

definition toEffective :: "cycle_submission \<Rightarrow> effective_submission" where
  "toEffective r = \<lparr>ef_pinId = cs_pinId r, ef_author = cs_author r, ef_atMs = cs_atMs r\<rparr>"

text \<open>The supersede predicates as the code evaluates them.\<close>

definition chainOk :: "int option \<Rightarrow> cycle_record \<Rightarrow> effective_submission \<Rightarrow> cycle_submission \<Rightarrow> string \<Rightarrow> bool" where
  "chainOk hAct2 cycle effective record sid =
     (case find (\<lambda>s. cs_pinId s = sid) (cy_submissions cycle) of
        None \<Rightarrow> False
      | Some target \<Rightarrow>
          cs_pinId target \<noteq> cs_pinId record \<and>
          cs_pinId target = ef_pinId effective \<and>
          cs_author target = cs_author record \<and>
          \<not> below_gate (cs_height record) hAct2 \<and>
          \<not> below_gate (cs_height target) hAct2 \<and>
          sid \<notin> set (cy_superseded cycle))"

definition anchor_submission :: "string \<Rightarrow> string \<Rightarrow> cycle_record \<Rightarrow> cycle_submission \<Rightarrow> walk_state \<Rightarrow> walk_state" where
  "anchor_submission key node cycle record st =
     st\<lparr>wk_cycles := jset key (cycle\<lparr>cy_submissions := cy_submissions cycle @ [record],
                                     cy_effective := Some (toEffective record)\<rparr>) (wk_cycles st),
        wk_liveTargets := jset (cs_pinId record) node (wk_liveTargets st)\<rparr>"

text \<open>What happens to a submission of the held cycle: it anchors it, replaces its tip, or is ignored.\<close>

definition admit_submission ::
  "int option \<Rightarrow> string \<Rightarrow> string \<Rightarrow> cycle_record \<Rightarrow> cycle_submission \<Rightarrow> walk_state \<Rightarrow> walk_state" where
  "admit_submission hAct2 key node cycle record st =
     (case cy_effective cycle of
        None \<Rightarrow> anchor_submission key node cycle record st
      | Some effective \<Rightarrow>
         (case cs_supersedeid record of
            None \<Rightarrow> st\<lparr>wk_ignored := wk_ignored st @ [(cs_pinId record, ''duplicate_without_supersede'')]\<rparr>
          | Some sid \<Rightarrow>
              if chainOk hAct2 cycle effective record sid
              then anchor_submission key node
                     (cycle\<lparr>cy_superseded := set_add sid (cy_superseded cycle)\<rparr>) record st
              else st\<lparr>wk_ignored := wk_ignored st @ [(cs_pinId record, ''supersede_predicate_failed'')]\<rparr>))"

definition step_submission :: "walk_ctx \<Rightarrow> walk_state \<Rightarrow> chain_event \<Rightarrow> walk_state" where
  "step_submission ctx st pin =
     (let node = body_str pin ''node''; claimId = body_str pin ''claimid'' in
      if node = [] \<or> claimId = [] then st
      else (case jget (wk_holders st) node of
        None \<Rightarrow> st
      | Some holder \<Rightarrow>
         if ho_pinId holder \<noteq> claimId then st
         else
           (let key = cycle_key node claimId;
                fresh = \<lparr>cy_node = node, cy_claimId = claimId, cy_claimant = ho_claimant holder,
                   cy_submissions = [], cy_effective = None, cy_superseded = [], cy_outcome = Open\<rparr>;
                cycle = jget_or (wk_cycles st) key fresh
            in admit_submission (wc_hAct2 ctx) key node cycle (toCycleSubmission pin)
                 (st\<lparr>wk_cycles := jset key cycle (wk_cycles st)\<rparr>))))"

definition step_fail :: "string \<Rightarrow> string \<Rightarrow> string \<Rightarrow> cycle_record \<Rightarrow> walk_state \<Rightarrow> walk_state" where
  "step_fail key node target cycle st =
     drop_lock node
       (st\<lparr>wk_cycles := jset key (cycle\<lparr>cy_outcome := FailRejected\<rparr>) (wk_cycles st),
           wk_verifiedPins := removeAll target (wk_verifiedPins st)\<rparr>)"

definition add_voter :: "vote_record \<Rightarrow> (string, string) jsmap \<Rightarrow> (string, string) jsmap" where
  "add_voter vote voters = (if jhas voters (vr_bot vote) then voters else jset (vr_bot vote) (vr_pinId vote) voters)"

definition step_pass ::
  "walk_ctx \<Rightarrow> string \<Rightarrow> string \<Rightarrow> string \<Rightarrow> cycle_record \<Rightarrow> vote_record \<Rightarrow> walk_state \<Rightarrow> walk_state" where
  "step_pass ctx key node target cycle vote st =
     (if vr_bot vote = jget_or (wc_submissionAuthor ctx) target '''' \<or> vr_bot vote = wc_rootAuthor ctx then st
      else
        (let voters = add_voter vote (jget_or (wk_passVoters st) node []);
             st = st\<lparr>wk_passVoters := jset node voters (wk_passVoters st)\<rparr>
         in if of_nat (length voters) \<ge> wc_quorum ctx
            then st\<lparr>wk_cycles := jset key (cycle\<lparr>cy_outcome := Verified\<rparr>) (wk_cycles st),
                    wk_verifiedPins := set_add target (wk_verifiedPins st)\<rparr>
            else st))"

definition step_verify :: "walk_ctx \<Rightarrow> walk_state \<Rightarrow> chain_event \<Rightarrow> walk_state" where
  "step_verify ctx st pin =
     (case jget (wc_lastVoteByPin ctx) (ev_pinId pin) of
        None \<Rightarrow> st
      | Some vote \<Rightarrow>
         (let target = vr_target vote in
          case jget (wk_liveTargets st) target of
            None \<Rightarrow> st
          | Some node \<Rightarrow>
             (let key = cycle_key node (case jget (wk_holders st) node of None \<Rightarrow> '''' | Some h \<Rightarrow> ho_pinId h) in
              case jget (wk_cycles st) key of
                None \<Rightarrow> st
              | Some cycle \<Rightarrow>
                 if map_option ef_pinId (cy_effective cycle) \<noteq> Some target then st
                 else if is_fail vote then step_fail key node target cycle st
                 else if is_pass vote then step_pass ctx key node target cycle vote st
                 else st)))"

definition walk_step :: "walk_ctx \<Rightarrow> walk_state \<Rightarrow> chain_event \<Rightarrow> walk_state" where
  "walk_step ctx st pin =
     (if ev_path pin = ''claim'' then step_claim st pin
      else if ev_path pin = ''release'' then step_release st pin
      else if ev_path pin = ''submission'' then step_submission ctx st pin
      else step_verify ctx st pin)"

definition walk_init :: "ignored \<Rightarrow> walk_state" where
  "walk_init ign = \<lparr>wk_holders = [], wk_firstClaimOrder = [], wk_effectiveClaims = [], wk_cycles = [],
     wk_verifiedPins = [], wk_passVoters = [], wk_liveTargets = [], wk_ignored = ign\<rparr>"

definition treeTimeline :: "by_path \<Rightarrow> task_event_set \<Rightarrow> (string, vote_record) jsmap \<Rightarrow> chain_event list" where
  "treeTimeline byPath ts lastVoteByPin =
     (let mine = (\<lambda>p. body_str p ''taskid'' = ev_pinId (ts_rootPin ts));
          claims = filter mine (pathList byPath ''claim'');
          releases = filter mine (pathList byPath ''release'');
          actingVotes = filter (\<lambda>p. jhas lastVoteByPin (ev_pinId p)) (pathList byPath ''verify'')
      in sort_key orderKey (claims @ releases @ ts_submissions ts @ actingVotes))"

definition treeWalk :: "walk_ctx \<Rightarrow> walk_state \<Rightarrow> chain_event list \<Rightarrow> walk_state" where
  "treeWalk ctx st timeline = foldl (walk_step ctx) st timeline"

text \<open>A node's current cycle is its most recent one in chain order.\<close>

definition activeCycleByNodeOf :: "(string, cycle_record) jsmap \<Rightarrow> (string, cycle_record) jsmap" where
  "activeCycleByNodeOf cycles = foldl (\<lambda>m c. jset (cy_node c) c m) [] (map snd cycles)"

section \<open>Expiry pass\<close>

text \<open>Whether a held node reopens at \<open>now\<close>: claim TTL with no effective submission, review window
  with one that still lacks quorum. Hours are published numbers.\<close>

definition holder_expired ::
  "rat \<Rightarrow> rat \<Rightarrow> rat \<Rightarrow> walk_state \<Rightarrow> int \<Rightarrow> string \<Rightarrow> holder \<Rightarrow> bool" where
  "holder_expired quorum ttlHours windowHours st now node holder =
     (case (case jget (wk_cycles st) (cycle_key node (ho_pinId holder)) of
              None \<Rightarrow> None | Some c \<Rightarrow> cy_effective c) of
        None \<Rightarrow> ttlHours > 0 \<and> of_int (now - ho_sinceMs holder) > ttlHours * 3600000
      | Some effective \<Rightarrow>
          windowHours > 0 \<and>
          of_nat (length (jget_or (wk_passVoters st) node [])) < quorum \<and>
          of_int (now - ef_atMs effective) > windowHours * 3600000)"

definition expiryPass :: "rat \<Rightarrow> rat \<Rightarrow> rat \<Rightarrow> int option \<Rightarrow> walk_state \<Rightarrow> walk_state" where
  "expiryPass quorum ttlHours windowHours now st =
     (case now of
        None \<Rightarrow> st
      | Some t \<Rightarrow>
          foldl (\<lambda>s (node, holder).
              if holder_expired quorum ttlHours windowHours s t node holder then drop_lock node s else s)
            st (wk_holders st))"

section \<open>The invariant of the walk\<close>

text \<open>The bots whose last valid vote is a pass that supports the cycle: on one of its submissions,
  and by neither its author nor the publisher.\<close>

definition supports :: "walk_ctx \<Rightarrow> cycle_record \<Rightarrow> vote_record \<Rightarrow> bool" where
  "supports ctx cycle vote \<longleftrightarrow>
     is_pass vote \<and> vr_target vote \<in> cs_pinId ` set (cy_submissions cycle) \<and>
     vr_bot vote \<noteq> jget_or (wc_submissionAuthor ctx) (vr_target vote) '''' \<and> vr_bot vote \<noteq> wc_rootAuthor ctx"

definition supporters :: "walk_ctx \<Rightarrow> cycle_record \<Rightarrow> string list" where
  "supporters ctx cycle = remdups (map vr_bot (filter (supports ctx cycle) (map snd (wc_lastVoteByPin ctx))))"

definition voters_ok :: "walk_ctx \<Rightarrow> cycle_record \<Rightarrow> (string, string) jsmap \<Rightarrow> bool" where
  "voters_ok ctx cycle voters \<longleftrightarrow> distinct (map fst voters) \<and> fst ` set voters \<subseteq> set (supporters ctx cycle)"

text \<open>A cycle is a chain of submissions by one author: all but the last are superseded, and the
  last one is the effective one. A verified cycle has a quorum of supporters.\<close>

definition cycle_ok :: "cycle_record \<Rightarrow> bool" where
  "cycle_ok cycle \<longleftrightarrow>
     cy_effective cycle = (if cy_submissions cycle = [] then None else Some (toEffective (last (cy_submissions cycle)))) \<and>
     cy_superseded cycle = map cs_pinId (butlast (cy_submissions cycle)) \<and>
     (\<forall>s \<in> set (cy_submissions cycle). cs_author s = cs_author (hd (cy_submissions cycle)))"

definition certified :: "walk_ctx \<Rightarrow> cycle_record \<Rightarrow> bool" where
  "certified ctx cycle \<longleftrightarrow> wc_quorum ctx \<le> of_nat (length (supporters ctx cycle))"

definition space_free :: "string \<Rightarrow> bool" where
  "space_free s \<longleftrightarrow> s \<noteq> '''' \<and> CHR '' '' \<notin> set s"

definition keyed_by_claim :: "string \<Rightarrow> bool" where
  "keyed_by_claim key \<longleftrightarrow> (\<exists>node claimId. key = cycle_key node claimId \<and> space_free claimId)"

definition walk_inv :: "walk_ctx \<Rightarrow> walk_state \<Rightarrow> bool" where
  "walk_inv ctx st \<longleftrightarrow>
     (\<forall>pin vote. jget (wc_lastVoteByPin ctx) pin = Some vote \<longrightarrow> vr_pinId vote = pin) \<and>
     (\<forall>node voters. jget (wk_passVoters st) node = Some voters \<longrightarrow>
        (\<exists>h cycle. jget (wk_holders st) node = Some h \<and>
           jget (wk_cycles st) (cycle_key node (ho_pinId h)) = Some cycle \<and> voters_ok ctx cycle voters)) \<and>
     (\<forall>node h. jget (wk_holders st) node = Some h \<longrightarrow> space_free (ho_pinId h)) \<and>
     (\<forall>key cycle. jget (wk_cycles st) key = Some cycle \<longrightarrow>
        keyed_by_claim key \<and> cycle_ok cycle \<and> (cy_outcome cycle = Verified \<longrightarrow> certified ctx cycle))"

lemma supporters_mono:
  "cs_pinId ` set (cy_submissions c) \<subseteq> cs_pinId ` set (cy_submissions d) \<Longrightarrow>
   set (supporters ctx c) \<subseteq> set (supporters ctx d)"
proof -
  assume "cs_pinId ` set (cy_submissions c) \<subseteq> cs_pinId ` set (cy_submissions d)"
  then have "supports ctx c v \<Longrightarrow> supports ctx d v" for v unfolding supports_def by blast
  then show ?thesis unfolding supporters_def by (auto intro!: imageI)
qed

lemma length_supporters: "length (supporters ctx c) = card (set (supporters ctx c))"
  by (simp add: supporters_def distinct_card [symmetric] del: set_remdups)

lemma certified_mono:
  assumes "cs_pinId ` set (cy_submissions c) \<subseteq> cs_pinId ` set (cy_submissions d)" "certified ctx c"
  shows "certified ctx d"
proof -
  have "length (supporters ctx c) \<le> length (supporters ctx d)"
    using card_mono [OF _ supporters_mono [OF assms(1)], of ctx] by (simp add: length_supporters)
  then have "(of_nat (length (supporters ctx c)) :: rat) \<le> of_nat (length (supporters ctx d))" by simp
  then show ?thesis using assms(2) unfolding certified_def by linarith
qed

lemma voters_ok_mono:
  "cs_pinId ` set (cy_submissions c) \<subseteq> cs_pinId ` set (cy_submissions d) \<Longrightarrow> voters_ok ctx c v \<Longrightarrow> voters_ok ctx d v"
  using supporters_mono unfolding voters_ok_def by blast

lemma voters_certify:
  assumes "voters_ok ctx c voters" "wc_quorum ctx \<le> of_nat (length voters)"
  shows "certified ctx c"
proof -
  have "length voters = card (fst ` set voters)"
    using assms(1) by (metis distinct_card length_map list.set_map voters_ok_def)
  also have "\<dots> \<le> card (set (supporters ctx c))"
    using assms(1) by (intro card_mono) (auto simp: voters_ok_def)
  also have "\<dots> = length (supporters ctx c)" by (simp add: length_supporters)
  finally have "(of_nat (length voters) :: rat) \<le> of_nat (length (supporters ctx c))" by simp
  then show ?thesis using assms(2) unfolding certified_def by linarith
qed

text \<open>A cycle's key cannot be the key of a node without a lock.\<close>

lemma keyed_not_unlocked: "keyed_by_claim (cycle_key node '''') \<Longrightarrow> False"
proof -
  assume "keyed_by_claim (cycle_key node '''')"
  then obtain n c where e: "node @ '' '' = n @ '' '' @ c" and c: "space_free c"
    by (auto simp: keyed_by_claim_def cycle_key_def)
  have "last (node @ '' '') = last (n @ '' '' @ c)" using e by simp
  then have "last c = CHR '' ''" using c by (simp add: space_free_def)
  then show False using c last_in_set [of c] by (simp add: space_free_def)
qed

section \<open>Every step keeps the invariant\<close>

lemma walk_invI:
  assumes "walk_inv ctx st"
    and "\<And>node voters. jget (wk_passVoters st') node = Some voters \<Longrightarrow>
        \<exists>h cycle. jget (wk_holders st') node = Some h \<and>
           jget (wk_cycles st') (cycle_key node (ho_pinId h)) = Some cycle \<and> voters_ok ctx cycle voters"
    and "\<And>node h. jget (wk_holders st') node = Some h \<Longrightarrow> space_free (ho_pinId h)"
    and "\<And>key cycle. jget (wk_cycles st') key = Some cycle \<Longrightarrow>
        keyed_by_claim key \<and> cycle_ok cycle \<and> (cy_outcome cycle = Verified \<longrightarrow> certified ctx cycle)"
  shows "walk_inv ctx st'"
  using assms unfolding walk_inv_def by blast

lemma walk_inv_votersD:
  "walk_inv ctx st \<Longrightarrow> jget (wk_passVoters st) node = Some voters \<Longrightarrow>
   \<exists>h cycle. jget (wk_holders st) node = Some h \<and>
     jget (wk_cycles st) (cycle_key node (ho_pinId h)) = Some cycle \<and> voters_ok ctx cycle voters"
  unfolding walk_inv_def by blast

lemma walk_inv_holderD: "walk_inv ctx st \<Longrightarrow> jget (wk_holders st) node = Some h \<Longrightarrow> space_free (ho_pinId h)"
  unfolding walk_inv_def by blast

lemma walk_inv_cycleD:
  "walk_inv ctx st \<Longrightarrow> jget (wk_cycles st) key = Some cycle \<Longrightarrow>
   keyed_by_claim key \<and> cycle_ok cycle \<and> (cy_outcome cycle = Verified \<longrightarrow> certified ctx cycle)"
  unfolding walk_inv_def by blast

lemma walk_inv_voteD: "walk_inv ctx st \<Longrightarrow> jget (wc_lastVoteByPin ctx) pin = Some vote \<Longrightarrow> vr_pinId vote = pin"
  unfolding walk_inv_def by blast

lemmas walk_invD = walk_inv_votersD walk_inv_holderD walk_inv_cycleD walk_inv_voteD

text \<open>The invariant reads the locks, the cycles and the voters only.\<close>

lemma walk_inv_cong:
  assumes "walk_inv ctx st" "wk_holders st' = wk_holders st" "wk_cycles st' = wk_cycles st"
    "wk_passVoters st' = wk_passVoters st"
  shows "walk_inv ctx st'"
  using assms unfolding walk_inv_def by simp

lemma walk_inv_drop_lock [invs]:
  assumes "walk_inv ctx st" shows "walk_inv ctx (drop_lock node st)"
proof (rule walk_invI [OF assms])
  fix n voters assume "jget (wk_passVoters (drop_lock node st)) n = Some voters"
  then have "n \<noteq> node" "jget (wk_passVoters st) n = Some voters" by (auto simp: drop_lock_def split: if_splits)
  then show "\<exists>h cycle. jget (wk_holders (drop_lock node st)) n = Some h \<and>
      jget (wk_cycles (drop_lock node st)) (cycle_key n (ho_pinId h)) = Some cycle \<and> voters_ok ctx cycle voters"
    using walk_inv_votersD [OF assms] by (simp add: drop_lock_def)
next
  fix n h assume "jget (wk_holders (drop_lock node st)) n = Some h"
  then show "space_free (ho_pinId h)"
    using walk_inv_holderD [OF assms] by (auto simp: drop_lock_def split: if_splits)
next
  fix key cycle assume "jget (wk_cycles (drop_lock node st)) key = Some cycle"
  then show "keyed_by_claim key \<and> cycle_ok cycle \<and> (cy_outcome cycle = Verified \<longrightarrow> certified ctx cycle)"
    using walk_inv_cycleD [OF assms] by (simp add: drop_lock_def)
qed

text \<open>Replacing a cycle by one with at least its submissions.\<close>

lemma walk_inv_set_cycle:
  assumes "walk_inv ctx st" "keyed_by_claim key" "cycle_ok c'"
    and "cy_outcome c' = Verified \<longrightarrow> certified ctx c'"
    and "\<And>c. jget (wk_cycles st) key = Some c \<Longrightarrow> cs_pinId ` set (cy_submissions c) \<subseteq> cs_pinId ` set (cy_submissions c')"
  shows "walk_inv ctx (st\<lparr>wk_cycles := jset key c' (wk_cycles st)\<rparr>)"
proof (rule walk_invI [OF assms(1)])
  fix n voters assume "jget (wk_passVoters (st\<lparr>wk_cycles := jset key c' (wk_cycles st)\<rparr>)) n = Some voters"
  then have "jget (wk_passVoters st) n = Some voters" by simp
  from walk_inv_votersD [OF assms(1) this]
  obtain h cycle where h: "jget (wk_holders st) n = Some h" "voters_ok ctx cycle voters"
      "jget (wk_cycles st) (cycle_key n (ho_pinId h)) = Some cycle" by blast
  show "\<exists>h cycle. jget (wk_holders (st\<lparr>wk_cycles := jset key c' (wk_cycles st)\<rparr>)) n = Some h \<and>
      jget (wk_cycles (st\<lparr>wk_cycles := jset key c' (wk_cycles st)\<rparr>)) (cycle_key n (ho_pinId h)) = Some cycle \<and>
      voters_ok ctx cycle voters"
  proof (cases "cycle_key n (ho_pinId h) = key")
    case True
    then have "voters_ok ctx c' voters" using voters_ok_mono [OF assms(5) h(2)] h(3) by simp
    then show ?thesis using h(1) True by simp
  next
    case False
    then show ?thesis using h by simp
  qed
next
  fix n h assume "jget (wk_holders (st\<lparr>wk_cycles := jset key c' (wk_cycles st)\<rparr>)) n = Some h"
  then show "space_free (ho_pinId h)" using walk_inv_holderD [OF assms(1)] by simp
next
  fix k cycle assume "jget (wk_cycles (st\<lparr>wk_cycles := jset key c' (wk_cycles st)\<rparr>)) k = Some cycle"
  then show "keyed_by_claim k \<and> cycle_ok cycle \<and> (cy_outcome cycle = Verified \<longrightarrow> certified ctx cycle)"
    using walk_inv_cycleD [OF assms(1)] assms(2-4) by (auto split: if_splits)
qed

lemma walk_inv_claim:
  assumes "walk_inv ctx st" "space_free (ev_pinId pin)" shows "walk_inv ctx (step_claim st pin)"
proof (rule walk_invI [OF assms(1)])
  fix n voters assume "jget (wk_passVoters (step_claim st pin)) n = Some voters"
  then have "jget (wk_passVoters st) n = Some voters" by (simp add: step_claim_def Let_def split: if_splits)
  from walk_inv_votersD [OF assms(1) this]
  show "\<exists>h cycle. jget (wk_holders (step_claim st pin)) n = Some h \<and>
      jget (wk_cycles (step_claim st pin)) (cycle_key n (ho_pinId h)) = Some cycle \<and> voters_ok ctx cycle voters"
    by (auto simp: step_claim_def Let_def jhas_get)
next
  fix n h assume "jget (wk_holders (step_claim st pin)) n = Some h"
  then show "space_free (ho_pinId h)"
    using walk_inv_holderD [OF assms(1)] assms(2) by (auto simp: step_claim_def Let_def split: if_splits)
next
  fix key cycle assume "jget (wk_cycles (step_claim st pin)) key = Some cycle"
  then have "jget (wk_cycles st) key = Some cycle" by (simp add: step_claim_def Let_def split: if_splits)
  then show "keyed_by_claim key \<and> cycle_ok cycle \<and> (cy_outcome cycle = Verified \<longrightarrow> certified ctx cycle)"
    by (rule walk_inv_cycleD [OF assms(1)])
qed

lemma walk_inv_release: "walk_inv ctx st \<Longrightarrow> walk_inv ctx (step_release st pin)"
  by (simp add: step_release_def Let_def walk_inv_drop_lock split: option.splits)

text \<open>The two ways a submission is anchored.\<close>

lemma cycle_ok_append:
  assumes "cycle_ok c" "cy_submissions c = [] \<or> cs_author record = cs_author (last (cy_submissions c))"
  shows "cycle_ok (c\<lparr>cy_superseded := map cs_pinId (cy_submissions c),
           cy_submissions := cy_submissions c @ [record], cy_effective := Some (toEffective record)\<rparr>)"
proof -
  have "cs_author record = cs_author (hd (cy_submissions c))" if "cy_submissions c \<noteq> []"
    using assms that last_in_set unfolding cycle_ok_def by metis
  then have "cs_author s = cs_author (hd (cy_submissions c @ [record]))"
    if "s \<in> set (cy_submissions c @ [record])" for s
    using assms(1) that by (cases "cy_submissions c") (auto simp: cycle_ok_def)
  then show ?thesis unfolding cycle_ok_def by simp
qed

lemma chainOkD:
  assumes "chainOk hAct2 c eff record sid" "cycle_ok c" "cy_effective c = Some eff"
  shows "cy_submissions c \<noteq> [] \<and> cs_author record = cs_author (last (cy_submissions c)) \<and>
    sid = cs_pinId (last (cy_submissions c)) \<and> sid \<notin> set (cy_superseded c)"
proof -
  obtain target where t: "find (\<lambda>s. cs_pinId s = sid) (cy_submissions c) = Some target"
    and p: "cs_pinId target = ef_pinId eff" "cs_author target = cs_author record" "sid \<notin> set (cy_superseded c)"
    using assms(1) by (auto simp: chainOk_def split: option.splits)
  have m: "target \<in> set (cy_submissions c)" "cs_pinId target = sid"
    using t by (auto simp: find_Some_iff)
  have ne: "cy_submissions c \<noteq> []" and eff: "eff = toEffective (last (cy_submissions c))"
    using assms(2,3) by (auto simp: cycle_ok_def split: if_splits)
  have "cs_author target = cs_author (hd (cy_submissions c))" "cs_author (last (cy_submissions c)) = cs_author (hd (cy_submissions c))"
    using assms(2) m(1) last_in_set [OF ne] by (simp_all add: cycle_ok_def)
  then show ?thesis using ne p m eff by (simp add: toEffective_def)
qed

lemma superseded_extend:
  "cycle_ok c \<Longrightarrow> cy_submissions c \<noteq> [] \<Longrightarrow> cs_pinId (last (cy_submissions c)) \<notin> set (cy_superseded c) \<Longrightarrow>
   set_add (cs_pinId (last (cy_submissions c))) (cy_superseded c) = map cs_pinId (cy_submissions c)"
  by (cases "cy_submissions c" rule: rev_cases) (simp_all add: cycle_ok_def set_add_def)

lemma walk_inv_anchor:
  assumes inv: "walk_inv ctx st" and key: "keyed_by_claim key"
    and c: "cycle_ok c" "cy_outcome c = Verified \<longrightarrow> certified ctx c"
    and author: "cy_submissions c = [] \<or> cs_author record = cs_author (last (cy_submissions c))"
    and old: "jget (wk_cycles st) key = Some c"
  shows "walk_inv ctx (anchor_submission key node (c\<lparr>cy_superseded := map cs_pinId (cy_submissions c)\<rparr>) record st)"
proof -
  let ?d = "c\<lparr>cy_superseded := map cs_pinId (cy_submissions c),
              cy_submissions := cy_submissions c @ [record], cy_effective := Some (toEffective record)\<rparr>"
  have "certified ctx ?d" if "certified ctx c" by (rule certified_mono [OF _ that]) auto
  then have "cy_outcome ?d = Verified \<longrightarrow> certified ctx ?d" using c(2) by simp
  from walk_inv_set_cycle [OF inv key cycle_ok_append [OF c(1) author] this]
  have "walk_inv ctx (st\<lparr>wk_cycles := jset key ?d (wk_cycles st)\<rparr>)" using old by auto
  then show ?thesis by (rule walk_inv_cong) (simp_all add: anchor_submission_def)
qed

lemma same_superseded: "cy_superseded c = xs \<Longrightarrow> c\<lparr>cy_superseded := xs\<rparr> = c"
  by auto

lemma walk_inv_admit:
  assumes inv: "walk_inv ctx st" and old: "jget (wk_cycles st) key = Some cycle"
  shows "walk_inv ctx (admit_submission hAct2 key node cycle sub st)"
proof -
  have c: "keyed_by_claim key" "cycle_ok cycle" "cy_outcome cycle = Verified \<longrightarrow> certified ctx cycle"
    using walk_inv_cycleD [OF inv old] by auto
  note anchored = walk_inv_anchor [OF inv c _ old, of sub node]
  show ?thesis
  proof (cases "cy_effective cycle")
    case None
    then have e: "cy_submissions cycle = []" using c(2) by (auto simp: cycle_ok_def split: if_splits)
    moreover have "cy_superseded cycle = map cs_pinId (cy_submissions cycle)" using c(2) e by (simp add: cycle_ok_def)
    ultimately show ?thesis using anchored None by (simp add: admit_submission_def same_superseded)
  next
    case (Some effective)
    show ?thesis
    proof (cases "\<exists>sid. cs_supersedeid sub = Some sid \<and> chainOk hAct2 cycle effective sub sid")
      case True
      then obtain sid where sid: "cs_supersedeid sub = Some sid" "chainOk hAct2 cycle effective sub sid" by blast
      from chainOkD [OF sid(2) c(2) Some] have tip: "cy_submissions cycle \<noteq> []"
          "cs_author sub = cs_author (last (cy_submissions cycle))"
          "sid = cs_pinId (last (cy_submissions cycle))" "sid \<notin> set (cy_superseded cycle)"
        by auto
      then have "set_add sid (cy_superseded cycle) = map cs_pinId (cy_submissions cycle)"
        using superseded_extend [OF c(2) tip(1)] by simp
      then show ?thesis using anchored tip Some sid by (simp add: admit_submission_def)
    next
      case False
      then show ?thesis using Some
        by (auto simp: admit_submission_def split: option.splits intro: walk_inv_cong [OF inv])
    qed
  qed
qed

lemma walk_inv_submission:
  assumes inv: "walk_inv ctx st" shows "walk_inv ctx (step_submission ctx st pin)"
proof -
  let ?node = "body_str pin ''node''" and ?claimId = "body_str pin ''claimid''"
  have "walk_inv ctx (admit_submission (wc_hAct2 ctx) (cycle_key ?node ?claimId) ?node cycle sub
      (st\<lparr>wk_cycles := jset (cycle_key ?node ?claimId) cycle (wk_cycles st)\<rparr>))"
    if h: "jget (wk_holders st) ?node = Some h" "ho_pinId h = ?claimId"
      and cycle: "cycle = jget_or (wk_cycles st) (cycle_key ?node ?claimId)
        \<lparr>cy_node = ?node, cy_claimId = ?claimId, cy_claimant = ho_claimant h, cy_submissions = [],
         cy_effective = None, cy_superseded = [], cy_outcome = Open\<rparr>" for h cycle sub
  proof (rule walk_inv_admit)
    have key: "keyed_by_claim (cycle_key ?node ?claimId)"
      using walk_inv_holderD [OF inv h(1)] h(2) unfolding keyed_by_claim_def by metis
    have "cycle_ok cycle \<and> (cy_outcome cycle = Verified \<longrightarrow> certified ctx cycle)"
      using walk_inv_cycleD [OF inv, of "cycle_key ?node ?claimId"]
      by (cases "jget (wk_cycles st) (cycle_key ?node ?claimId)") (simp_all add: cycle jget_or_def cycle_ok_def)
    then show "walk_inv ctx (st\<lparr>wk_cycles := jset (cycle_key ?node ?claimId) cycle (wk_cycles st)\<rparr>)"
      by (intro walk_inv_set_cycle [OF inv key]) (auto simp: cycle jget_or_def)
  qed simp
  then show ?thesis using inv by (simp add: step_submission_def Let_def split: option.split)
qed

lemma walk_inv_fail:
  assumes "walk_inv ctx st" "jget (wk_cycles st) key = Some cycle"
  shows "walk_inv ctx (step_fail key node target cycle st)"
proof -
  have c: "keyed_by_claim key" "cycle_ok cycle" using walk_inv_cycleD [OF assms] by auto
  have "walk_inv ctx (st\<lparr>wk_cycles := jset key (cycle\<lparr>cy_outcome := FailRejected\<rparr>) (wk_cycles st)\<rparr>)"
    by (rule walk_inv_set_cycle [OF assms(1) c(1)]) (use c(2) assms(2) in \<open>auto simp: cycle_ok_def\<close>)
  then have "walk_inv ctx (st\<lparr>wk_cycles := jset key (cycle\<lparr>cy_outcome := FailRejected\<rparr>) (wk_cycles st),
      wk_verifiedPins := removeAll target (wk_verifiedPins st)\<rparr>)"
    by (rule walk_inv_cong) simp_all
  then show ?thesis unfolding step_fail_def by (rule walk_inv_drop_lock)
qed

text \<open>A pass vote: recorded under the node, and the cycle is verified at the quorum.\<close>

lemma walk_inv_set_voters:
  assumes "walk_inv ctx st" "jget (wk_holders st) node = Some h"
    "jget (wk_cycles st) (cycle_key node (ho_pinId h)) = Some cycle" "voters_ok ctx cycle voters"
  shows "walk_inv ctx (st\<lparr>wk_passVoters := jset node voters (wk_passVoters st)\<rparr>)"
proof (rule walk_invI [OF assms(1)])
  fix n vs assume v: "jget (wk_passVoters (st\<lparr>wk_passVoters := jset node voters (wk_passVoters st)\<rparr>)) n = Some vs"
  show "\<exists>h cycle. jget (wk_holders (st\<lparr>wk_passVoters := jset node voters (wk_passVoters st)\<rparr>)) n = Some h \<and>
      jget (wk_cycles (st\<lparr>wk_passVoters := jset node voters (wk_passVoters st)\<rparr>)) (cycle_key n (ho_pinId h)) = Some cycle \<and>
      voters_ok ctx cycle vs"
  proof (cases "n = node")
    case True
    then show ?thesis using v assms(2-4) by auto
  next
    case False
    then have "jget (wk_passVoters st) n = Some vs" using v by simp
    from walk_inv_votersD [OF assms(1) this] show ?thesis by simp
  qed
next
  fix n h assume "jget (wk_holders (st\<lparr>wk_passVoters := jset node voters (wk_passVoters st)\<rparr>)) n = Some h"
  then show "space_free (ho_pinId h)" using walk_inv_holderD [OF assms(1)] by simp
next
  fix k c assume "jget (wk_cycles (st\<lparr>wk_passVoters := jset node voters (wk_passVoters st)\<rparr>)) k = Some c"
  then show "keyed_by_claim k \<and> cycle_ok c \<and> (cy_outcome c = Verified \<longrightarrow> certified ctx c)"
    using walk_inv_cycleD [OF assms(1)] by simp
qed

lemma walk_inv_pass:
  assumes inv: "walk_inv ctx st" and h: "jget (wk_holders st) node = Some h"
    and old: "jget (wk_cycles st) (cycle_key node (ho_pinId h)) = Some cycle"
    and eff: "map_option ef_pinId (cy_effective cycle) = Some (vr_target vote)"
    and vote: "jget (wc_lastVoteByPin ctx) pin = Some vote" "is_pass vote"
  shows "walk_inv ctx (step_pass ctx (cycle_key node (ho_pinId h)) node (vr_target vote) cycle vote st)"
proof (cases "vr_bot vote = jget_or (wc_submissionAuthor ctx) (vr_target vote) '''' \<or> vr_bot vote = wc_rootAuthor ctx")
  case True
  then show ?thesis using inv by (simp add: step_pass_def)
next
  case False
  have c: "keyed_by_claim (cycle_key node (ho_pinId h))" "cycle_ok cycle"
    using walk_inv_cycleD [OF inv old] by auto
  define old_voters where "old_voters = jget_or (wk_passVoters st) node []"
  define voters where "voters = add_voter vote old_voters"
  have "cy_effective cycle =
      (if cy_submissions cycle = [] then None else Some (toEffective (last (cy_submissions cycle))))"
    using c(2) unfolding cycle_ok_def by blast
  then have "cy_submissions cycle \<noteq> []" "vr_target vote = cs_pinId (last (cy_submissions cycle))"
    using eff by (auto simp: toEffective_def split: if_splits)
  then have "vr_target vote \<in> cs_pinId ` set (cy_submissions cycle)" by simp
  then have "supports ctx cycle vote" using False vote(2) by (simp add: supports_def)
  moreover have "vote \<in> snd ` set (wc_lastVoteByPin ctx)" using vote(1) by (force dest: map_of_SomeD)
  ultimately have bot: "vr_bot vote \<in> set (supporters ctx cycle)" by (auto simp: supporters_def)
  have "voters_ok ctx cycle old_voters"
  proof (cases "jget (wk_passVoters st) node")
    case (Some vs)
    from walk_inv_votersD [OF inv Some] show ?thesis using h old Some by (auto simp: old_voters_def jget_or_def)
  qed (simp add: old_voters_def jget_or_def voters_ok_def)
  then have ok: "voters_ok ctx cycle voters"
    using bot by (auto simp: voters_def add_voter_def voters_ok_def keys_jset intro: distinct_jset)
  let ?st = "st\<lparr>wk_passVoters := jset node voters (wk_passVoters st)\<rparr>"
  have st: "walk_inv ctx ?st" by (rule walk_inv_set_voters [OF inv h old ok])
  show ?thesis
  proof (cases "wc_quorum ctx \<le> of_nat (length voters)")
    case True
    have "certified ctx (cycle\<lparr>cy_outcome := Verified\<rparr>)"
      by (rule certified_mono [OF _ voters_certify [OF ok True]]) simp
    then have "walk_inv ctx (?st\<lparr>wk_cycles := jset (cycle_key node (ho_pinId h)) (cycle\<lparr>cy_outcome := Verified\<rparr>) (wk_cycles ?st)\<rparr>)"
      by (intro walk_inv_set_cycle [OF st c(1)]) (use c(2) old in \<open>auto simp: cycle_ok_def\<close>)
    then have "walk_inv ctx (?st\<lparr>wk_cycles := jset (cycle_key node (ho_pinId h)) (cycle\<lparr>cy_outcome := Verified\<rparr>) (wk_cycles ?st),
        wk_verifiedPins := set_add (vr_target vote) (wk_verifiedPins ?st)\<rparr>)"
      by (rule walk_inv_cong) simp_all
    then show ?thesis using False True
      by (simp add: step_pass_def Let_def voters_def old_voters_def)
  next
    case less: False
    then show ?thesis using False st by (simp add: step_pass_def Let_def voters_def old_voters_def)
  qed
qed

lemma walk_inv_verify:
  assumes inv: "walk_inv ctx st" shows "walk_inv ctx (step_verify ctx st pin)"
proof -
  have "walk_inv ctx (if is_fail vote then step_fail key node (vr_target vote) cycle st
      else if is_pass vote then step_pass ctx key node (vr_target vote) cycle vote st else st)"
    if vote: "jget (wc_lastVoteByPin ctx) (ev_pinId pin) = Some vote"
      and key: "key = cycle_key node (case jget (wk_holders st) node of None \<Rightarrow> '''' | Some h \<Rightarrow> ho_pinId h)"
      and cycle: "jget (wk_cycles st) key = Some cycle"
      and eff: "map_option ef_pinId (cy_effective cycle) = Some (vr_target vote)" for vote node key cycle
  proof (cases "jget (wk_holders st) node")
    case None
    then have False using keyed_not_unlocked walk_inv_cycleD [OF inv cycle] key by auto
    then show ?thesis ..
  next
    case (Some h)
    then show ?thesis
      using walk_inv_fail [OF inv cycle] walk_inv_pass [OF inv Some _ eff vote] cycle key inv by auto
  qed
  then show ?thesis
    using inv by (simp add: step_verify_def Let_def split: option.split)
qed

lemma walk_inv_step: "walk_inv ctx st \<Longrightarrow> space_free (ev_pinId pin) \<Longrightarrow> walk_inv ctx (walk_step ctx st pin)"
  by (simp add: walk_step_def walk_inv_claim walk_inv_release walk_inv_submission walk_inv_verify)

interpretation tree_walk: stepwise "walk_step ctx" "\<lambda>pin. space_free (ev_pinId pin)" "walk_inv ctx" for ctx
  by unfold_locales (rule walk_inv_step)

lemma walk_inv_init:
  "(\<And>pin vote. jget (wc_lastVoteByPin ctx) pin = Some vote \<Longrightarrow> vr_pinId vote = pin) \<Longrightarrow> walk_inv ctx (walk_init ign)"
  by (simp add: walk_inv_def walk_init_def)

lemma treeWalk_inv:
  assumes "\<And>pin vote. jget (wc_lastVoteByPin ctx) pin = Some vote \<Longrightarrow> vr_pinId vote = pin"
    and "\<forall>pin \<in> set timeline. space_free (ev_pinId pin)"
  shows "walk_inv ctx (treeWalk ctx (walk_init ign) timeline)"
  unfolding treeWalk_def by (rule tree_walk.run_inv [OF walk_inv_init [OF assms(1)] assms(2)])

lemma activeCycle_in:
  assumes "jget (activeCycleByNodeOf cycles) node = Some cycle"
  shows "cycle \<in> snd ` set cycles \<and> cy_node cycle = node"
proof -
  have gen: "jget (foldl (\<lambda>m c. jset (cy_node c) c m) m cs) node = Some cycle \<Longrightarrow>
      (cycle \<in> set cs \<and> cy_node cycle = node) \<or> jget m node = Some cycle" for m and cs :: "cycle_record list"
  proof (induction cs arbitrary: m)
    case (Cons a cs)
    have "jget (foldl (\<lambda>m c. jset (cy_node c) c m) (jset (cy_node a) a m) cs) node = Some cycle"
      using Cons.prems by simp
    from Cons.IH [OF this] show ?case by (auto split: if_splits)
  qed simp
  have "jget (foldl (\<lambda>m c. jset (cy_node c) c m) [] (map snd cycles)) node = Some cycle"
    using assms by (simp only: activeCycleByNodeOf_def)
  from gen [OF this] show ?thesis by simp
qed

section \<open>Where the submissions of a cycle come from\<close>

text \<open>Every submission of a cycle is the record of a pin with \<open>Q\<close>, and all but the first name the
  one they replace.\<close>

definition subs_inv :: "(cycle_submission \<Rightarrow> bool) \<Rightarrow> walk_state \<Rightarrow> bool" where
  "subs_inv Q st \<longleftrightarrow> distinct (map fst (wk_cycles st)) \<and> (\<forall>key cycle. jget (wk_cycles st) key = Some cycle \<longrightarrow>
     (\<forall>s \<in> set (cy_submissions cycle). Q s) \<and>
     (\<forall>s \<in> set (tl (cy_submissions cycle)). cs_supersedeid s \<noteq> None) \<and>
     (cy_effective cycle = None \<longrightarrow> cy_submissions cycle = []))"

lemma subs_inv_same_cycles: "subs_inv Q st \<Longrightarrow> wk_cycles st' = wk_cycles st \<Longrightarrow> subs_inv Q st'"
  by (simp add: subs_inv_def)

lemma subs_inv_set_cycle:
  assumes "subs_inv Q st" "\<forall>s \<in> set (cy_submissions c). Q s"
    "\<forall>s \<in> set (tl (cy_submissions c)). cs_supersedeid s \<noteq> None"
    "cy_effective c = None \<longrightarrow> cy_submissions c = []"
    "wk_cycles st' = jset key c (wk_cycles st)"
  shows "subs_inv Q st'"
  using assms by (auto simp: subs_inv_def split: if_splits)

lemma subs_inv_admit:
  assumes "subs_inv Q st" "jget (wk_cycles st) key = Some cycle" "Q sub"
  shows "subs_inv Q (admit_submission hAct2 key node cycle sub st)"
proof -
  have c: "\<forall>s \<in> set (cy_submissions cycle). Q s" "\<forall>s \<in> set (tl (cy_submissions cycle)). cs_supersedeid s \<noteq> None"
    "cy_effective cycle = None \<longrightarrow> cy_submissions cycle = []"
    using assms(1,2) unfolding subs_inv_def by blast+
  have anchored: "subs_inv Q (anchor_submission key node (cycle\<lparr>cy_superseded := x\<rparr>) sub st)"
    if "cy_submissions cycle = [] \<or> cs_supersedeid sub \<noteq> None" for x
    by (rule subs_inv_set_cycle [OF assms(1), of _ _ key])
       (use c assms(3) that in \<open>auto simp: anchor_submission_def tl_append split: list.splits\<close>)
  show ?thesis
  proof (cases "cy_effective cycle")
    case None
    then show ?thesis using anchored [of "cy_superseded cycle"] c(3)
      by (simp add: admit_submission_def)
  next
    case (Some eff)
    then show ?thesis using anchored subs_inv_same_cycles [OF assms(1)]
      by (simp add: admit_submission_def split: option.split)
  qed
qed

lemma subs_inv_submission:
  assumes "subs_inv Q st" "Q (toCycleSubmission pin)"
  shows "subs_inv Q (step_submission ctx st pin)"
proof -
  have "subs_inv Q (admit_submission h key node (jget_or (wk_cycles st) key
       \<lparr>cy_node = n, cy_claimId = cl, cy_claimant = b, cy_submissions = [], cy_effective = None,
        cy_superseded = [], cy_outcome = Open\<rparr>) (toCycleSubmission pin)
     (st\<lparr>wk_cycles := jset key (jget_or (wk_cycles st) key
       \<lparr>cy_node = n, cy_claimId = cl, cy_claimant = b, cy_submissions = [], cy_effective = None,
        cy_superseded = [], cy_outcome = Open\<rparr>) (wk_cycles st)\<rparr>))" for h key node n cl b
    by (rule subs_inv_admit)
       (use assms in \<open>auto simp: subs_inv_def jget_or_def split: if_splits option.splits\<close>)
  then show ?thesis using assms(1) by (simp add: step_submission_def Let_def split: option.split)
qed

lemma subs_inv_verify:
  assumes "subs_inv Q st" shows "subs_inv Q (step_verify ctx st pin)"
proof -
  have set: "subs_inv Q st'" if "jget (wk_cycles st) key = Some cycle"
      "wk_cycles st' = jset key (cycle\<lparr>cy_outcome := x\<rparr>) (wk_cycles st)" for key cycle st' x
    by (rule subs_inv_set_cycle [OF assms, of "cycle\<lparr>cy_outcome := x\<rparr>" _ key])
       (use assms that in \<open>auto simp: subs_inv_def\<close>)
  have "subs_inv Q (if is_fail vote then step_fail key node target cycle st
      else if is_pass vote then step_pass ctx key node target cycle vote st else st)"
    if "jget (wk_cycles st) key = Some cycle" for vote node key cycle target
    using set [OF that] subs_inv_same_cycles [OF assms] assms
    by (simp add: step_fail_def step_pass_def drop_lock_def Let_def)
  then show ?thesis
    using assms by (simp add: step_verify_def Let_def split: option.split)
qed

lemma subs_inv_step:
  "subs_inv Q st \<Longrightarrow> (ev_path pin = ''submission'' \<longrightarrow> Q (toCycleSubmission pin)) \<Longrightarrow> subs_inv Q (walk_step ctx st pin)"
  using subs_inv_same_cycles [of Q st "step_claim st pin"] subs_inv_same_cycles [of Q st "step_release st pin"]
  by (simp add: walk_step_def subs_inv_submission subs_inv_verify)
     (simp add: step_claim_def step_release_def drop_lock_def Let_def split: option.split)

interpretation tree_subs: stepwise "walk_step ctx"
  "\<lambda>pin. ev_path pin = ''submission'' \<longrightarrow> Q (toCycleSubmission pin)" "subs_inv Q" for ctx Q
  by unfold_locales (rule subs_inv_step)

lemma treeWalk_subs:
  "(\<forall>pin \<in> set timeline. ev_path pin = ''submission'' \<longrightarrow> Q (toCycleSubmission pin)) \<Longrightarrow>
   subs_inv Q (treeWalk ctx (walk_init ign) timeline)"
  unfolding treeWalk_def by (rule tree_subs.run_inv) (simp_all add: subs_inv_def walk_init_def)

end
