(* ===== verification/MemoSearch.thy ===== *)
theory MemoSearch
  imports Prelude
begin

text \<open>
  Depth-first search with a memo and a cycle guard: the recursion scheme of \<open>chainValid\<close> and
  \<open>compDepsAcyclic\<close> (competitive mode) and \<open>finalVerified\<close> (tree mode) of metatask/engine.ts.
  A visit looks the node up in the memo; otherwise it stores \<open>false\<close> as a guard, checks the
  node's own condition and then its successors in order until one fails, and stores the result.
  A successor that does not resolve is \<open>None\<close> and fails. The recursion carries fuel; the memo
  only grows, so one unit per node is enough, which is proved. The search computes the least
  fixpoint: a node is good if its condition holds and all its successors are good. The value
  does not depend on what earlier visits left in the memo.
\<close>

type_synonym 'a memo = "('a, bool) jsmap"

primrec memo_every :: "('a \<Rightarrow> 'a memo \<Rightarrow> (bool \<times> 'a memo) option) \<Rightarrow> 'a option list \<Rightarrow> 'a memo \<Rightarrow> (bool \<times> 'a memo) option" where
  "memo_every visit [] m = Some (True, m)"
| "memo_every visit (x # xs) m =
     (case x of
        None \<Rightarrow> Some (False, m)
      | Some y \<Rightarrow>
          (case visit y m of
             None \<Rightarrow> None
           | Some (b, m') \<Rightarrow> if b then memo_every visit xs m' else Some (False, m')))"

primrec memo_visit :: "nat \<Rightarrow> ('a \<Rightarrow> bool) \<Rightarrow> ('a \<Rightarrow> 'a option list) \<Rightarrow> 'a \<Rightarrow> 'a memo \<Rightarrow> (bool \<times> 'a memo) option" where
  "memo_visit 0 ok succs x m = None"
| "memo_visit (Suc n) ok succs x m =
     (case jget m x of
        Some b \<Rightarrow> Some (b, m)
      | None \<Rightarrow>
          (let m1 = jset x False m in
           if ok x then
             (case memo_every (memo_visit n ok succs) (succs x) m1 of
                None \<Rightarrow> None
              | Some (b, m2) \<Rightarrow> Some (b, jset x b m2))
           else Some (False, m1)))"

text \<open>The specification: the least fixpoint.\<close>

inductive good :: "('a \<Rightarrow> bool) \<Rightarrow> ('a \<Rightarrow> 'a option list) \<Rightarrow> 'a \<Rightarrow> bool" for ok succs where
  "ok x \<Longrightarrow> None \<notin> set (succs x) \<Longrightarrow> (\<And>y. Some y \<in> set (succs x) \<Longrightarrow> good ok succs y) \<Longrightarrow> good ok succs x"

inductive_simps good_iff: "good ok succs x"

definition succ_rel :: "('a \<Rightarrow> 'a option list) \<Rightarrow> ('a \<times> 'a) set" where
  "succ_rel succs = {(x, y). Some y \<in> set (succs x)}"

lemma good_no_cycle: "good ok succs x \<Longrightarrow> (x, x) \<notin> (succ_rel succs)\<^sup>+"
proof (induction rule: good.induct)
  case (1 x)
  show ?case
  proof
    assume "(x, x) \<in> (succ_rel succs)\<^sup>+"
    then obtain y where y: "(x, y) \<in> succ_rel succs" "(y, x) \<in> (succ_rel succs)\<^sup>*"
      by (meson tranclD)
    then have "(y, y) \<in> (succ_rel succs)\<^sup>+" by (meson rtrancl_into_trancl1)
    then show False using 1 y by (auto simp: succ_rel_def)
  qed
qed

lemma good_succ: "good ok succs x \<Longrightarrow> (x, y) \<in> succ_rel succs \<Longrightarrow> good ok succs y"
  by (erule good.cases) (auto simp: succ_rel_def)

text \<open>A memo is right outside the nodes being visited, which it holds as false.\<close>

definition memo_ok :: "('a \<Rightarrow> bool) \<Rightarrow> ('a \<Rightarrow> 'a option list) \<Rightarrow> 'a set \<Rightarrow> 'a memo \<Rightarrow> bool" where
  "memo_ok ok succs S m \<longleftrightarrow>
     (\<forall>x b. jget m x = Some b \<longrightarrow> (if x \<in> S then \<not> b else b = good ok succs x)) \<and>
     (\<forall>x \<in> S. jget m x = Some False)"

lemma memo_okD: "memo_ok ok succs S m \<Longrightarrow> jget m x = Some b \<Longrightarrow> x \<notin> S \<Longrightarrow> b = good ok succs x"
  unfolding memo_ok_def by metis

definition stack_reaches :: "('a \<Rightarrow> 'a option list) \<Rightarrow> 'a set \<Rightarrow> 'a \<Rightarrow> bool" where
  "stack_reaches succs S x \<longleftrightarrow> (\<forall>s \<in> S. (s, x) \<in> (succ_rel succs)\<^sup>+)"

lemma memo_search_correct:
  assumes "memo_visit n ok succs x m = Some (b, m')"
    and "memo_ok ok succs S m" and "stack_reaches succs S x"
  shows "b = good ok succs x \<and> memo_ok ok succs S m'"
  using assms
proof (induction n arbitrary: x m b m' S)
  case (Suc n)
  let ?g = "good ok succs"
  show ?case
  proof (cases "jget m x")
    case (Some c)
    have "c = ?g x"
    proof (cases "x \<in> S")
      case True
      then have "(x, x) \<in> (succ_rel succs)\<^sup>+" using Suc.prems(3) by (simp add: stack_reaches_def)
      then have "\<not> ?g x" using good_no_cycle by metis
      moreover have "c = False" using Suc.prems(2) Some True by (auto simp: memo_ok_def)
      ultimately show ?thesis by simp
    qed (use Suc.prems(2) Some in \<open>auto dest: memo_okD\<close>)
    then show ?thesis using Suc.prems Some by auto
  next
    case None
    have xS: "x \<notin> S" using Suc.prems(2) None by (auto simp: memo_ok_def)
    let ?m1 = "jset x False m"
    have m1: "memo_ok ok succs (insert x S) ?m1"
      using Suc.prems(2) None unfolding memo_ok_def by auto
    have close: "memo_ok ok succs S (jset x c m2)" if "memo_ok ok succs (insert x S) m2" "c = ?g x" for c m2
      using that xS unfolding memo_ok_def by auto
    show ?thesis
    proof (cases "ok x")
      case False
      then have "\<not> ?g x" by (auto elim: good.cases)
      then have "memo_ok ok succs S ?m1"
        using m1 xS unfolding memo_ok_def by auto
      then show ?thesis using Suc.prems(1) None False \<open>\<not> ?g x\<close> by (auto simp: Let_def)
    next
      case True
      have every: "c = (None \<notin> set ys \<and> (\<forall>y. Some y \<in> set ys \<longrightarrow> ?g y)) \<and> memo_ok ok succs (insert x S) m2"
        if "memo_every (memo_visit n ok succs) ys mm = Some (c, m2)"
          and "memo_ok ok succs (insert x S) mm" and "set ys \<subseteq> set (succs x)" for ys mm c m2
        using that
      proof (induction ys arbitrary: mm)
        case (Cons z ys)
        show ?case
        proof (cases z)
          case None
          then show ?thesis using Cons.prems by auto
        next
          case (Some y)
          obtain d mm' where d: "memo_visit n ok succs y mm = Some (d, mm')"
            using Cons.prems(1) Some by (auto split: option.splits)
          have xy: "(x, y) \<in> succ_rel succs" using Cons.prems(3) Some by (auto simp: succ_rel_def)
          have "stack_reaches succs (insert x S) y"
            using Suc.prems(3) xy by (auto simp: stack_reaches_def intro: trancl_into_trancl)
          then have dd: "d = ?g y" "memo_ok ok succs (insert x S) mm'"
            using Suc.IH [OF d Cons.prems(2)] by simp_all
          show ?thesis
          proof (cases d)
            case True
            then show ?thesis using Cons.IH [of mm'] Cons.prems dd d Some by auto
          next
            case False
            then show ?thesis using Cons.prems dd d Some by auto
          qed
        qed
      qed auto
      obtain c m2 where c: "memo_every (memo_visit n ok succs) (succs x) ?m1 = Some (c, m2)"
        and r: "b = c" "m' = jset x c m2"
        using Suc.prems(1) None True by (auto simp: Let_def split: option.splits)
      have "c = (None \<notin> set (succs x) \<and> (\<forall>y. Some y \<in> set (succs x) \<longrightarrow> ?g y))"
        and m2: "memo_ok ok succs (insert x S) m2"
        using every [OF c m1] by auto
      then have "c = ?g x" using True by (subst good_iff) auto
      then show ?thesis using close [OF m2] r by auto
    qed
  qed
qed simp

section \<open>Fuel\<close>

text \<open>The client's side of the search: finitely many nodes, closed under successors.\<close>

locale memo_search =
  fixes ok :: "'a \<Rightarrow> bool" and succs :: "'a \<Rightarrow> 'a option list" and nodes :: "'a set"
  assumes finite_nodes: "finite nodes"
    and closed: "ok x \<Longrightarrow> Some y \<in> set (succs x) \<Longrightarrow> y \<in> nodes"
begin

lemma visit_grows:
  "memo_visit n ok succs x m = Some (b, m') \<Longrightarrow> fst ` set m \<subseteq> fst ` set m'"
proof (induction n arbitrary: x m b m')
  case (Suc n)
  have every: "fst ` set mm \<subseteq> fst ` set m2"
    if "memo_every (memo_visit n ok succs) ys mm = Some (c, m2)" for ys mm c m2
    using that
  proof (induction ys arbitrary: mm)
    case (Cons z ys)
    show ?case
    proof (cases z)
      case None
      then show ?thesis using Cons.prems by auto
    next
      case (Some y)
      then obtain d mm' where d: "memo_visit n ok succs y mm = Some (d, mm')"
        using Cons.prems by (auto split: option.splits)
      then show ?thesis
        using Suc.IH [OF d] Cons.IH [of mm'] Cons.prems Some by (auto split: if_splits)
    qed
  qed auto
  show ?case
  proof (cases "jget m x")
    case (Some c)
    then show ?thesis using Suc.prems by auto
  next
    case None
    show ?thesis
    proof (cases "ok x")
      case False
      then have "m' = jset x False m" using Suc.prems None by (simp add: Let_def)
      then show ?thesis by (simp add: keys_jset subset_insertI)
    next
      case True
      then obtain c m2 where c: "memo_every (memo_visit n ok succs) (succs x) (jset x False m) = Some (c, m2)"
        and "m' = jset x c m2"
        using Suc.prems None by (auto simp: Let_def split: option.splits)
      then show ?thesis using every [OF c] by (auto simp: keys_jset)
    qed
  qed
qed simp

lemma visit_total:
  assumes "x \<in> nodes" "card (nodes - fst ` set m) < n"
  shows "\<exists>b m'. memo_visit n ok succs x m = Some (b, m')"
  using assms
proof (induction n arbitrary: x m)
  case (Suc n)
  show ?case
  proof (cases "jget m x = None \<and> ok x")
    case False
    then show ?thesis by (auto simp: Let_def split: option.splits)
  next
    case True
    let ?m1 = "jset x False m"
    have every: "\<exists>c m2. memo_every (memo_visit n ok succs) ys mm = Some (c, m2)"
      if "card (nodes - fst ` set mm) < n" "set ys \<subseteq> set (succs x)" for ys mm
      using that
    proof (induction ys arbitrary: mm)
      case (Cons z ys)
      show ?case
      proof (cases z)
        case (Some y)
        then have "y \<in> nodes" using Cons.prems(2) closed True by auto
        then obtain d mm' where d: "memo_visit n ok succs y mm = Some (d, mm')"
          using Suc.IH Cons.prems(1) by blast
        have "card (nodes - fst ` set mm') \<le> card (nodes - fst ` set mm)"
          using visit_grows [OF d] finite_nodes by (intro card_mono) auto
        then obtain c m2 where "memo_every (memo_visit n ok succs) ys mm' = Some (c, m2)"
          using Cons.IH [of mm'] Cons.prems by force
        then show ?thesis using d Some by auto
      next
        case None
        then have "memo_every (memo_visit n ok succs) (z # ys) mm = Some (False, mm)" by simp
        then show ?thesis by blast
      qed
    qed auto
    have "x \<notin> fst ` set m" using True by (metis map_of_eq_None_iff)
    then have "nodes - fst ` set ?m1 \<subset> nodes - fst ` set m"
      using Suc.prems(1) by (auto simp: keys_jset)
    then have "card (nodes - fst ` set ?m1) < card (nodes - fst ` set m)"
      using finite_nodes by (intro psubset_card_mono) auto
    then have "card (nodes - fst ` set ?m1) < n" using Suc.prems by simp
    then show ?thesis using every [of ?m1 "succs x"] True by (auto simp: Let_def)
  qed
qed simp

text \<open>With one unit of fuel per node and any memo that earlier visits can have left, a visit
  returns, and returns the least fixpoint.\<close>

theorem visit_good:
  assumes "x \<in> nodes" "card nodes < n" "memo_ok ok succs {} m"
  shows "\<exists>m'. memo_visit n ok succs x m = Some (good ok succs x, m') \<and> memo_ok ok succs {} m'"
proof -
  have "card (nodes - fst ` set m) \<le> card nodes" using finite_nodes by (intro card_mono) auto
  then obtain b m' where r: "memo_visit n ok succs x m = Some (b, m')"
    using visit_total [OF assms(1)] assms(2) by (metis le_less_trans)
  then show ?thesis
    using memo_search_correct [OF r assms(3)] by (auto simp: stack_reaches_def)
qed

end

text \<open>A visit with a fresh memo and the fuel of a given node count.\<close>

definition memo_run :: "nat \<Rightarrow> ('a \<Rightarrow> bool) \<Rightarrow> ('a \<Rightarrow> 'a option list) \<Rightarrow> 'a \<Rightarrow> bool" where
  "memo_run sz ok succs x =
     (case memo_visit (Suc sz) ok succs x [] of None \<Rightarrow> False | Some (b, _) \<Rightarrow> b)"

lemma memo_ok_empty [simp]: "memo_ok ok succs {} []"
  by (simp add: memo_ok_def)

context memo_search begin

lemma every_good:
  "\<lbrakk>\<forall>y. Some y \<in> set ys \<longrightarrow> y \<in> nodes; card nodes < n; memo_ok ok succs {} m\<rbrakk> \<Longrightarrow>
   \<exists>m'. memo_every (memo_visit n ok succs) ys m =
     Some (None \<notin> set ys \<and> (\<forall>y. Some y \<in> set ys \<longrightarrow> good ok succs y), m')"
proof (induction ys arbitrary: m)
  case (Cons z ys)
  show ?case
  proof (cases z)
    case (Some y)
    have "y \<in> nodes" using Cons.prems(1) Some by simp
    from visit_good [OF this Cons.prems(2,3)] obtain m1 where
      m1: "memo_visit n ok succs y m = Some (good ok succs y, m1)" "memo_ok ok succs {} m1" by blast
    show ?thesis
    proof (cases "good ok succs y")
      case True
      from Cons.IH [of m1] Cons.prems m1 obtain m' where
        "memo_every (memo_visit n ok succs) ys m1 = Some (None \<notin> set ys \<and> (\<forall>y. Some y \<in> set ys \<longrightarrow> good ok succs y), m')" by auto
      then show ?thesis using m1 True Some by auto
    next
      case False
      then show ?thesis using m1 Some by auto
    qed
  qed simp
qed simp

lemma memo_run_good: "x \<in> nodes \<Longrightarrow> card nodes \<le> sz \<Longrightarrow> memo_run sz ok succs x = good ok succs x"
  using visit_good [of x "Suc sz" "[]"] by (auto simp: memo_run_def)

end

text \<open>With no condition on the nodes, everything reachable being good says there is no cycle.\<close>

lemma all_good_iff_acyclic:
  assumes "finite N" "\<forall>x \<in> N. None \<notin> set (succs x)" "succ_rel succs \<subseteq> N \<times> N"
  shows "(\<forall>x \<in> N. good (\<lambda>_. True) succs x) \<longleftrightarrow> acyclic (succ_rel succs)"
proof
  assume g: "\<forall>x \<in> N. good (\<lambda>_. True) succs x"
  show "acyclic (succ_rel succs)"
  proof (rule acyclicI, rule allI)
    fix x
    show "(x, x) \<notin> (succ_rel succs)\<^sup>+"
    proof
      assume c: "(x, x) \<in> (succ_rel succs)\<^sup>+"
      then have "x \<in> N" using assms(3) by (meson SigmaD1 subsetD tranclD)
      then show False using g good_no_cycle c by metis
    qed
  qed
next
  assume "acyclic (succ_rel succs)"
  then have wf: "wf ((succ_rel succs)\<inverse>)"
    using assms(1,3) finite_subset [OF assms(3)] by (intro finite_acyclic_wf_converse) auto
  show "\<forall>x \<in> N. good (\<lambda>_. True) succs x"
  proof
    fix x assume "x \<in> N"
    then show "good (\<lambda>_. True) succs x"
    proof (induction x rule: wf_induct_rule [OF wf])
      case (1 x)
      show ?case
      proof (rule good.intros)
        show "None \<notin> set (succs x)" using assms(2) 1 by blast
        fix y assume y: "Some y \<in> set (succs x)"
        then have "(x, y) \<in> succ_rel succs" by (simp add: succ_rel_def)
        then show "good (\<lambda>_. True) succs y" using 1 assms(3) by blast
      qed simp
    qed
  qed
qed

end
