(* ===== verification/AmendFold.thy ===== *)
theory AmendFold
  imports MtTypes MemoSearch
begin

text \<open>
  Tree mode, \<open>foldAmends\<close> of metatask/engine.ts: the tree checks (\<open>isAcyclic\<close>, \<open>sumWeights\<close>),
  the five ops on a scratch copy, the gates and the version chain. The subtree walk of
  \<open>remove_node\<close> is an unbounded loop in the code and a \<open>partial_function\<close> here: \<open>None\<close>, carried
  up as \<open>Diverges\<close>, is a replay that never returns.
\<close>

section \<open>Tree checks\<close>

text \<open>The parent a walk goes on to: a non-empty string that names it, else the walk ends.\<close>

definition parentOf :: "tree \<Rightarrow> string \<Rightarrow> string option" where
  "parentOf nodes c =
     (case jget nodes c of
        None \<Rightarrow> None
      | Some node \<Rightarrow>
          (case jprop node ''parent'' of Some (JStr p) \<Rightarrow> if p = '''' then None else Some p | _ \<Rightarrow> None))"

function parent_walk :: "tree \<Rightarrow> string list \<Rightarrow> string option \<Rightarrow> bool" where
  "parent_walk nodes seen None = True"
| "parent_walk nodes seen (Some c) =
     (if c = '''' then True
      else if c \<in> set seen then False
      else parent_walk nodes (c # seen) (parentOf nodes c))"
  by pat_completeness auto
termination
proof (relation "measures [\<lambda>(nodes, seen, cur). card (fst ` set nodes - set seen), \<lambda>(nodes, seen, cur). case cur of None \<Rightarrow> 0 | Some _ \<Rightarrow> 1]")
  fix nodes :: tree and seen :: "string list" and c :: string
  assume a: "c \<noteq> ''''" "c \<notin> set seen"
  show "((nodes, c # seen, parentOf nodes c), nodes, seen, Some c)
    \<in> measures [\<lambda>(nodes, seen, cur). card (fst ` set nodes - set seen), \<lambda>(nodes, seen, cur). case cur of None \<Rightarrow> 0 | Some _ \<Rightarrow> 1]"
  proof (cases "c \<in> fst ` set nodes")
    case True
    then have "fst ` set nodes - set (c # seen) \<subset> fst ` set nodes - set seen" using a by auto
    then have "card (fst ` set nodes - set (c # seen)) < card (fst ` set nodes - set seen)"
      by (intro psubset_card_mono) auto
    then show ?thesis by simp
  next
    case False
    then have "jget nodes c = None" by (simp add: map_of_eq_None_iff)
    moreover have "fst ` set nodes - set (c # seen) = fst ` set nodes - set seen" using False by auto
    ultimately show ?thesis by (simp add: parentOf_def)
  qed
qed simp

declare parent_walk.simps [simp del]

definition isAcyclic :: "tree \<Rightarrow> bool" where
  "isAcyclic nodes = list_all (\<lambda>startId. parent_walk nodes [] (Some startId)) (map fst nodes)"

text \<open>The sum of the weights, or -1 as soon as one is not an integer of 1..10000.\<close>

fun sumWeights_from :: "int \<Rightarrow> json list \<Rightarrow> int" where
  "sumWeights_from acc [] = acc"
| "sumWeights_from acc (node # ns) =
     (case int_in_range (jprop node ''weight'') 1 10000 of
        None \<Rightarrow> -1
      | Some w \<Rightarrow> sumWeights_from (acc + w) ns)"

definition sumWeights :: "tree \<Rightarrow> int" where
  "sumWeights nodes = sumWeights_from 0 (map snd nodes)"

section \<open>The ops\<close>

datatype op_result = Diverges | Rejected | Applied tree

definition children_ids :: "tree \<Rightarrow> string \<Rightarrow> string list" where
  "children_ids nodes current = map fst (filter (\<lambda>(_, node). jprop node ''parent'' = Some (JStr current)) nodes)"

text \<open>\<open>while (stack.length && ok)\<close>: pop, fail on a frozen node, push the children.\<close>

partial_function (option) removeWalk :: "(string \<Rightarrow> bool) \<Rightarrow> tree \<Rightarrow> string list \<Rightarrow> bool option" where
  "removeWalk frozen nodes stack =
     (if stack = [] then Some True
      else if frozen (last stack) then Some False
      else removeWalk frozen nodes (butlast stack @ children_ids nodes (last stack)))"

declare removeWalk.simps [code]

text \<open>The record \<open>add_node\<close> stores; an undefined weight leaves the field out.\<close>

definition new_node :: "string \<Rightarrow> string \<Rightarrow> json option \<Rightarrow> json" where
  "new_node nid parent raw =
     JObj ([(''id'', JStr nid), (''parent'', JStr parent),
            (''title'', JStr (asStr (jopt raw ''title'') '''')),
            (''kind'', JStr (asStr (jopt raw ''kind'') ''proof'')),
            (''specid'', (case jopt raw ''specid'' of Some (JStr s) \<Rightarrow> JStr s | _ \<Rightarrow> JNull)),
            (''params'', if is_object (jopt raw ''params'') then or_null (jopt raw ''params'') else JObj []),
            (''deps'', JArr (map JStr (str_items (arr_or_empty (jopt raw ''deps'')))))] @
           (case jopt raw ''weight'' of Some (JNum w) \<Rightarrow> [(''weight'', JNum w)] | _ \<Rightarrow> []))"

definition raw_node :: "json \<Rightarrow> json option" where
  "raw_node op = nullish (jprop op ''newNode'') (jprop op ''node'')"

definition op_kind :: "json \<Rightarrow> string" where "op_kind op = asStr (jprop op ''op'') ''''"
definition op_target :: "json \<Rightarrow> string" where "op_target op = asStr (jprop op ''node'') ''''"

definition set_weight :: "tree \<Rightarrow> string \<Rightarrow> json \<Rightarrow> json option \<Rightarrow> op_result" where
  "set_weight scratch targetId target w =
     (case int_in_range w 1 10000 of
        None \<Rightarrow> Rejected
      | Some n \<Rightarrow> Applied (jset targetId (jassign target ''weight'' (JNum (of_int n))) scratch))"

definition set_text :: "tree \<Rightarrow> string \<Rightarrow> json \<Rightarrow> string \<Rightarrow> json option \<Rightarrow> op_result" where
  "set_text scratch targetId target field v =
     (if truthyStr v then Applied (jset targetId (jassign target field (JStr (asStr v ''''))) scratch)
      else Rejected)"

record amend_ctx =
  am_rootAuthor :: string
  am_treePinId :: string
  am_firstClaimOrder :: "(string, order_key) jsmap"
  am_verifiedNodeIds :: "string list"
  am_activeCycleNodeIds :: "string list"
  am_rootVerified :: bool
  am_hAct2 :: "int option"

text \<open>Frozen on start: the node's first effective claim landed before this amend.\<close>

definition frozenAt :: "amend_ctx \<Rightarrow> order_key \<Rightarrow> string \<Rightarrow> bool" where
  "frozenAt ctx amendKey nodeId =
     (case jget (am_firstClaimOrder ctx) nodeId of None \<Rightarrow> False | Some claimKey \<Rightarrow> claimKey < amendKey)"

definition op_add :: "amend_ctx \<Rightarrow> tree \<Rightarrow> tree \<Rightarrow> json \<Rightarrow> op_result" where
  "op_add ctx nodes scratch op =
     (let raw = raw_node op;
          nid = asStr (jopt raw ''id'') '''';
          parent = asStr (jopt raw ''parent'') ''''
      in if \<not> js_truthy raw \<or> nid = '''' \<or> jhas nodes nid \<or> jhas scratch nid then Rejected
         else if (\<not> jhas scratch parent \<and> \<not> jhas nodes parent) \<or>
                 parent \<in> set (am_verifiedNodeIds ctx) \<or> parent \<in> set (am_activeCycleNodeIds ctx) then Rejected
         else Applied (jset nid (new_node nid parent raw) scratch))"

definition op_remove :: "(string \<Rightarrow> bool) \<Rightarrow> (string \<Rightarrow> bool) \<Rightarrow> tree \<Rightarrow> string \<Rightarrow> op_result" where
  "op_remove frozen referenced scratch targetId =
     (case jget scratch targetId of
        None \<Rightarrow> Rejected
      | Some target \<Rightarrow>
          if jprop target ''parent'' = Some JNull then Rejected
          else (case removeWalk frozen scratch [targetId] of
                  None \<Rightarrow> Diverges
                | Some ok \<Rightarrow>
                    if \<not> ok \<or> referenced targetId then Rejected else Applied (jdel targetId scratch)))"

text \<open>\<open>reweight\<close>, \<open>retitle\<close> and \<open>respec\<close>: the target exists and is not frozen.\<close>

definition op_edit :: "(string \<Rightarrow> bool) \<Rightarrow> tree \<Rightarrow> string \<Rightarrow> (json \<Rightarrow> op_result) \<Rightarrow> op_result" where
  "op_edit frozen scratch targetId edit =
     (case jget scratch targetId of
        None \<Rightarrow> Rejected
      | Some target \<Rightarrow> if frozen targetId then Rejected else edit target)"

definition apply_op :: "amend_ctx \<Rightarrow> order_key \<Rightarrow> tree \<Rightarrow> tree \<Rightarrow> json \<Rightarrow> op_result" where
  "apply_op ctx amendKey nodes scratch rawOp =
     (if \<not> is_object (Some rawOp) then Rejected
      else
        (let kind = op_kind rawOp; targetId = op_target rawOp; frozen = frozenAt ctx amendKey in
         if kind = ''add_node'' then op_add ctx nodes scratch rawOp
         else if kind = ''remove_node'' then op_remove frozen (\<lambda>_. False) scratch targetId
         else if kind = ''reweight'' then
           op_edit frozen scratch targetId (\<lambda>t. set_weight scratch targetId t (jprop rawOp ''weight''))
         else if kind = ''retitle'' then
           op_edit frozen scratch targetId (\<lambda>t. set_text scratch targetId t ''title'' (jprop rawOp ''title''))
         else if kind = ''respec'' then
           op_edit frozen scratch targetId (\<lambda>t. set_text scratch targetId t ''specid'' (jprop rawOp ''specid''))
         else Rejected))"

text \<open>The loop over the ops stops at the first that is rejected.\<close>

fun run_ops :: "(tree \<Rightarrow> json \<Rightarrow> op_result) \<Rightarrow> tree \<Rightarrow> json list \<Rightarrow> op_result" where
  "run_ops apply scratch [] = Applied scratch"
| "run_ops apply scratch (rawOp # ops) =
     (case apply scratch rawOp of
        Applied scratch' \<Rightarrow> run_ops apply scratch' ops
      | r \<Rightarrow> r)"

section \<open>The fold\<close>

record fold_state =
  fs_nodes :: tree
  fs_ignored :: ignored
  fs_takenBases :: "string list"
  fs_head :: string

definition fold_init :: "string \<Rightarrow> tree \<Rightarrow> fold_state" where
  "fold_init treePinId initialNodes =
     \<lparr>fs_nodes = initialNodes, fs_ignored = [], fs_takenBases = [], fs_head = treePinId\<rparr>"

definition ignore_amend :: "chain_event \<Rightarrow> string \<Rightarrow> fold_state \<Rightarrow> fold_state" where
  "ignore_amend amend reason st = st\<lparr>fs_ignored := fs_ignored st @ [(ev_pinId amend, reason)]\<rparr>"

definition scratch_copy :: "tree \<Rightarrow> tree" where
  "scratch_copy nodes = map (\<lambda>(nid, node). (nid, spread node)) nodes"

text \<open>The version-chain check and the commit, shared by the two modes: \<open>ops\<close> runs the amend's ops
  on a scratch copy and \<open>invariants\<close> are the checks on the result.\<close>

definition fold_commit ::
  "(tree \<Rightarrow> json list \<Rightarrow> op_result) \<Rightarrow> (tree \<Rightarrow> bool) \<Rightarrow> fold_state \<Rightarrow> chain_event \<Rightarrow> fold_state option" where
  "fold_commit ops invariants st amend =
     (let bases = body_str amend ''bases'' in
      if bases \<noteq> fs_head st then
        Some (ignore_amend amend
          (if bases \<in> set (fs_takenBases st) then ''amend_conflict'' else ''amend_stale'') st)
      else
        (let st = st\<lparr>fs_takenBases := set_add bases (fs_takenBases st)\<rparr> in
         case ops (scratch_copy (fs_nodes st)) (arr_or_empty (body_get amend ''ops'')) of
           Diverges \<Rightarrow> None
         | Rejected \<Rightarrow> Some (ignore_amend amend ''amend_invariant_violation'' st)
         | Applied scratch \<Rightarrow>
             if invariants scratch then Some (st\<lparr>fs_nodes := scratch, fs_head := ev_pinId amend\<rparr>)
             else Some (ignore_amend amend ''amend_invariant_violation'' st)))"

definition tree_invariants :: "tree \<Rightarrow> bool" where
  "tree_invariants scratch \<longleftrightarrow> sumWeights scratch = 10000 \<and> isAcyclic scratch"

definition amend_step :: "amend_ctx \<Rightarrow> fold_state \<Rightarrow> chain_event \<Rightarrow> fold_state option" where
  "amend_step ctx st amend =
     (if below_gate (ev_height amend) (am_hAct2 ctx) then Some (ignore_amend amend ''below_h_act2'' st)
      else if ev_author amend \<noteq> am_rootAuthor ctx then Some (ignore_amend amend ''amend_not_publisher'' st)
      else if am_rootVerified ctx then Some (ignore_amend amend ''amend_task_finalized'' st)
      else fold_commit (run_ops (apply_op ctx (orderKey amend) (fs_nodes st))) tree_invariants st amend)"

fun fold_amends_with :: "(fold_state \<Rightarrow> chain_event \<Rightarrow> fold_state option) \<Rightarrow> fold_state \<Rightarrow> chain_event list \<Rightarrow> fold_state option" where
  "fold_amends_with step st [] = Some st"
| "fold_amends_with step st (amend # amends) =
     (case step st amend of None \<Rightarrow> None | Some st' \<Rightarrow> fold_amends_with step st' amends)"

definition foldAmends :: "amend_ctx \<Rightarrow> tree \<Rightarrow> chain_event list \<Rightarrow> fold_state option" where
  "foldAmends ctx initialNodes amends =
     fold_amends_with (amend_step ctx) (fold_init (am_treePinId ctx) initialNodes) amends"

end
