(* ===== verification/CompOracle.thy ===== *)
theory CompOracle
  imports AmendFold
begin

text \<open>
  Competitive mode: deps of the tree, sinks, the terminal node, structural validation of
  parentrefs, and \<open>makeCompOracle\<close> of metatask/engine.ts. The submissions live in one map from
  pin id to record (\<open>submissionByPin\<close>; the code's \<open>compSubs\<close> array holds the same objects in the
  same order). \<open>chainValid\<close> and \<open>compDepsAcyclic\<close> are the memo search of \<open>MemoSearch\<close>; each oracle
  call starts with a fresh memo, which \<open>memo_search.visit_good\<close> justifies.
\<close>

type_synonym comp_subs = "(string, comp_submission) jsmap"

section \<open>Deps\<close>

definition node_deps :: "json \<Rightarrow> string list" where
  "node_deps node = str_items (arr_or_empty (jprop node ''deps''))"

definition compDepsOf :: "tree \<Rightarrow> string \<Rightarrow> string list" where
  "compDepsOf tr nodeId = (case jget tr nodeId of None \<Rightarrow> [] | Some node \<Rightarrow> node_deps node)"

text \<open>Nodes no other node lists in deps. The code reads the deps through \<open>node.id\<close>.\<close>

definition referenced_deps :: "tree \<Rightarrow> string list" where
  "referenced_deps tr =
     concat (map (\<lambda>(_, node). case jprop node ''id'' of Some (JStr i) \<Rightarrow> compDepsOf tr i | _ \<Rightarrow> []) tr)"

definition compSinkNodeIds :: "tree \<Rightarrow> string list" where
  "compSinkNodeIds tr = filter (\<lambda>nid. nid \<notin> set (referenced_deps tr)) (map fst tr)"

definition compDepsRefsValid :: "tree \<Rightarrow> bool" where
  "compDepsRefsValid tr = list_all (\<lambda>nid. list_all (\<lambda>dep. jhas tr dep) (compDepsOf tr nid)) (map fst tr)"

text \<open>Depth-first search; a node on the stack is false in the memo, a finished one true. Dangling
  deps are skipped.\<close>

definition live_deps :: "tree \<Rightarrow> string \<Rightarrow> string option list" where
  "live_deps tr nid = map Some (filter (jhas tr) (compDepsOf tr nid))"

definition compDepsAcyclic :: "tree \<Rightarrow> bool" where
  "compDepsAcyclic tr =
     (case memo_every (memo_visit (Suc (length tr)) (\<lambda>_. True) (live_deps tr)) (map Some (map fst tr)) [] of
        None \<Rightarrow> False | Some (b, _) \<Rightarrow> b)"

definition compFinalNode :: "tree \<Rightarrow> string \<Rightarrow> string option" where
  "compFinalNode tr finalnode =
     (if finalnode \<noteq> '''' \<and> jhas tr finalnode then Some finalnode
      else (case compSinkNodeIds tr of [s] \<Rightarrow> Some s | _ \<Rightarrow> None))"

section \<open>Parent references and the oracle\<close>

definition parentref :: "comp_submission \<Rightarrow> string \<Rightarrow> json option" where
  "parentref sub dep = (case sb_parentrefs sub of None \<Rightarrow> None | Some refs \<Rightarrow> map_of refs dep)"

definition compParentrefsValid :: "comp_submission \<Rightarrow> tree \<Rightarrow> comp_subs \<Rightarrow> bool" where
  "compParentrefsValid sub tr byPin =
     (if \<not> jhas tr (sb_node sub) then False
      else
        (let deps = compDepsOf tr (sb_node sub) in
         if deps = [] then (case sb_parentrefs sub of None \<Rightarrow> True | Some refs \<Rightarrow> length refs = 0)
         else
           (case sb_parentrefs sub of
              None \<Rightarrow> False
            | Some refs \<Rightarrow>
                length refs = length deps \<and>
                list_all (\<lambda>dep.
                  case map_of refs dep of
                    Some (JStr ref) \<Rightarrow> ref \<noteq> '''' \<and>
                      (case jget byPin ref of None \<Rightarrow> False | Some target \<Rightarrow> sb_node target = dep)
                  | _ \<Rightarrow> False) deps)))"

definition chain_ok :: "tree \<Rightarrow> comp_subs \<Rightarrow> string \<Rightarrow> bool" where
  "chain_ok tr byPin pin =
     (case jget byPin pin of
        None \<Rightarrow> False
      | Some sub \<Rightarrow> compParentrefsValid sub tr byPin \<and> sb_verified sub \<and> \<not> sb_superseded sub)"

definition chain_succs :: "tree \<Rightarrow> comp_subs \<Rightarrow> string \<Rightarrow> string option list" where
  "chain_succs tr byPin pin =
     (case jget byPin pin of
        None \<Rightarrow> []
      | Some sub \<Rightarrow>
          map (\<lambda>dep. let ref = asStr (parentref sub dep) '''' in if jhas byPin ref then Some ref else None)
            (compDepsOf tr (sb_node sub)))"

definition chainValid :: "tree \<Rightarrow> comp_subs \<Rightarrow> string \<Rightarrow> bool" where
  "chainValid tr byPin pin = memo_run (length byPin) (chain_ok tr byPin) (chain_succs tr byPin) pin"

definition verifiedAt :: "comp_submission \<Rightarrow> order_key" where
  "verifiedAt sub =
     (case sb_verifiedVote sub of
        Some (h, t, ms, p) \<Rightarrow> (normHeight h, t, ms, p)
      | None \<Rightarrow> (BIG, 0, 0, ''''))"

definition satisfied :: "tree \<Rightarrow> comp_subs \<Rightarrow> string \<Rightarrow> order_key option \<Rightarrow> bool" where
  "satisfied tr byPin nodeId asOfKey =
     list_ex (\<lambda>(pin, sub).
        sb_node sub = nodeId \<and> chainValid tr byPin pin \<and>
        (case asOfKey of None \<Rightarrow> True | Some key \<Rightarrow> verifiedAt sub < key)) byPin"

section \<open>The amend fold of competitive mode\<close>

record comp_amend_ctx =
  cm_rootAuthor :: string
  cm_treePinId :: string
  cm_subs :: comp_subs
  cm_finalnode :: string
  cm_hAct2 :: "int option"

definition comp_op_add :: "(string \<Rightarrow> bool) \<Rightarrow> tree \<Rightarrow> tree \<Rightarrow> json \<Rightarrow> op_result" where
  "comp_op_add frozen nodes scratch op =
     (let raw = raw_node op;
          nid = asStr (jopt raw ''id'') '''';
          parent = asStr (jopt raw ''parent'') '''';
          newDeps = str_items (arr_or_empty (jopt raw ''deps''))
      in if \<not> js_truthy raw \<or> nid = '''' \<or> jhas nodes nid \<or> jhas scratch nid then Rejected
         else if \<not> jhas scratch parent \<or> frozen parent then Rejected
         else if list_ex (\<lambda>dep. \<not> jhas scratch dep \<or> frozen dep) newDeps then Rejected
         else Applied (jset nid (new_node nid parent raw) scratch))"

definition listed_in_deps :: "tree \<Rightarrow> string \<Rightarrow> bool" where
  "listed_in_deps scratch targetId =
     list_ex (\<lambda>(nid, _). nid \<noteq> targetId \<and> targetId \<in> set (compDepsOf scratch nid)) scratch"

definition comp_apply_op :: "comp_amend_ctx \<Rightarrow> order_key \<Rightarrow> tree \<Rightarrow> tree \<Rightarrow> json \<Rightarrow> op_result" where
  "comp_apply_op ctx amendKey nodes scratch rawOp =
     (if \<not> is_object (Some rawOp) then Rejected
      else
        (let kind = op_kind rawOp; targetId = op_target rawOp;
             frozen = (\<lambda>nid. satisfied scratch (cm_subs ctx) nid (Some amendKey)) in
         if kind = ''add_node'' then comp_op_add frozen nodes scratch rawOp
         else if kind = ''remove_node'' then op_remove frozen (listed_in_deps scratch) scratch targetId
         else if kind = ''reweight'' then
           op_edit frozen scratch targetId (\<lambda>t. set_weight scratch targetId t (jprop rawOp ''weight''))
         else if kind = ''retitle'' then
           op_edit frozen scratch targetId (\<lambda>t. set_text scratch targetId t ''title'' (jprop rawOp ''title''))
         else if kind = ''respec'' then
           op_edit frozen scratch targetId (\<lambda>t. set_text scratch targetId t ''specid'' (jprop rawOp ''specid''))
         else Rejected))"

text \<open>Terminal pinning and the other invariants of a competitive fold.\<close>

definition terminalPinned :: "string \<Rightarrow> tree \<Rightarrow> tree \<Rightarrow> bool" where
  "terminalPinned finalnode nodes scratch =
     (case (compFinalNode nodes finalnode, compFinalNode scratch finalnode) of
        (Some prior, Some after) \<Rightarrow> after = prior \<and> after \<in> set (compSinkNodeIds scratch)
      | _ \<Rightarrow> False)"

definition comp_invariants :: "string \<Rightarrow> tree \<Rightarrow> tree \<Rightarrow> bool" where
  "comp_invariants finalnode nodes scratch \<longleftrightarrow>
     sumWeights scratch = 10000 \<and> isAcyclic scratch \<and> compDepsRefsValid scratch \<and>
     compDepsAcyclic scratch \<and> terminalPinned finalnode nodes scratch"

definition comp_amend_step :: "comp_amend_ctx \<Rightarrow> fold_state \<Rightarrow> chain_event \<Rightarrow> fold_state option" where
  "comp_amend_step ctx st amend =
     (if below_gate (ev_height amend) (cm_hAct2 ctx) then Some (ignore_amend amend ''below_h_act2'' st)
      else if ev_author amend \<noteq> cm_rootAuthor ctx then Some (ignore_amend amend ''amend_not_publisher'' st)
      else if (case compFinalNode (fs_nodes st) (cm_finalnode ctx) of
                 None \<Rightarrow> False
               | Some f \<Rightarrow> satisfied (fs_nodes st) (cm_subs ctx) f (Some (orderKey amend)))
        then Some (ignore_amend amend ''amend_task_finalized'' st)
      else fold_commit (run_ops (comp_apply_op ctx (orderKey amend) (fs_nodes st)))
             (comp_invariants (cm_finalnode ctx) (fs_nodes st)) st amend)"

definition foldCompetitiveAmends :: "comp_amend_ctx \<Rightarrow> tree \<Rightarrow> chain_event list \<Rightarrow> fold_state option" where
  "foldCompetitiveAmends ctx initialNodes amends =
     fold_amends_with (comp_amend_step ctx) (fold_init (cm_treePinId ctx) initialNodes) amends"

end
