(* ===== verification/Settlement.thy ===== *)
theory Settlement
  imports CompOracle Steps
begin

text \<open>
  The settlement arithmetic of metatask/engine.ts that both modes share: the weight table
  (\<open>resolveNodeWeights\<close>), the Laplace-smoothed reviewer accuracy, the split of one node's weight
  between its submitter and its reviewers, and the sorted share list. All amounts are basis
  points, integers in the code as here; divisions round down and the residue is discarded.
  A weight table is keyed by the raw \<open>node.id\<close>, as the code's is.
\<close>

type_synonym weights = "(json option, int) jsmap"

section \<open>Weight table\<close>

text \<open>The weighted reading: \<open>None\<close> once a weight is not an integer of 1..10000.\<close>

fun tree_weights :: "json list \<Rightarrow> weights \<Rightarrow> int \<Rightarrow> (weights \<times> int) option" where
  "tree_weights [] ws acc = Some (ws, acc)"
| "tree_weights (node # ns) ws acc =
     (case int_in_range (jprop node ''weight'') 1 10000 of
        None \<Rightarrow> None
      | Some w \<Rightarrow> tree_weights ns (jset (jprop node ''id'') w ws) (acc + w))"

definition uniform_weight :: "nat \<Rightarrow> int" where
  "uniform_weight nodeCount = (if nodeCount > 0 then 10000 div int nodeCount else 0)"

definition resolveNodeWeights :: "tree \<Rightarrow> weights" where
  "resolveNodeWeights effectiveTree =
     (let uniform = foldl (\<lambda>ws nid. jset (Some (JStr nid)) (uniform_weight (length effectiveTree)) ws) []
            (map fst effectiveTree)
      in if effectiveTree = [] then uniform
         else (case tree_weights (map snd effectiveTree) [] 0 of
                 Some (ws, acc) \<Rightarrow> if acc = 10000 then ws else uniform
               | None \<Rightarrow> uniform))"

definition weightsTableJson :: "weights \<Rightarrow> json" where
  "weightsTableJson weights =
     JArr (map (\<lambda>(nid, w). JObj ((case nid of None \<Rightarrow> [] | Some i \<Rightarrow> [(''id'', i)]) @ [(''weight'', JNum (of_int w))]))
       (sort_key (\<lambda>(nid, _). js_string_opt nid) weights))"

section \<open>Reviewer accuracy\<close>

definition laplace :: "nat \<Rightarrow> nat \<Rightarrow> int" where
  "laplace correct terminal =
     min 10000 (max REVIEWER_ACCURACY_FLOOR_BP ((10000 * (int correct + 1)) div (int terminal + 2)))"

definition reviewerAccuracy :: "participant list \<Rightarrow> (string, int) jsmap" where
  "reviewerAccuracy participants =
     foldl (\<lambda>m stats. jset (pa_metaId stats) (laplace (pa_reviewCorrect stats) (pa_reviewTerminal stats)) m)
       [] participants"

section \<open>Shares\<close>

type_synonym parts = "(string, share_parts) jsmap"

definition partsOf :: "parts \<Rightarrow> string \<Rightarrow> share_parts" where
  "partsOf parts metaId = jget_or parts metaId \<lparr>sp_submittedBP = 0, sp_reviewedBP = 0\<rparr>"

text \<open>\<open>ensureShareParts(parts, metaId)\<close> followed by an addition to one column.\<close>

definition add_submitted :: "string \<Rightarrow> int \<Rightarrow> parts \<Rightarrow> parts" where
  "add_submitted metaId bp parts =
     (let p = partsOf parts metaId in jset metaId (p\<lparr>sp_submittedBP := sp_submittedBP p + bp\<rparr>) parts)"

definition add_reviewed :: "string \<Rightarrow> int \<Rightarrow> parts \<Rightarrow> parts" where
  "add_reviewed metaId bp parts =
     (let p = partsOf parts metaId in jset metaId (p\<lparr>sp_reviewedBP := sp_reviewedBP p + bp\<rparr>) parts)"

definition submitter_cut :: "int \<Rightarrow> rat \<Rightarrow> int" where
  "submitter_cut w sigma = \<lfloor>of_int w * sigma / 10000\<rfloor>"

text \<open>Reviewers share the pool in proportion to their accuracy, each part rounded down.\<close>

definition pay_reviewers :: "(string \<Rightarrow> int) \<Rightarrow> int \<Rightarrow> string list \<Rightarrow> parts \<Rightarrow> parts" where
  "pay_reviewers acc pool reviewers parts =
     (let accSum = foldl (\<lambda>s r. s + acc r) 0 reviewers in
      foldl (\<lambda>ps r. add_reviewed r ((pool * acc r) div accSum) ps) parts reviewers)"

text \<open>One paid node: the body of the settlement loop after its guards.\<close>

definition pay_node :: "rat \<Rightarrow> (string \<Rightarrow> int) \<Rightarrow> int \<Rightarrow> string \<Rightarrow> string list \<Rightarrow> parts \<Rightarrow> parts" where
  "pay_node sigma acc w author reviewers parts =
     (let subBP = submitter_cut w sigma;
          parts = add_submitted author subBP parts;
          pool = w - subBP
      in if reviewers = [] then add_submitted author pool parts
         else pay_reviewers acc pool reviewers parts)"

definition toShare :: "string \<Rightarrow> share_parts \<Rightarrow> share" where
  "toShare metaId p = \<lparr>sh_metaId = metaId, sh_shareBP = sp_submittedBP p + sp_reviewedBP p, sh_from = p\<rparr>"

definition sortShares :: "parts \<Rightarrow> share list" where
  "sortShares parts =
     sort_key (\<lambda>s. (- sh_shareBP s, sh_metaId s)) (map (\<lambda>(metaId, p). toShare metaId p) parts)"

section \<open>Conservation\<close>

definition part_total :: "share_parts \<Rightarrow> int" where
  "part_total p = sp_submittedBP p + sp_reviewedBP p"

definition total_paid :: "parts \<Rightarrow> int" where
  "total_paid parts = sum_list (map (\<lambda>(_, p). part_total p) parts)"

definition nonneg_parts :: "parts \<Rightarrow> bool" where
  "nonneg_parts parts \<longleftrightarrow> (\<forall>(_, p) \<in> set parts. 0 \<le> sp_submittedBP p \<and> 0 \<le> sp_reviewedBP p)"

lemma total_paid_jset:
  "total_paid (jset k p parts) = total_paid parts - (case jget parts k of None \<Rightarrow> 0 | Some q \<Rightarrow> part_total q) + part_total p"
  by (induction parts) (auto simp: total_paid_def)

lemma total_add_submitted [simp]: "total_paid (add_submitted r bp parts) = total_paid parts + bp"
  by (simp add: add_submitted_def Let_def total_paid_jset partsOf_def jget_or_def part_total_def split: option.splits)

lemma total_add_reviewed [simp]: "total_paid (add_reviewed r bp parts) = total_paid parts + bp"
  by (simp add: add_reviewed_def Let_def total_paid_jset partsOf_def jget_or_def part_total_def split: option.splits)

lemma nonneg_partsOf:
  "nonneg_parts parts \<Longrightarrow> 0 \<le> sp_submittedBP (partsOf parts r) \<and> 0 \<le> sp_reviewedBP (partsOf parts r)"
  by (auto simp: nonneg_parts_def partsOf_def jget_or_def split: option.splits dest!: map_of_SomeD)

lemma nonneg_jset: "nonneg_parts parts \<Longrightarrow> 0 \<le> sp_submittedBP p \<Longrightarrow> 0 \<le> sp_reviewedBP p \<Longrightarrow> nonneg_parts (jset k p parts)"
  unfolding nonneg_parts_def by (auto dest!: in_set_jsetD)

lemma nonneg_add_submitted [invs]: "nonneg_parts parts \<Longrightarrow> 0 \<le> bp \<Longrightarrow> nonneg_parts (add_submitted r bp parts)"
  using nonneg_partsOf [of parts r] by (auto simp: add_submitted_def Let_def intro!: nonneg_jset)

lemma nonneg_add_reviewed [invs]: "nonneg_parts parts \<Longrightarrow> 0 \<le> bp \<Longrightarrow> nonneg_parts (add_reviewed r bp parts)"
  using nonneg_partsOf [of parts r] by (auto simp: add_reviewed_def Let_def intro!: nonneg_jset)

lemma distinct_add_submitted [invs]: "distinct (map fst parts) \<Longrightarrow> distinct (map fst (add_submitted r bp parts))"
  by (auto simp: add_submitted_def Let_def intro: distinct_jset)

lemma distinct_add_reviewed [invs]: "distinct (map fst parts) \<Longrightarrow> distinct (map fst (add_reviewed r bp parts))"
  by (auto simp: add_reviewed_def Let_def intro: distinct_jset)

lemma foldl_plus_sum: "foldl (\<lambda>s r. s + (f r :: int)) a rs = a + sum_list (map f rs)"
  by (induction rs arbitrary: a) auto

lemma total_reviewers_foldl:
  "total_paid (foldl (\<lambda>ps r. add_reviewed r (f r) ps) parts rs) = total_paid parts + sum_list (map f rs)"
  by (induction rs arbitrary: parts) auto

text \<open>Proportional parts rounded down: never above the pool, and short by less than their number.\<close>

lemma sum_div_le:
  fixes p S :: int
  assumes "0 \<le> p" "0 < S" "\<forall>r \<in> set rs. 0 \<le> f r"
  shows "sum_list (map (\<lambda>r. (p * f r) div S) rs) * S \<le> p * sum_list (map f rs)"
    and "p * sum_list (map f rs) \<le> sum_list (map (\<lambda>r. (p * f r) div S) rs) * S + int (length rs) * (S - 1)"
proof -
  have s: "(p * x) div S * S \<le> p * x" "p * x \<le> (p * x) div S * S + (S - 1)" for x
    using assms(2) by (smt (verit) div_mult_mod_eq pos_mod_bound pos_mod_sign)+
  show "sum_list (map (\<lambda>r. (p * f r) div S) rs) * S \<le> p * sum_list (map f rs)"
  proof (induction rs)
    case (Cons a rs)
    then show ?case using s(1) [of "f a"] by (simp add: algebra_simps)
  qed simp
  show "p * sum_list (map f rs) \<le> sum_list (map (\<lambda>r. (p * f r) div S) rs) * S + int (length rs) * (S - 1)"
  proof (induction rs)
    case (Cons a rs)
    then show ?case using s(2) [of "f a"] by (simp add: algebra_simps)
  qed simp
qed

lemma laplace_bounds: "2500 \<le> laplace c t" "laplace c t \<le> 10000"
  by (simp_all add: laplace_def REVIEWER_ACCURACY_FLOOR_BP_def)

lemma submitter_cut_bounds:
  assumes "0 \<le> w" "0 \<le> sigma" "sigma \<le> 10000"
  shows "0 \<le> submitter_cut w sigma" "submitter_cut w sigma \<le> w"
proof -
  have "0 \<le> rat_of_int w * sigma / 10000" using assms by simp
  then show "0 \<le> submitter_cut w sigma" by (simp add: submitter_cut_def)
  have "rat_of_int w * sigma \<le> rat_of_int w * 10000" using assms by (intro mult_left_mono) auto
  then have "rat_of_int w * sigma / 10000 \<le> rat_of_int w" by simp
  then have "\<lfloor>rat_of_int w * sigma / 10000\<rfloor> \<le> \<lfloor>rat_of_int w\<rfloor>" by (rule floor_mono)
  then show "submitter_cut w sigma \<le> w" by (simp add: submitter_cut_def)
qed

lemma pay_reviewers_total:
  assumes pool: "0 \<le> pool" and pos: "\<forall>r \<in> set rs. 0 < acc r" and ne: "rs \<noteq> []"
  shows "total_paid (pay_reviewers acc pool rs parts) \<le> total_paid parts + pool"
    and "total_paid parts + pool < total_paid (pay_reviewers acc pool rs parts) + int (length rs)"
proof -
  let ?S = "sum_list (map acc rs)" and ?T = "sum_list (map (\<lambda>r. (pool * acc r) div sum_list (map acc rs)) rs)"
  have S: "0 < ?S"
    using pos ne by (induction rs) (force simp: sum_list_nonneg add_pos_nonneg)+
  have nn: "\<forall>r \<in> set rs. 0 \<le> acc r" using pos by force
  have eq: "total_paid (pay_reviewers acc pool rs parts) = total_paid parts + ?T"
    by (simp add: pay_reviewers_def foldl_plus_sum total_reviewers_foldl)
  have "?T * ?S \<le> pool * ?S" using sum_div_le(1) [OF pool S nn] by simp
  then show "total_paid (pay_reviewers acc pool rs parts) \<le> total_paid parts + pool"
    using S by (simp add: eq)
  have "pool * ?S \<le> ?T * ?S + int (length rs) * (?S - 1)" using sum_div_le(2) [OF pool S nn] by simp
  also have "\<dots> < (?T + int (length rs)) * ?S" using ne by (simp add: algebra_simps)
  finally have "pool * ?S < (?T + int (length rs)) * ?S" .
  then have "pool < ?T + int (length rs)" using S by simp
  then show "total_paid parts + pool < total_paid (pay_reviewers acc pool rs parts) + int (length rs)"
    by (simp add: eq)
qed

lemma pay_reviewers_nonneg:
  assumes "0 \<le> pool" "\<forall>r \<in> set rs. 0 < acc r" "nonneg_parts parts"
  shows "nonneg_parts (pay_reviewers acc pool rs parts)"
proof -
  have "0 \<le> sum_list (map acc rs)" using assms(2) by (intro sum_list_nonneg) force
  have nn: "0 \<le> (pool * acc r) div sum_list (map acc rs)" if "r \<in> set rs" for r
  proof -
    have "0 \<le> pool * acc r" using assms(1,2) that by (simp add: less_imp_le)
    then show ?thesis
      using \<open>0 \<le> sum_list (map acc rs)\<close> by (cases "sum_list (map acc rs) = 0") (simp_all add: pos_imp_zdiv_nonneg_iff)
  qed
  have "nonneg_parts (foldl (\<lambda>ps r. add_reviewed r ((pool * acc r) div sum_list (map acc rs)) ps) parts rs)"
    by (rule foldl_invariant [where P = nonneg_parts, OF assms(3)]) (rule nonneg_add_reviewed, simp_all add: nn)
  then show ?thesis by (simp add: pay_reviewers_def foldl_plus_sum)
qed

text \<open>A well-formed payment: the bounds of the split hold for its inputs.\<close>

definition payable :: "rat \<Rightarrow> (string \<Rightarrow> int) \<Rightarrow> int \<Rightarrow> string list \<Rightarrow> bool" where
  "payable sigma acc w reviewers \<longleftrightarrow> 0 \<le> w \<and> 0 \<le> sigma \<and> sigma \<le> 10000 \<and> (\<forall>r \<in> set reviewers. 0 < acc r)"

lemma pay_node_total:
  assumes "payable sigma acc w reviewers"
  shows "total_paid (pay_node sigma acc w author reviewers parts) \<le> total_paid parts + w"
    and "total_paid parts + w \<le> total_paid (pay_node sigma acc w author reviewers parts) + int (length reviewers)"
proof -
  have c: "0 \<le> submitter_cut w sigma" "submitter_cut w sigma \<le> w"
    using assms submitter_cut_bounds by (simp_all add: payable_def)
  have "total_paid (pay_node sigma acc w author reviewers parts) \<le> total_paid parts + w \<and>
    total_paid parts + w \<le> total_paid (pay_node sigma acc w author reviewers parts) + int (length reviewers)"
  proof (cases "reviewers = []")
    case True
    then show ?thesis by (simp add: pay_node_def Let_def)
  next
    case False
    have "0 \<le> w - submitter_cut w sigma" using c by simp
    from pay_reviewers_total [OF this _ False, of acc "add_submitted author (submitter_cut w sigma) parts"]
    show ?thesis using assms False by (auto simp: pay_node_def Let_def payable_def)
  qed
  then show "total_paid (pay_node sigma acc w author reviewers parts) \<le> total_paid parts + w"
    "total_paid parts + w \<le> total_paid (pay_node sigma acc w author reviewers parts) + int (length reviewers)"
    by simp_all
qed

lemma pay_node_nonneg [invs]:
  assumes "payable sigma acc w reviewers" "nonneg_parts parts"
  shows "nonneg_parts (pay_node sigma acc w author reviewers parts)"
proof -
  have c: "0 \<le> submitter_cut w sigma" "submitter_cut w sigma \<le> w"
    using assms submitter_cut_bounds by (simp_all add: payable_def)
  then have "nonneg_parts (add_submitted author (submitter_cut w sigma) parts)"
    using assms(2) by (intro nonneg_add_submitted)
  then show ?thesis using assms(1) c
    by (auto simp: pay_node_def Let_def payable_def intro!: nonneg_add_submitted pay_reviewers_nonneg)
qed

lemma pay_node_distinct [invs]:
  "distinct (map fst parts) \<Longrightarrow> distinct (map fst (pay_node sigma acc w author reviewers parts))"
  unfolding pay_node_def pay_reviewers_def Let_def
  by (auto intro!: foldl_invariant [where P = "\<lambda>ps. distinct (map fst ps)"] distinct_add_submitted distinct_add_reviewed)

section \<open>The weight table never exceeds the task\<close>

lemma int_in_range_SomeD: "int_in_range v lo hi = Some w \<Longrightarrow> lo \<le> w \<and> w \<le> hi"
  by (auto simp: int_in_range_def split: option.splits json.splits if_splits)

definition good_weights :: "weights \<Rightarrow> int \<Rightarrow> bool" where
  "good_weights ws bound \<longleftrightarrow> (\<forall>x \<in> set ws. 0 \<le> snd x) \<and> distinct (map fst ws) \<and> sum_list (map snd ws) \<le> bound"

lemma good_weights_jset:
  "good_weights ws b \<Longrightarrow> 0 \<le> u \<Longrightarrow> good_weights (jset k u ws) (b + u)"
  using sum_list_jset_le [of ws k u]
  by (auto simp: good_weights_def dest!: in_set_jsetD intro: distinct_jset)

lemma tree_weights_good:
  assumes "tree_weights ns ws acc = Some (ws', acc')" "good_weights ws acc"
  shows "good_weights ws' acc'"
  using assms
proof (induction ns arbitrary: ws acc)
  case (Cons node ns)
  obtain w where w: "int_in_range (jprop node ''weight'') 1 10000 = Some w"
    using Cons.prems(1) by (auto split: option.splits)
  then have "tree_weights ns (jset (jprop node ''id'') w ws) (acc + w) = Some (ws', acc')"
    using Cons.prems(1) by simp
  moreover have "good_weights (jset (jprop node ''id'') w ws) (acc + w)"
    using int_in_range_SomeD [OF w] by (intro good_weights_jset [OF Cons.prems(2)]) simp
  ultimately show ?case by (rule Cons.IH)
qed simp

lemma uniform_good:
  assumes "0 \<le> u" "good_weights ws b"
  shows "good_weights (foldl (\<lambda>ws nid. jset (Some (JStr nid)) u ws) ws nids) (b + u * int (length nids))"
  using assms(2)
proof (induction nids arbitrary: ws b)
  case (Cons a nids)
  from Cons.IH [OF good_weights_jset [OF Cons.prems assms(1)]]
  show ?case by (simp add: algebra_simps)
qed simp

lemma resolveNodeWeights_good: "good_weights (resolveNodeWeights tr) 10000"
proof -
  let ?u = "uniform_weight (length tr)"
  have u: "0 \<le> ?u \<and> ?u * int (length tr) \<le> 10000"
  proof (cases "length tr > 0")
    case True
    then have l: "0 < int (length tr)" by simp
    have "0 \<le> 10000 div int (length tr)" using pos_imp_zdiv_nonneg_iff [OF l, of 10000] by simp
    moreover have "10000 div int (length tr) * int (length tr) \<le> 10000"
      using div_mult_mod_eq [of 10000 "int (length tr)"] pos_mod_sign [OF l, of 10000] by linarith
    ultimately show ?thesis by (simp add: uniform_weight_def)
  qed (simp add: uniform_weight_def)
  then have u0: "0 \<le> ?u" by simp
  have "good_weights [] 0" by (simp add: good_weights_def)
  from uniform_good [OF u0 this, of "map fst tr"]
  have uni: "good_weights (foldl (\<lambda>ws nid. jset (Some (JStr nid)) ?u ws) [] (map fst tr)) 10000"
    using u by (auto simp: good_weights_def)
  show ?thesis
  proof (cases "tr \<noteq> [] \<and> (\<exists>ws. tree_weights (map snd tr) [] 0 = Some (ws, 10000))")
    case True
    then obtain ws where ws: "tree_weights (map snd tr) [] 0 = Some (ws, 10000)" by blast
    then have "good_weights ws 10000" by (rule tree_weights_good) (simp add: good_weights_def)
    then show ?thesis using True ws by (simp add: resolveNodeWeights_def Let_def)
  next
    case False
    then have "resolveNodeWeights tr = foldl (\<lambda>ws nid. jset (Some (JStr nid)) ?u ws) [] (map fst tr)"
      by (auto simp: resolveNodeWeights_def Let_def split: option.splits prod.splits)
    then show ?thesis using uni by simp
  qed
qed

text \<open>Looking up distinct keys collects at most the table's sum.\<close>

lemma lookup_sum_le:
  assumes "distinct ks" "distinct (map fst ws)" "\<forall>x \<in> set ws. (0::int) \<le> snd x"
  shows "sum_list (map (\<lambda>k. jget_or ws k 0) ks) \<le> sum_list (map snd ws)"
  using assms(2,3,1)
proof (induction ws arbitrary: ks)
  case Nil
  then show ?case by (simp add: jget_or_def)
next
  case (Cons x ws)
  obtain k w where x: "x = (k, w)" by (cases x)
  have split: "sum_list (map (\<lambda>j. jget_or (x # ws) j 0) js) \<le>
      (if k \<in> set js then w else 0) + sum_list (map (\<lambda>j. jget_or ws j 0) js)" if "distinct js" for js
    using that Cons.prems(2)
  proof (induction js)
    case (Cons j js)
    have "0 \<le> jget_or ws j 0" using Cons.prems(2) by (auto simp: jget_or_def dest!: map_of_SomeD split: option.splits)
    then show ?case using Cons by (auto simp: x jget_or_def split: if_splits)
  qed simp
  show ?case
    using split [OF Cons.prems(3)] Cons.IH [OF _ _ Cons.prems(3)] Cons.prems(1,2)
    by (auto simp: x split: if_splits)
qed

end
