(* ===== verification/NodeViews.thy ===== *)
theory NodeViews
  imports Settlement Votes
begin

text \<open>
  What the two replay modes of metatask/engine.ts share around the node states: the context
  that the front half of \<open>replayMetaTask\<close> hands to them, the initial tree, the ignored-event
  list, the challenge loop, the participant statistics, the vote summaries of a node and the
  fields of a node projection that come from the tree.
\<close>

record replay_ctx =
  rc_byPath :: by_path
  rc_taskSet :: task_event_set
  rc_policy :: "json option"
  rc_quorum :: rat
  rc_ttlHours :: rat
  rc_windowHours :: rat
  rc_challengeTtlDays :: rat
  rc_split :: "json option" \<comment> \<open>\<open>None\<close> for null\<close>
  rc_submitterShareBP :: rat
  rc_hAct2 :: "int option"
  rc_now :: "int option"
  rc_evaluatedAtMs :: int
  rc_submissionAuthor :: "(string, string) jsmap"
  rc_submissionBody :: "(string, body) jsmap"
  rc_votesByTarget :: "(string, vote_record list) jsmap"
  rc_lastVoteByPin :: "(string, vote_record) jsmap"
  rc_ignored :: ignored

abbreviation rc_rootPinId :: "replay_ctx \<Rightarrow> string" where
  "rc_rootPinId ctx \<equiv> ev_pinId (ts_rootPin (rc_taskSet ctx))"

abbreviation rc_rootAuthor :: "replay_ctx \<Rightarrow> string" where
  "rc_rootAuthor ctx \<equiv> ts_rootAuthor (rc_taskSet ctx)"

section \<open>The published tree and the ignored list\<close>

definition initialTreeBody :: "replay_ctx \<Rightarrow> body option" where
  "initialTreeBody ctx = map_option ev_body (ts_treePin (rc_taskSet ctx))"

definition initialNodesOf :: "body option \<Rightarrow> tree" where
  "initialNodesOf initialTree =
     (case initialTree of
        None \<Rightarrow> []
      | Some tb \<Rightarrow>
          foldl (\<lambda>m raw. if is_object (Some raw) then jset (js_string_opt (jprop raw ''id'')) raw m else m)
            [] (arr_or_empty (jget tb ''nodes'')))"

definition taskAmends :: "replay_ctx \<Rightarrow> chain_event list" where
  "taskAmends ctx =
     filter (\<lambda>p. body_str p ''taskid'' = rc_rootPinId ctx) (pathList (rc_byPath ctx) ''amend'')"

definition markIgnored :: "string \<Rightarrow> string \<Rightarrow> ignored \<Rightarrow> ignored" where
  "markIgnored pinId reason ign = (if pinId \<in> fst ` set ign then ign else ign @ [(pinId, reason)])"

section \<open>Challenges\<close>

record open_challenge =
  oc_pinId :: string
  oc_node :: string
  oc_author :: string
  oc_target :: string

type_synonym challenge_state = "ignored \<times> (string, open_challenge) jsmap"

definition challengeExpired :: "replay_ctx \<Rightarrow> chain_event \<Rightarrow> bool" where
  "challengeExpired ctx ch =
     (case rc_now ctx of
        None \<Rightarrow> False
      | Some now \<Rightarrow>
          ev_timestampMs ch > 0 \<and>
          of_int (now - ev_timestampMs ch) > rc_challengeTtlDays ctx * 86400000)"

text \<open>One pin of the loop; \<open>nodeOf\<close> is the mode's reading of "the target is live": the node of
  the active cycle that the target anchors (tree), or of a chain-valid submission (competitive).\<close>

definition challengeStep ::
  "replay_ctx \<Rightarrow> (string \<Rightarrow> string option) \<Rightarrow> challenge_state \<Rightarrow> chain_event \<Rightarrow> challenge_state" where
  "challengeStep ctx nodeOf st ch =
     (case st of (ign, openChallenges) \<Rightarrow>
        let target = body_str ch ''targetid'';
            submitter = jget_or (rc_submissionAuthor ctx) target '''';
            key = target @ '' '' @ ev_author ch
        in if below_gate (ev_height ch) (rc_hAct2 ctx) then (ign @ [(ev_pinId ch, ''below_h_act2'')], openChallenges)
           else if ev_author ch = submitter \<or> ev_author ch = rc_rootAuthor ctx \<or>
                   \<not> truthyStr (body_get ch ''evidence'')
             then (ign @ [(ev_pinId ch, ''challenge_gate_failed'')], openChallenges)
           else if js_truthy (body_get ch ''withdraw'')
             then (ign, filter (\<lambda>(_, oc). \<not> (oc_author oc = ev_author ch \<and> oc_target oc = target)) openChallenges)
           else if jhas openChallenges key
             then (ign @ [(ev_pinId ch, ''duplicate_open_challenge'')], openChallenges)
           else (case nodeOf target of
                   None \<Rightarrow> (ign @ [(ev_pinId ch, ''target_not_active_verified'')], openChallenges)
                 | Some node \<Rightarrow>
                     if challengeExpired ctx ch then (ign @ [(ev_pinId ch, ''challenge_expired'')], openChallenges)
                     else (ign, jset key \<lparr>oc_pinId = ev_pinId ch, oc_node = node,
                             oc_author = ev_author ch, oc_target = target\<rparr> openChallenges)))"

definition challengeLoop :: "replay_ctx \<Rightarrow> (string \<Rightarrow> string option) \<Rightarrow> ignored \<Rightarrow> challenge_state" where
  "challengeLoop ctx nodeOf ign =
     (case rc_hAct2 ctx of
        None \<Rightarrow> (ign, [])
      | Some _ \<Rightarrow>
          foldl (challengeStep ctx nodeOf) (ign, [])
            (filter (\<lambda>p. body_str p ''targetid'' \<in> set (ts_knownTargets (rc_taskSet ctx)))
              (pathList (rc_byPath ctx) ''challenge'')))"

section \<open>Participants\<close>

type_synonym stats = "(string, participant) jsmap"

definition newStats :: "string \<Rightarrow> participant" where
  "newStats metaId = \<lparr>pa_metaId = metaId, pa_effectiveClaims = 0, pa_submissions = 0,
     pa_verifiedContrib = 0, pa_reviewVotes = 0, pa_reviewCorrect = 0, pa_reviewTerminal = 0\<rparr>"

text \<open>\<open>bump(metaId)\<close> and the change of one counter on the record it returns.\<close>

definition bump :: "string \<Rightarrow> (participant \<Rightarrow> participant) \<Rightarrow> stats \<Rightarrow> stats" where
  "bump metaId upd participants =
     jset metaId (upd (jget_or participants metaId (newStats metaId))) participants"

definition sortParticipants :: "stats \<Rightarrow> participant list" where
  "sortParticipants participants =
     sort_key (\<lambda>p. (- int (pa_verifiedContrib p), pa_metaId p)) (map snd participants)"

text \<open>The accuracy input of one resolved submission: the counted votes and whether each was right.\<close>

definition bumpReview :: "(vote_record \<Rightarrow> bool) \<Rightarrow> stats \<Rightarrow> vote_record \<Rightarrow> stats" where
  "bumpReview correct participants v =
     bump (vr_bot v) (\<lambda>s. s\<lparr>pa_reviewTerminal := pa_reviewTerminal s + 1,
        pa_reviewCorrect := pa_reviewCorrect s + (if correct v then 1 else 0)\<rparr>) participants"

section \<open>Votes of a submission\<close>

definition identityOk :: "string \<Rightarrow> string \<Rightarrow> vote_record \<Rightarrow> bool" where
  "identityOk rootAuthor author v \<longleftrightarrow> vr_bot v \<noteq> author \<and> vr_bot v \<noteq> rootAuthor"

definition str_or_null :: "json option \<Rightarrow> string option" where
  "str_or_null v = (let s = asStr v '''' in if s = '''' then None else Some s)"

definition toVoteSummary :: "string \<Rightarrow> string \<Rightarrow> vote_record \<Rightarrow> vote_summary" where
  "toVoteSummary rootAuthor author v =
     \<lparr>vs_voter = vr_bot v, vs_verdict = asStr (jget (vr_body v) ''verdict'') ''invalid'',
      vs_pinId = vr_pinId v, vs_counted = identityOk rootAuthor author v,
      vs_ignoreReason = (if identityOk rootAuthor author v then None else Some ''identity_conflict''),
      vs_semanticCheck = truthyStr (jget (vr_body v) ''semantic_check''),
      vs_failreason = truthyStr (jget (vr_body v) ''failreason''),
      vs_targetid = vr_target v, vs_height = vr_height v, vs_timestampMs = vr_timestampMs v,
      vs_failreasonText = str_or_null (jget (vr_body v) ''failreason''),
      vs_semanticCheckText = str_or_null (jget (vr_body v) ''semantic_check'')\<rparr>"

definition votesOn :: "replay_ctx \<Rightarrow> string \<Rightarrow> vote_record list" where
  "votesOn ctx pinId = jget_or (rc_votesByTarget ctx) pinId []"

text \<open>Passes are identity-filtered, fails are not.\<close>

definition passVotesOn :: "replay_ctx \<Rightarrow> string \<Rightarrow> string \<Rightarrow> nat" where
  "passVotesOn ctx pinId author =
     length (filter (\<lambda>v. is_pass v \<and> identityOk (rc_rootAuthor ctx) author v) (votesOn ctx pinId))"

definition failVotesOn :: "replay_ctx \<Rightarrow> string \<Rightarrow> nat" where
  "failVotesOn ctx pinId = length (filter is_fail (votesOn ctx pinId))"

definition voteListOn :: "replay_ctx \<Rightarrow> string \<Rightarrow> string \<Rightarrow> vote_summary list" where
  "voteListOn ctx pinId author = map (toVoteSummary (rc_rootAuthor ctx) author) (votesOn ctx pinId)"

text \<open>The paid reviewers of a submission: its counted pass voters, in vote order.\<close>

definition reviewersOf :: "replay_ctx \<Rightarrow> string \<Rightarrow> string \<Rightarrow> string list" where
  "reviewersOf ctx pinId author =
     map vr_bot (filter (\<lambda>v. is_pass v \<and> identityOk (rc_rootAuthor ctx) author v) (votesOn ctx pinId))"

section \<open>Submission bodies and tree fields\<close>

definition submissionField :: "replay_ctx \<Rightarrow> string \<Rightarrow> string \<Rightarrow> json option" where
  "submissionField ctx pinId k = (case jget (rc_submissionBody ctx) pinId of None \<Rightarrow> None | Some b \<Rightarrow> jget b k)"

definition plain_object :: "json option \<Rightarrow> body option" where
  "plain_object v = (case v of Some (JObj kv) \<Rightarrow> Some kv | _ \<Rightarrow> None)"

definition submissionView :: "replay_ctx \<Rightarrow> string \<Rightarrow> string \<Rightarrow> int \<Rightarrow> body option option \<Rightarrow> submission_view" where
  "submissionView ctx pinId author atMs refs =
     \<lparr>sv_pinId = pinId, sv_submitter = author, sv_atMs = atMs, sv_superseded = False,
      sv_result = plain_object (submissionField ctx pinId ''result''),
      sv_hash = str_or_null (submissionField ctx pinId ''hash''),
      sv_contentType = str_or_null (submissionField ctx pinId ''contentType''),
      sv_attachment = str_or_null (submissionField ctx pinId ''attachment''),
      sv_parentrefs = refs\<rparr>"

definition field_or :: "json option \<Rightarrow> string \<Rightarrow> json \<Rightarrow> json" where
  "field_or treeRec k d = or_null (nullish (jopt treeRec k) (Some d))"

definition nodeBase :: "tree \<Rightarrow> string \<Rightarrow> node_status \<Rightarrow> bool \<Rightarrow> node_projection" where
  "nodeBase tr node status disputed =
     (let rec = jget tr node in
      \<lparr>np_id = node,
       np_parent = field_or rec ''parent'' JNull,
       np_title = field_or rec ''title'' (JStr node),
       np_kind = field_or rec ''kind'' (JStr ''proof''),
       np_weight = field_or rec ''weight'' JNull,
       np_params = (if is_object (jopt rec ''params'') then or_null (jopt rec ''params'') else JNull),
       np_specid = field_or rec ''specid'' JNull,
       np_deps = compDepsOf tr node,
       np_status = status, np_disputed = disputed, np_holder = None, np_submission = None,
       np_submissions = None, np_passVotes = 0, np_failVotes = 0, np_votes = [], np_cycleCount = 0\<rparr>)"

text \<open>Nodes are listed by the length of the id, then by the id.\<close>

definition nodeSort :: "string list \<Rightarrow> string list" where
  "nodeSort nodes = sort_key (\<lambda>n. (length n, n)) nodes"

text \<open>One node's contribution to the counters.\<close>

definition countNode :: "node_status \<Rightarrow> bool \<Rightarrow> progress \<Rightarrow> progress" where
  "countNode status disputed p =
     (let p = p\<lparr>pr_total := pr_total p + 1,
                pr_disputed := pr_disputed p + (if disputed then 1 else 0)\<rparr>
      in case status of
           StVerified \<Rightarrow> p\<lparr>pr_verified := pr_verified p + 1, pr_satisfied := pr_satisfied p + 1\<rparr>
         | StClaimed \<Rightarrow> p\<lparr>pr_claimed := pr_claimed p + 1\<rparr>
         | StOpen \<Rightarrow> p\<lparr>pr_open := pr_open p + 1\<rparr>)"

definition noProgress :: progress where
  "noProgress = \<lparr>pr_total = 0, pr_verified = 0, pr_claimed = 0, pr_open = 0, pr_disputed = 0, pr_satisfied = 0\<rparr>"

section \<open>The projection around the nodes\<close>

definition lastActivity :: "task_event_set \<Rightarrow> int" where
  "lastActivity ts = foldl (\<lambda>m pin. if ev_timestampMs pin > m then ev_timestampMs pin else m) 0
     (map snd (ts_scopedByPin ts))"

definition policyView :: "replay_ctx \<Rightarrow> string \<Rightarrow> policy_view" where
  "policyView ctx mode =
     \<lparr>po_claimTtlHours = rc_ttlHours ctx, po_verifyQuorum = rc_quorum ctx,
      po_verifyWindowHours = rc_windowHours ctx,
      po_rewardSat = asNum (jopt (rc_policy ctx) ''reward_sat'') 0,
      po_challengeTtlDays = rc_challengeTtlDays ctx,
      po_hasSplit = js_truthy (rc_split ctx),
      po_rosterid = field_or (rc_split ctx) ''rosterid'' JNull,
      po_submitterShareBP = rc_submitterShareBP ctx,
      po_mode = mode,
      po_finalNode = str_or_null (jopt (rc_policy ctx) ''finalnode'')\<rparr>"

definition projectionOf ::
  "(string \<Rightarrow> string) \<Rightarrow> replay_ctx \<Rightarrow> string \<Rightarrow> tree \<Rightarrow> string \<Rightarrow> (string, node_projection) jsmap \<Rightarrow>
   progress \<Rightarrow> bool \<Rightarrow> stats \<Rightarrow> settlement option \<Rightarrow> bool \<Rightarrow> ignored \<Rightarrow> task_projection" where
  "projectionOf sha ctx mode effectiveTree amendHead nodeStates prog taskComplete participants settled expiryApplied ign =
     (let ts = rc_taskSet ctx; taskBody = ts_taskBody ts in
      \<lparr>tp_rootPinId = rc_rootPinId ctx,
       tp_title = asStr (jget taskBody ''title'') (rc_rootPinId ctx),
       tp_brief = asStr (jget taskBody ''brief'') '''',
       tp_publisher = ts_rootAuthor ts,
       tp_tags = str_items (arr_or_empty (jget taskBody ''tags'')),
       tp_policy = policyView ctx mode,
       tp_nodes = map snd effectiveTree,
       tp_amendHead = amendHead,
       tp_nodeStates = nodeStates,
       tp_progress = prog,
       tp_taskComplete = taskComplete,
       tp_participants = sortParticipants participants,
       tp_settlement = settled,
       tp_lastActivityMs = lastActivity ts,
       tp_freshness = \<lparr>fr_boundaryBlock = ts_boundaryBlock ts, fr_evaluatedAtMs = rc_evaluatedAtMs ctx,
         fr_eventCount = length (ts_scopedByPin ts), fr_eventSetHash = eventSetHashOf sha ts,
         fr_expiryApplied = expiryApplied\<rparr>,
       tp_ignoredEvents = ign\<rparr>)"

section \<open>Settlement of the paid submissions\<close>

text \<open>The share loop over (node, submission, author), and the manifest around its result.\<close>

definition settleNode ::
  "replay_ctx \<Rightarrow> weights \<Rightarrow> (string, int) jsmap \<Rightarrow> parts \<Rightarrow> string \<times> string \<times> string \<Rightarrow> parts" where
  "settleNode ctx weights accuracy parts entry =
     (case entry of (node, pinId, author) \<Rightarrow>
        let w = jget_or weights (Some (JStr node)) 0 in
        if w \<le> 0 then parts
        else pay_node (rc_submitterShareBP ctx) (\<lambda>r. jget_or accuracy r REVIEWER_ACCURACY_FLOOR_BP) w author
               (reviewersOf ctx pinId author) parts)"

definition settleNodes :: "replay_ctx \<Rightarrow> weights \<Rightarrow> (string, int) jsmap \<Rightarrow> (string \<times> string \<times> string) list \<Rightarrow> parts" where
  "settleNodes ctx weights accuracy paid = foldl (settleNode ctx weights accuracy) [] paid"

definition settleTask ::
  "(string \<Rightarrow> string) \<Rightarrow> replay_ctx \<Rightarrow> tree \<Rightarrow> stats \<Rightarrow> (string \<times> string \<times> string) list \<Rightarrow> unpaid list \<Rightarrow>
   string \<Rightarrow> string option \<Rightarrow> string list option \<Rightarrow> settlement" where
  "settleTask sha ctx effectiveTree participants paid unpaidHistory version mode chain =
     (let weights = resolveNodeWeights effectiveTree in
      \<lparr>se_taskid = rc_rootPinId ctx,
       se_boundaryBlock = ts_boundaryBlock (rc_taskSet ctx),
       se_eventSetHash = eventSetHashOf sha (rc_taskSet ctx),
       se_engineAlgoVersion = version,
       se_shares = sortShares (settleNodes ctx weights (reviewerAccuracy (map snd participants)) paid),
       se_unpaidHistory = unpaidHistory,
       se_disputed = [],
       se_weightsTableHash = sha (canonJ (weightsTableJson weights)),
       se_mode = mode,
       se_winningChain = chain\<rparr>)"

end
