(* ===== verification/TreeReplay.thy ===== *)
theory TreeReplay
  imports TreeWalk NodeViews
begin

text \<open>
  Tree mode from the walk to the projection: the vote-level verified set, the amend fold, the
  effective-tree filter, the aggregation precondition (\<open>finalVerified\<close>), challenges, node states,
  participant statistics and settlement. \<open>treeReplay\<close> composes the stages as the second half of
  \<open>replayMetaTask\<close> does; \<open>None\<close> is a replay that does not return (a \<open>remove_node\<close> on a tree with
  a parent cycle).
\<close>

section \<open>Walk, expiry and fold\<close>

definition treeWalkCtx :: "replay_ctx \<Rightarrow> walk_ctx" where
  "treeWalkCtx ctx =
     \<lparr>wc_quorum = rc_quorum ctx, wc_rootAuthor = rc_rootAuthor ctx, wc_hAct2 = rc_hAct2 ctx,
      wc_lastVoteByPin = rc_lastVoteByPin ctx, wc_submissionAuthor = rc_submissionAuthor ctx\<rparr>"

definition treeWalked :: "replay_ctx \<Rightarrow> walk_state" where
  "treeWalked ctx =
     treeWalk (treeWalkCtx ctx) (walk_init (rc_ignored ctx))
       (treeTimeline (rc_byPath ctx) (rc_taskSet ctx) (rc_lastVoteByPin ctx))"

definition verifiedNodeIdsOf :: "walk_state \<Rightarrow> string list" where
  "verifiedNodeIdsOf st =
     map fst (filter (\<lambda>(_, cycle). case cy_effective cycle of
                          None \<Rightarrow> False | Some eff \<Rightarrow> ef_pinId eff \<in> set (wk_verifiedPins st))
                (activeCycleByNodeOf (wk_cycles st)))"

definition treeAmendCtx :: "replay_ctx \<Rightarrow> walk_state \<Rightarrow> amend_ctx" where
  "treeAmendCtx ctx st =
     (let root = (case initialTreeBody ctx of None \<Rightarrow> None | Some tb \<Rightarrow> jget tb ''root'') in
      \<lparr>am_rootAuthor = rc_rootAuthor ctx,
       am_treePinId = ts_treePinId (rc_taskSet ctx),
       am_firstClaimOrder = wk_firstClaimOrder st,
       am_verifiedNodeIds = verifiedNodeIdsOf st,
       am_activeCycleNodeIds = map fst (wk_holders st),
       am_rootVerified = js_truthy root \<and> asStr root '''' \<in> set (verifiedNodeIdsOf st),
       am_hAct2 = rc_hAct2 ctx\<rparr>)"

section \<open>Effective-tree filter\<close>

text \<open>Holders and cycles on nodes outside the effective tree go, and their pins are recorded.\<close>

definition filterHolders :: "tree \<Rightarrow> walk_state \<Rightarrow> walk_state" where
  "filterHolders effectiveTree st =
     foldl (\<lambda>s (node, holder).
        if jhas effectiveTree node then s
        else (drop_lock node s)\<lparr>wk_ignored := markIgnored (ho_pinId holder) ''unknown_node'' (wk_ignored s)\<rparr>)
       st (wk_holders st)"

definition filterCycles :: "tree \<Rightarrow> walk_state \<Rightarrow> walk_state" where
  "filterCycles effectiveTree st =
     foldl (\<lambda>s (key, cycle).
        if jhas effectiveTree (cy_node cycle) then s
        else s\<lparr>wk_cycles := jdel key (wk_cycles s),
               wk_ignored := foldl (\<lambda>ign sub. markIgnored (cs_pinId sub) ''unknown_node'' ign)
                 (markIgnored (cy_claimId cycle) ''unknown_node'' (wk_ignored s)) (cy_submissions cycle)\<rparr>)
       st (wk_cycles st)"

section \<open>Aggregation precondition\<close>

definition childrenOf :: "tree \<Rightarrow> string \<Rightarrow> json option list" where
  "childrenOf effectiveTree node =
     map (\<lambda>(_, nd). jprop nd ''id'') (filter (\<lambda>(_, nd). jprop nd ''parent'' = Some (JStr node)) effectiveTree)"

definition heightOfEffective :: "(string, cycle_record) jsmap \<Rightarrow> string \<Rightarrow> int" where
  "heightOfEffective active node =
     (case jget active node of
        None \<Rightarrow> -1
      | Some cycle \<Rightarrow>
          (case cy_effective cycle of
             None \<Rightarrow> -1
           | Some eff \<Rightarrow>
               (case find (\<lambda>s. cs_pinId s = ef_pinId eff) (cy_submissions cycle) of
                  None \<Rightarrow> -1 | Some s \<Rightarrow> cs_height s)))"

definition effectiveOf :: "(string, cycle_record) jsmap \<Rightarrow> string \<Rightarrow> effective_submission option" where
  "effectiveOf active node = (case jget active node of None \<Rightarrow> None | Some cycle \<Rightarrow> cy_effective cycle)"

text \<open>The children are checked when there are some and the parent's submission is at H_ACT2.\<close>

definition aggregates :: "replay_ctx \<Rightarrow> (string, cycle_record) jsmap \<Rightarrow> tree \<Rightarrow> string \<Rightarrow> bool" where
  "aggregates ctx active effectiveTree node \<longleftrightarrow>
     childrenOf effectiveTree node \<noteq> [] \<and> \<not> below_gate (heightOfEffective active node) (rc_hAct2 ctx)"

fun str_ids :: "json option list \<Rightarrow> string list" where
  "str_ids [] = []"
| "str_ids (Some (JStr s) # xs) = s # str_ids xs"
| "str_ids (_ # xs) = str_ids xs"

definition childPinsOf :: "(string, cycle_record) jsmap \<Rightarrow> tree \<Rightarrow> string \<Rightarrow> string list" where
  "childPinsOf active effectiveTree node =
     concat (map (\<lambda>child. case effectiveOf active child of None \<Rightarrow> [] | Some eff \<Rightarrow> [ef_pinId eff])
       (str_ids (childrenOf effectiveTree node)))"

definition arr_field :: "json option \<Rightarrow> json list option" where
  "arr_field v = (case v of Some (JArr xs) \<Rightarrow> Some xs | _ \<Rightarrow> None)"

text \<open>\<open>===\<close> on array items: equal primitives; two parsed objects are never the same object.\<close>

definition same_item :: "json \<Rightarrow> json \<Rightarrow> bool" where
  "same_item a b \<longleftrightarrow> a = b \<and> \<not> is_object (Some a)"

definition mirrorOk :: "json list option \<Rightarrow> json list option \<Rightarrow> bool" where
  "mirrorOk topIds res =
     (case (topIds, res) of
        (Some t, Some r) \<Rightarrow> length t = length r \<and> list_all (\<lambda>(a, b). same_item a b) (zip t r)
      | _ \<Rightarrow> True)"

definition childidsOk :: "replay_ctx \<Rightarrow> string \<Rightarrow> string list \<Rightarrow> bool" where
  "childidsOk ctx pinId childPins =
     (let topIds = arr_field (submissionField ctx pinId ''childids'');
          res = arr_field (jopt (submissionField ctx pinId ''result'') ''childids'');
          canonical = (case res of Some r \<Rightarrow> r | None \<Rightarrow> (case topIds of Some t \<Rightarrow> t | None \<Rightarrow> []));
          listed = str_items canonical
      in mirrorOk topIds res \<and>
         length (remdups listed) = length (remdups childPins) \<and>
         list_all (\<lambda>pin. pin \<in> set listed) childPins)"

text \<open>The node's own condition and the nodes it goes on to, of the memoised recursion. The code
  collects \<open>childPins\<close> while it visits; all of them are there when the visits succeed.\<close>

definition final_ok :: "replay_ctx \<Rightarrow> (string, cycle_record) jsmap \<Rightarrow> tree \<Rightarrow> string \<Rightarrow> bool" where
  "final_ok ctx active effectiveTree node =
     (case jget active node of
        None \<Rightarrow> False
      | Some cycle \<Rightarrow>
          (case cy_effective cycle of
             None \<Rightarrow> False
           | Some eff \<Rightarrow>
               cy_outcome cycle = Verified \<and>
               (aggregates ctx active effectiveTree node \<longrightarrow>
                  childidsOk ctx (ef_pinId eff) (childPinsOf active effectiveTree node))))"

definition final_succs :: "replay_ctx \<Rightarrow> (string, cycle_record) jsmap \<Rightarrow> tree \<Rightarrow> string \<Rightarrow> string option list" where
  "final_succs ctx active effectiveTree node =
     (if aggregates ctx active effectiveTree node
      then map (\<lambda>child. case child of Some (JStr s) \<Rightarrow> Some s | _ \<Rightarrow> None) (childrenOf effectiveTree node)
      else [])"

definition finalVerified :: "replay_ctx \<Rightarrow> (string, cycle_record) jsmap \<Rightarrow> tree \<Rightarrow> string \<Rightarrow> bool" where
  "finalVerified ctx active effectiveTree node =
     memo_run (Suc (length effectiveTree)) (final_ok ctx active effectiveTree) (final_succs ctx active effectiveTree) node"

section \<open>Node states\<close>

text \<open>The task after the fold and the filter, over which the projection is computed.\<close>

record tree_view =
  tv_tree :: tree
  tv_head :: string
  tv_holders :: "(string, holder) jsmap"
  tv_cycles :: "(string, cycle_record) jsmap"
  tv_active :: "(string, cycle_record) jsmap"
  tv_effectiveClaims :: "(string \<times> string) list"
  tv_finalVerified :: "string list"
  tv_ignored :: ignored

definition treeViewOf :: "replay_ctx \<Rightarrow> tree_view option" where
  "treeViewOf ctx =
     (let walked = treeWalked ctx;
          active = activeCycleByNodeOf (wk_cycles walked);
          st = expiryPass (rc_quorum ctx) (rc_ttlHours ctx) (rc_windowHours ctx) (rc_now ctx) walked
      in case foldAmends (treeAmendCtx ctx st) (initialNodesOf (initialTreeBody ctx)) (taskAmends ctx) of
           None \<Rightarrow> None
         | Some folded \<Rightarrow>
             (let tr = fs_nodes folded;
                  st = st\<lparr>wk_ignored := wk_ignored st @ fs_ignored folded\<rparr>;
                  st = filterCycles tr (filterHolders tr st)
              in Some \<lparr>tv_tree = tr, tv_head = fs_head folded, tv_holders = wk_holders st,
                       tv_cycles = wk_cycles st, tv_active = active,
                       tv_effectiveClaims = wk_effectiveClaims st,
                       tv_finalVerified = filter (finalVerified ctx active tr) (map fst tr),
                       tv_ignored = wk_ignored st\<rparr>))"

definition finalVerifiedPins :: "tree_view \<Rightarrow> string list" where
  "finalVerifiedPins tv =
     concat (map (\<lambda>node. case effectiveOf (tv_active tv) node of
                     Some eff \<Rightarrow> if ef_pinId eff \<noteq> '''' then [ef_pinId eff] else [] | None \<Rightarrow> [])
       (tv_finalVerified tv))"

text \<open>The node whose active cycle the target anchors.\<close>

definition liveTargetNode :: "tree_view \<Rightarrow> string \<Rightarrow> string option" where
  "liveTargetNode tv target =
     map_option cy_node (find (\<lambda>c. map_option ef_pinId (cy_effective c) = Some target) (map snd (tv_active tv)))"

text \<open>A challenge stands while its target still anchors a final-verified node.\<close>

definition challengeStands :: "tree_view \<Rightarrow> open_challenge \<Rightarrow> bool" where
  "challengeStands tv oc =
     (case effectiveOf (tv_active tv) (oc_node oc) of
        None \<Rightarrow> False
      | Some eff \<Rightarrow> ef_pinId eff = oc_target oc \<and> ef_pinId eff \<in> set (finalVerifiedPins tv))"

definition treeChallenges :: "replay_ctx \<Rightarrow> tree_view \<Rightarrow> challenge_state" where
  "treeChallenges ctx tv =
     (case challengeLoop ctx (liveTargetNode tv) (tv_ignored tv) of
        (ign, openChallenges) \<Rightarrow> (ign, filter (\<lambda>(_, oc). challengeStands tv oc) openChallenges))"

definition treeStatus :: "tree_view \<Rightarrow> string \<Rightarrow> node_status" where
  "treeStatus tv node =
     (if node \<in> set (tv_finalVerified tv) then StVerified
      else if jhas (tv_holders tv) node then StClaimed else StOpen)"

definition treeNodeState :: "replay_ctx \<Rightarrow> tree_view \<Rightarrow> string list \<Rightarrow> string \<Rightarrow> node_projection" where
  "treeNodeState ctx tv disputed node =
     (let base = (nodeBase (tv_tree tv) node (treeStatus tv node) (node \<in> set disputed))
            \<lparr>np_holder := jget (tv_holders tv) node,
             np_cycleCount := length (filter (\<lambda>(_, c). cy_node c = node) (tv_cycles tv))\<rparr>
      in case effectiveOf (tv_active tv) node of
           None \<Rightarrow> base
         | Some eff \<Rightarrow>
             base\<lparr>np_submission := Some (submissionView ctx (ef_pinId eff) (ef_author eff) (ef_atMs eff) None),
                  np_passVotes := passVotesOn ctx (ef_pinId eff) (ef_author eff),
                  np_failVotes := failVotesOn ctx (ef_pinId eff),
                  np_votes := voteListOn ctx (ef_pinId eff) (ef_author eff)\<rparr>)"

section \<open>Participants\<close>

text \<open>The publisher first, then the effective claims on nodes of the tree.\<close>

definition claimCounts :: "tree_view \<Rightarrow> (string, nat) jsmap" where
  "claimCounts tv =
     foldl (\<lambda>m (node, author). if jhas (tv_tree tv) node then jset author (jget_or m author 0 + 1) m else m)
       [] (tv_effectiveClaims tv)"

definition treeNodeStats :: "replay_ctx \<Rightarrow> tree_view \<Rightarrow> stats \<Rightarrow> string \<Rightarrow> stats" where
  "treeNodeStats ctx tv participants node =
     (case effectiveOf (tv_active tv) node of
        None \<Rightarrow> participants
      | Some eff \<Rightarrow>
          (let reviewed = foldl (\<lambda>ps v. if identityOk (rc_rootAuthor ctx) (ef_author eff) v
                 then bump (vr_bot v) (\<lambda>s. s\<lparr>pa_reviewVotes := pa_reviewVotes s + 1\<rparr>) ps else ps)
                 participants (votesOn ctx (ef_pinId eff));
               submitted = bump (ef_author eff) (\<lambda>s. s\<lparr>pa_submissions := pa_submissions s + 1\<rparr>) reviewed
           in if node \<in> set (tv_finalVerified tv)
              then bump (ef_author eff) (\<lambda>s. s\<lparr>pa_verifiedContrib := pa_verifiedContrib s + 1\<rparr>) submitted
              else submitted))"

definition treeReviewStats :: "replay_ctx \<Rightarrow> tree_view \<Rightarrow> stats \<Rightarrow> stats" where
  "treeReviewStats ctx tv participants =
     foldl (\<lambda>ps cycle.
        case cy_effective cycle of
          None \<Rightarrow> ps
        | Some eff \<Rightarrow>
            foldl (\<lambda>qs v. if identityOk (rc_rootAuthor ctx) (ef_author eff) v
                then bumpReview (\<lambda>v. (is_pass v \<and> cy_outcome cycle = Verified) \<or>
                                     (is_fail v \<and> cy_outcome cycle = FailRejected)) qs v
                else qs) ps (votesOn ctx (ef_pinId eff)))
       participants (filter (\<lambda>c. cy_outcome c \<noteq> Open) (map snd (tv_cycles tv)))"

definition treeParticipants :: "replay_ctx \<Rightarrow> tree_view \<Rightarrow> stats" where
  "treeParticipants ctx tv =
     (let start = bump (rc_rootAuthor ctx) id [];
          claimed = foldl (\<lambda>ps (author, n). bump author (\<lambda>s. s\<lparr>pa_effectiveClaims := n\<rparr>) ps) start (claimCounts tv)
      in treeReviewStats ctx tv
           (foldl (treeNodeStats ctx tv) claimed (nodeSort (map fst (tv_tree tv)))))"

section \<open>Completion, settlement, projection\<close>

definition treeProgress :: "tree_view \<Rightarrow> string list \<Rightarrow> progress" where
  "treeProgress tv disputed =
     foldl (\<lambda>p node. countNode (treeStatus tv node) (node \<in> set disputed) p) noProgress
       (nodeSort (map fst (tv_tree tv)))"

text \<open>\<open>tree.find(parent === null)?.id ?? asStr(root) ?? null\<close>.\<close>

definition rootTreeNodeId :: "replay_ctx \<Rightarrow> tree_view \<Rightarrow> json" where
  "rootTreeNodeId ctx tv =
     or_null (nullish
       (case find (\<lambda>(_, nd). jprop nd ''parent'' = Some JNull) (tv_tree tv) of
          None \<Rightarrow> None | Some (_, nd) \<Rightarrow> jprop nd ''id'')
       (Some (JStr (asStr (case initialTreeBody ctx of None \<Rightarrow> None | Some tb \<Rightarrow> jget tb ''root'') ''''))))"

definition treeComplete :: "replay_ctx \<Rightarrow> tree_view \<Rightarrow> progress \<Rightarrow> bool" where
  "treeComplete ctx tv prog =
     (let root = rootTreeNodeId ctx tv in
      if root \<noteq> JNull \<and> root \<noteq> JStr ''''
      then (case root of JStr r \<Rightarrow> r \<in> set (tv_finalVerified tv) | _ \<Rightarrow> False)
      else pr_total prog > 0 \<and> pr_verified prog = pr_total prog)"

text \<open>The nodes the settlement pays: final-verified ones, with their effective submission.\<close>

definition treePaid :: "tree_view \<Rightarrow> (string \<times> string \<times> string) list" where
  "treePaid tv =
     concat (map (\<lambda>node. case effectiveOf (tv_active tv) node of
                     Some eff \<Rightarrow> if ef_pinId eff \<in> set (finalVerifiedPins tv)
                                 then [(node, ef_pinId eff, ef_author eff)] else []
                   | None \<Rightarrow> []) (map fst (tv_tree tv)))"

definition treeUnpaid :: "tree_view \<Rightarrow> unpaid list" where
  "treeUnpaid tv =
     concat (map (\<lambda>(_, cycle). concat (map (\<lambda>s.
        if cs_pinId s \<in> set (cy_superseded cycle)
          then [\<lparr>un_node = cy_node cycle, un_author = cs_author s, un_pinId = cs_pinId s, un_reason = ''superseded''\<rparr>]
        else if map_option ef_pinId (cy_effective cycle) = Some (cs_pinId s) \<and> cy_outcome cycle = FailRejected
          then [\<lparr>un_node = cy_node cycle, un_author = cs_author s, un_pinId = cs_pinId s, un_reason = ''rework_cycle''\<rparr>]
        else []) (cy_submissions cycle))) (tv_cycles tv))"

definition treeProject :: "(string \<Rightarrow> string) \<Rightarrow> replay_ctx \<Rightarrow> tree_view \<Rightarrow> task_projection" where
  "treeProject sha ctx tv =
     (let (ign, openChallenges) = treeChallenges ctx tv;
          disputed = map (\<lambda>(_, oc). oc_node oc) openChallenges;
          nodeStates = map (\<lambda>node. (node, treeNodeState ctx tv disputed node)) (nodeSort (map fst (tv_tree tv)));
          participants = treeParticipants ctx tv;
          prog = treeProgress tv disputed;
          complete = treeComplete ctx tv prog;
          settled = (if complete \<and> openChallenges = [] then
             Some (settleTask sha ctx (tv_tree tv) participants (treePaid tv) (treeUnpaid tv)
               ENGINE_ALGO_VERSION None None) else None)
      in projectionOf sha ctx ''tree'' (tv_tree tv) (tv_head tv) nodeStates prog complete participants settled
           (rc_now ctx \<noteq> None) ign)"

definition treeReplay :: "(string \<Rightarrow> string) \<Rightarrow> replay_ctx \<Rightarrow> task_projection option" where
  "treeReplay sha ctx = map_option (treeProject sha ctx) (treeViewOf ctx)"

end
