(* ===== verification/CompReplay.thy ===== *)
theory CompReplay
  imports TreeWalk NodeViews
begin

text \<open>
  Competitive mode, \<open>replayCompetitiveTask\<close> of metatask/engine.ts: the walk over submissions and
  acting votes, the effective-tree filter and structural validation, node leaders, the winning
  chain, challenges, node states, participant statistics and the winner-only settlement.
\<close>

section \<open>Walk\<close>

record comp_walk =
  cw_subs :: comp_subs \<comment> \<open>\<open>submissionByPin\<close> and, in the same order, \<open>compSubs\<close>\<close>
  cw_tips :: "(string, string) jsmap" \<comment> \<open>latest pin per node and author\<close>
  cw_ignored :: ignored

definition tip_key :: "string \<Rightarrow> string \<Rightarrow> string" where
  "tip_key node author = node @ '' '' @ author"

definition toCompSubmission :: "chain_event \<Rightarrow> string \<Rightarrow> comp_submission" where
  "toCompSubmission pin node =
     \<lparr>sb_pinId = ev_pinId pin, sb_node = node, sb_author = ev_author pin, sb_atMs = ev_timestampMs pin,
      sb_height = ev_height pin, sb_txIndex = ev_txIndex pin,
      sb_parentrefs = plain_object (body_get pin ''parentrefs''),
      sb_supersedeid = (case body_get pin ''supersedeid'' of
         Some (JStr s) \<Rightarrow> if s \<noteq> '''' then Some s else None | _ \<Rightarrow> None),
      sb_passVoters = [], sb_failed = False, sb_verified = False, sb_verifiedVote = None,
      sb_superseded = False\<rparr>"

definition comp_admit :: "comp_submission \<Rightarrow> comp_walk \<Rightarrow> comp_walk" where
  "comp_admit sub st =
     st\<lparr>cw_subs := jset (sb_pinId sub) sub (cw_subs st),
        cw_tips := jset (tip_key (sb_node sub) (sb_author sub)) (sb_pinId sub) (cw_tips st)\<rparr>"

text \<open>The current tip of the author on the node, if it is the pin to replace and may be replaced.\<close>

definition comp_supersede_target :: "int option \<Rightarrow> comp_walk \<Rightarrow> comp_submission \<Rightarrow> string \<Rightarrow> comp_submission option" where
  "comp_supersede_target hAct2 st sub sid =
     (case jget (cw_tips st) (tip_key (sb_node sub) (sb_author sub)) of
        None \<Rightarrow> None
      | Some tip \<Rightarrow>
         (case jget (cw_subs st) tip of
            None \<Rightarrow> None
          | Some target \<Rightarrow>
             if tip = sid \<and> tip \<noteq> sb_pinId sub \<and> \<not> sb_superseded target \<and> \<not> sb_verified target \<and>
                \<not> below_gate (sb_height sub) hAct2 \<and> \<not> below_gate (sb_height target) hAct2
             then Some target else None))"

definition comp_step_submission :: "walk_ctx \<Rightarrow> comp_walk \<Rightarrow> chain_event \<Rightarrow> comp_walk" where
  "comp_step_submission ctx st pin =
     (let node = body_str pin ''node'' in
      if node = '''' then st
      else
        (let sub = toCompSubmission pin node in
         case sb_supersedeid sub of
           None \<Rightarrow> comp_admit sub st
         | Some sid \<Rightarrow>
            (case comp_supersede_target (wc_hAct2 ctx) st sub sid of
               None \<Rightarrow> st\<lparr>cw_ignored := cw_ignored st @ [(ev_pinId pin, ''supersede_predicate_failed'')]\<rparr>
             | Some target \<Rightarrow>
                 comp_admit sub
                   (st\<lparr>cw_subs := jset (sb_pinId target) (target\<lparr>sb_superseded := True\<rparr>) (cw_subs st)\<rparr>))))"

definition comp_step_pass :: "walk_ctx \<Rightarrow> chain_event \<Rightarrow> vote_record \<Rightarrow> comp_submission \<Rightarrow> comp_submission" where
  "comp_step_pass ctx pin vote target =
     (if vr_bot vote = sb_author target \<or> vr_bot vote = wc_rootAuthor ctx then target
      else
        (let voters = add_voter vote (sb_passVoters target);
             target = target\<lparr>sb_passVoters := voters\<rparr>
         in if \<not> sb_failed target \<and> \<not> sb_verified target \<and> of_nat (length voters) \<ge> wc_quorum ctx
            then target\<lparr>sb_verified := True,
                        sb_verifiedVote := Some (ev_height pin, ev_txIndex pin, ev_timestampMs pin, ev_pinId pin)\<rparr>
            else target))"

definition comp_step_verify :: "walk_ctx \<Rightarrow> comp_walk \<Rightarrow> chain_event \<Rightarrow> comp_walk" where
  "comp_step_verify ctx st pin =
     (case jget (wc_lastVoteByPin ctx) (ev_pinId pin) of
        None \<Rightarrow> st
      | Some vote \<Rightarrow>
         (case jget (cw_subs st) (vr_target vote) of
            None \<Rightarrow> st
          | Some target \<Rightarrow>
              if is_fail vote
                then st\<lparr>cw_subs := jset (vr_target vote) (target\<lparr>sb_failed := True, sb_verified := False\<rparr>) (cw_subs st)\<rparr>
              else if is_pass vote
                then st\<lparr>cw_subs := jset (vr_target vote) (comp_step_pass ctx pin vote target) (cw_subs st)\<rparr>
              else st))"

definition comp_walk_step :: "walk_ctx \<Rightarrow> comp_walk \<Rightarrow> chain_event \<Rightarrow> comp_walk" where
  "comp_walk_step ctx st pin =
     (if ev_path pin = ''submission'' then comp_step_submission ctx st pin else comp_step_verify ctx st pin)"

definition compTimeline :: "replay_ctx \<Rightarrow> chain_event list" where
  "compTimeline ctx =
     sort_key orderKey (ts_submissions (rc_taskSet ctx) @
       filter (\<lambda>pin. jhas (rc_lastVoteByPin ctx) (ev_pinId pin)) (pathList (rc_byPath ctx) ''verify''))"

definition compWalkCtx :: "replay_ctx \<Rightarrow> walk_ctx" where
  "compWalkCtx ctx =
     \<lparr>wc_quorum = rc_quorum ctx, wc_rootAuthor = rc_rootAuthor ctx, wc_hAct2 = rc_hAct2 ctx,
      wc_lastVoteByPin = rc_lastVoteByPin ctx, wc_submissionAuthor = rc_submissionAuthor ctx\<rparr>"

definition comp_walk_init :: "ignored \<Rightarrow> comp_walk" where
  "comp_walk_init ign = \<lparr>cw_subs = [], cw_tips = [], cw_ignored = ign\<rparr>"

definition compWalk :: "walk_ctx \<Rightarrow> comp_walk \<Rightarrow> chain_event list \<Rightarrow> comp_walk" where
  "compWalk ctx st timeline = foldl (comp_walk_step ctx) st timeline"

definition compWalked :: "replay_ctx \<Rightarrow> comp_walk" where
  "compWalked ctx = compWalk (compWalkCtx ctx) (comp_walk_init (rc_ignored ctx)) (compTimeline ctx)"

section \<open>Effective tree and valid candidates\<close>

record comp_view =
  cv_tree :: tree
  cv_head :: string
  cv_subs :: comp_subs
  cv_valid :: "comp_submission list"
  cv_ignored :: ignored

definition compFinalnode :: "replay_ctx \<Rightarrow> string" where
  "compFinalnode ctx = asStr (jopt (rc_policy ctx) ''finalnode'') ''''"

definition compAmendCtx :: "replay_ctx \<Rightarrow> comp_subs \<Rightarrow> comp_amend_ctx" where
  "compAmendCtx ctx subs =
     \<lparr>cm_rootAuthor = rc_rootAuthor ctx, cm_treePinId = ts_treePinId (rc_taskSet ctx), cm_subs = subs,
      cm_finalnode = compFinalnode ctx, cm_hAct2 = rc_hAct2 ctx\<rparr>"

definition markClaims :: "replay_ctx \<Rightarrow> tree \<Rightarrow> ignored \<Rightarrow> ignored" where
  "markClaims ctx effectiveTree ign =
     foldl (\<lambda>ign claim.
        if body_str claim ''taskid'' = rc_rootPinId ctx \<and> \<not> jhas effectiveTree (body_str claim ''node'')
        then markIgnored (ev_pinId claim) ''unknown_node'' ign else ign)
       ign (pathList (rc_byPath ctx) ''claim'')"

definition validateSubs :: "tree \<Rightarrow> comp_subs \<Rightarrow> ignored \<Rightarrow> ignored \<times> comp_submission list" where
  "validateSubs effectiveTree subs ign =
     foldl (\<lambda>(ign, valid) (_, sub).
        if \<not> jhas effectiveTree (sb_node sub) then (markIgnored (sb_pinId sub) ''unknown_node'' ign, valid)
        else if \<not> compParentrefsValid sub effectiveTree subs
          then (markIgnored (sb_pinId sub) ''invalid_reference'' ign, valid)
        else (ign, valid @ [sub])) (ign, []) subs"

definition compViewOf :: "replay_ctx \<Rightarrow> comp_view option" where
  "compViewOf ctx =
     (let walked = compWalked ctx in
      case foldCompetitiveAmends (compAmendCtx ctx (cw_subs walked))
             (initialNodesOf (initialTreeBody ctx)) (taskAmends ctx) of
        None \<Rightarrow> None
      | Some folded \<Rightarrow>
          (let tr = fs_nodes folded;
               ign = markClaims ctx tr (cw_ignored walked @ fs_ignored folded);
               (ign, valid) = validateSubs tr (cw_subs walked) ign
           in Some \<lparr>cv_tree = tr, cv_head = fs_head folded, cv_subs = cw_subs walked,
                    cv_valid = valid, cv_ignored = ign\<rparr>))"

definition validOn :: "comp_view \<Rightarrow> string \<Rightarrow> comp_submission list" where
  "validOn cv node = filter (\<lambda>sub. sb_node sub = node) (cv_valid cv)"

abbreviation chainValidIn :: "comp_view \<Rightarrow> comp_submission \<Rightarrow> bool" where
  "chainValidIn cv sub \<equiv> chainValid (cv_tree cv) (cv_subs cv) (sb_pinId sub)"

section \<open>Leaders and the winning chain\<close>

text \<open>Verified time first (height and index of the quorum vote), then the submission's own place.\<close>

definition leaderKey :: "comp_submission \<Rightarrow> int \<times> int \<times> int \<times> int \<times> string" where
  "leaderKey sub =
     (let (h, t) = (case sb_verifiedVote sub of Some (h, t, _, _) \<Rightarrow> (h, t) | None \<Rightarrow> (-1, 0))
      in (normHeight h, t, normHeight (sb_height sub), sb_txIndex sub, sb_pinId sub))"

definition leaderLess :: "comp_submission \<Rightarrow> comp_submission \<Rightarrow> bool" where
  "leaderLess a b =
     (case (leaderKey a, leaderKey b) of ((a0, a1, a2, a3, a4), (b0, b1, b2, b3, b4)) \<Rightarrow>
        if a0 \<noteq> b0 then a0 < b0
        else if a1 \<noteq> b1 then a1 < b1
        else if a2 \<noteq> b2 then a2 < b2
        else if a3 \<noteq> b3 then a3 < b3
        else a4 < b4)"

definition leaderOf :: "comp_view \<Rightarrow> string \<Rightarrow> comp_submission option" where
  "leaderOf cv nodeId =
     foldl (\<lambda>best sub.
        if \<not> (sb_verified sub \<and> chainValidIn cv sub) then best
        else (case best of None \<Rightarrow> Some sub | Some b \<Rightarrow> if leaderLess sub b then Some sub else best))
       None (validOn cv nodeId)"

definition winnerOf :: "replay_ctx \<Rightarrow> comp_view \<Rightarrow> comp_submission option" where
  "winnerOf ctx cv =
     (case compFinalNode (cv_tree cv) (compFinalnode ctx) of None \<Rightarrow> None | Some f \<Rightarrow> leaderOf cv f)"

text \<open>The stack loop that closes the winner under parentrefs; a node is taken once. Every
  iteration takes a new node or drops a stack entry, so the loop ends.\<close>

type_synonym chain_map = "(string, comp_submission) jsmap"

definition parentSubs :: "tree \<Rightarrow> comp_subs \<Rightarrow> comp_submission \<Rightarrow> comp_submission list" where
  "parentSubs tr subs sub =
     concat (map (\<lambda>dep. case jget subs (asStr (parentref sub dep) '''') of None \<Rightarrow> [] | Some p \<Rightarrow> [p])
       (compDepsOf tr (sb_node sub)))"

lemma parentSubs_in: "p \<in> set (parentSubs tr subs sub) \<Longrightarrow> p \<in> snd ` set subs"
proof -
  assume "p \<in> set (parentSubs tr subs sub)"
  then obtain dep where "jget subs (asStr (parentref sub dep) [] ) = Some p"
    by (auto simp: parentSubs_def split: option.splits)
  then show ?thesis by (force dest: map_of_SomeD)
qed

function (sequential) chainClosure :: "tree \<Rightarrow> comp_subs \<Rightarrow> comp_submission list \<Rightarrow> chain_map \<Rightarrow> chain_map" where
  "chainClosure tr subs [] taken = taken"
| "chainClosure tr subs (sub # stack) taken =
     (if jhas taken (sb_node sub) then chainClosure tr subs stack taken
      else chainClosure tr subs (rev (parentSubs tr subs sub) @ stack) (jset (sb_node sub) sub taken))"
  by pat_completeness auto
termination
proof (relation "measures [\<lambda>(tr, subs, stack, taken).
    card (sb_node ` (set stack \<union> snd ` set subs) - fst ` set taken), \<lambda>(tr, subs, stack, taken). length stack]")
  fix tr :: tree and subs :: comp_subs and sub :: comp_submission and stack :: "comp_submission list" and taken :: chain_map
  let ?m = "\<lambda>st tk. card (sb_node ` (set st \<union> snd ` set subs) - fst ` set tk)"
  show "((tr, subs, stack, taken), tr, subs, sub # stack, taken)
    \<in> measures [\<lambda>(tr, subs, stack, taken). card (sb_node ` (set stack \<union> snd ` set subs) - fst ` set taken),
                \<lambda>(tr, subs, stack, taken). length stack]"
  proof -
    have "?m stack taken \<le> ?m (sub # stack) taken" by (intro card_mono) auto
    then show ?thesis by auto
  qed
  assume n: "\<not> jhas taken (sb_node sub)"
  have "set (parentSubs tr subs sub) \<subseteq> snd ` set subs" using parentSubs_in by blast
  then have "sb_node ` (set (rev (parentSubs tr subs sub) @ stack) \<union> snd ` set subs) - fst ` set (jset (sb_node sub) sub taken)
      \<subset> sb_node ` (set (sub # stack) \<union> snd ` set subs) - fst ` set taken"
    using n by (auto simp: keys_jset jhas_iff)
  then have "?m (rev (parentSubs tr subs sub) @ stack) (jset (sb_node sub) sub taken) < ?m (sub # stack) taken"
    by (intro psubset_card_mono) auto
  then show "((tr, subs, rev (parentSubs tr subs sub) @ stack, jset (sb_node sub) sub taken), tr, subs, sub # stack, taken)
    \<in> measures [\<lambda>(tr, subs, stack, taken). card (sb_node ` (set stack \<union> snd ` set subs) - fst ` set taken),
                \<lambda>(tr, subs, stack, taken). length stack]"
    by auto
qed simp

declare chainClosure.simps(2) [simp del]

definition winningChainByNode :: "replay_ctx \<Rightarrow> comp_view \<Rightarrow> chain_map" where
  "winningChainByNode ctx cv =
     (case winnerOf ctx cv of None \<Rightarrow> [] | Some w \<Rightarrow> chainClosure (cv_tree cv) (cv_subs cv) [w] [])"

definition winningChain :: "replay_ctx \<Rightarrow> comp_view \<Rightarrow> string list" where
  "winningChain ctx cv = map (\<lambda>(_, sub). sb_pinId sub) (sort_key fst (winningChainByNode ctx cv))"

section \<open>Challenges\<close>

definition compTargetNode :: "comp_view \<Rightarrow> string \<Rightarrow> string option" where
  "compTargetNode cv target =
     (case jget (cv_subs cv) target of
        None \<Rightarrow> None
      | Some sub \<Rightarrow> if chainValidIn cv sub then Some (sb_node sub) else None)"

definition compChallenges :: "replay_ctx \<Rightarrow> comp_view \<Rightarrow> challenge_state" where
  "compChallenges ctx cv = challengeLoop ctx (compTargetNode cv) (cv_ignored cv)"

section \<open>Node states\<close>

definition candidateEntry :: "replay_ctx \<Rightarrow> comp_view \<Rightarrow> comp_submission \<Rightarrow> candidate" where
  "candidateEntry ctx cv sub =
     \<lparr>ca_pinId = sb_pinId sub, ca_submitter = sb_author sub, ca_atMs = sb_atMs sub,
      ca_result = plain_object (submissionField ctx (sb_pinId sub) ''result''),
      ca_hash = str_or_null (submissionField ctx (sb_pinId sub) ''hash''),
      ca_contentType = str_or_null (submissionField ctx (sb_pinId sub) ''contentType''),
      ca_attachment = str_or_null (submissionField ctx (sb_pinId sub) ''attachment''),
      ca_parentrefs = sb_parentrefs sub,
      ca_verified = sb_verified sub, ca_chainValid = chainValidIn cv sub,
      ca_superseded = sb_superseded sub, ca_failed = sb_failed sub,
      ca_passVotes = passVotesOn ctx (sb_pinId sub) (sb_author sub),
      ca_failVotes = failVotesOn ctx (sb_pinId sub),
      ca_verifiedHeight = map_option fst (sb_verifiedVote sub),
      ca_verifiedTxIndex = map_option (\<lambda>v. fst (snd v)) (sb_verifiedVote sub),
      ca_votes = voteListOn ctx (sb_pinId sub) (sb_author sub)\<rparr>"

definition compStatus :: "comp_view \<Rightarrow> string \<Rightarrow> node_status" where
  "compStatus cv node =
     (case leaderOf cv node of
        Some _ \<Rightarrow> StVerified
      | None \<Rightarrow>
          if list_ex (\<lambda>sub. \<not> sb_failed sub \<and> \<not> sb_superseded sub) (validOn cv node) then StClaimed else StOpen)"

definition compNodeState :: "replay_ctx \<Rightarrow> comp_view \<Rightarrow> string list \<Rightarrow> string \<Rightarrow> node_projection" where
  "compNodeState ctx cv disputed node =
     (let base = (nodeBase (cv_tree cv) node (compStatus cv node) (node \<in> set disputed))
            \<lparr>np_submissions := Some (map (candidateEntry ctx cv) (validOn cv node))\<rparr>
      in case leaderOf cv node of
           None \<Rightarrow> base
         | Some leader \<Rightarrow>
             base\<lparr>np_submission := Some (submissionView ctx (sb_pinId leader) (sb_author leader) (sb_atMs leader)
                    (Some (sb_parentrefs leader))),
                  np_passVotes := passVotesOn ctx (sb_pinId leader) (sb_author leader),
                  np_failVotes := failVotesOn ctx (sb_pinId leader),
                  np_votes := voteListOn ctx (sb_pinId leader) (sb_author leader)\<rparr>)"

definition compProgress :: "comp_view \<Rightarrow> string list \<Rightarrow> progress" where
  "compProgress cv disputed =
     foldl (\<lambda>p node. countNode (compStatus cv node) (node \<in> set disputed) p) noProgress
       (nodeSort (map fst (cv_tree cv)))"

section \<open>Participants\<close>

definition compSubStats :: "replay_ctx \<Rightarrow> comp_view \<Rightarrow> stats \<Rightarrow> comp_submission \<Rightarrow> stats" where
  "compSubStats ctx cv participants sub =
     (let ps = bump (sb_author sub) (\<lambda>s. s\<lparr>pa_submissions := pa_submissions s + 1\<rparr>) participants;
          ps = (if chainValidIn cv sub
                then bump (sb_author sub) (\<lambda>s. s\<lparr>pa_verifiedContrib := pa_verifiedContrib s + 1\<rparr>) ps else ps)
      in foldl (\<lambda>ps v. if identityOk (rc_rootAuthor ctx) (sb_author sub) v
            then bump (vr_bot v) (\<lambda>s. s\<lparr>pa_reviewVotes := pa_reviewVotes s + 1\<rparr>) ps else ps)
           ps (votesOn ctx (sb_pinId sub)))"

definition compReviewStats :: "replay_ctx \<Rightarrow> stats \<Rightarrow> comp_submission \<Rightarrow> stats" where
  "compReviewStats ctx participants sub =
     (if \<not> sb_verified sub \<and> \<not> sb_failed sub then participants
      else foldl (\<lambda>ps v. if identityOk (rc_rootAuthor ctx) (sb_author sub) v
             then bumpReview (\<lambda>v. (is_pass v \<and> sb_verified sub) \<or> (is_fail v \<and> sb_failed sub)) ps v
             else ps) participants (votesOn ctx (sb_pinId sub)))"

definition compParticipants :: "replay_ctx \<Rightarrow> comp_view \<Rightarrow> stats" where
  "compParticipants ctx cv =
     foldl (compReviewStats ctx)
       (foldl (compSubStats ctx cv) (bump (rc_rootAuthor ctx) id []) (cv_valid cv)) (cv_valid cv)"

section \<open>Settlement and projection\<close>

definition compPaid :: "replay_ctx \<Rightarrow> comp_view \<Rightarrow> (string \<times> string \<times> string) list" where
  "compPaid ctx cv = map (\<lambda>(node, sub). (node, sb_pinId sub, sb_author sub)) (winningChainByNode ctx cv)"

definition compUnpaid :: "replay_ctx \<Rightarrow> comp_view \<Rightarrow> unpaid list" where
  "compUnpaid ctx cv =
     concat (map (\<lambda>sub.
        let entry = (\<lambda>reason. [\<lparr>un_node = sb_node sub, un_author = sb_author sub, un_pinId = sb_pinId sub,
              un_reason = reason\<rparr>])
        in if sb_superseded sub then entry ''superseded''
           else if sb_failed sub then entry ''failed''
           else if sb_verified sub \<and> sb_pinId sub \<notin> set (winningChain ctx cv) then entry ''losing_fork''
           else []) (cv_valid cv))"

definition compProject :: "(string \<Rightarrow> string) \<Rightarrow> replay_ctx \<Rightarrow> comp_view \<Rightarrow> task_projection" where
  "compProject sha ctx cv =
     (let (ign, openChallenges) = compChallenges ctx cv;
          disputed = map (\<lambda>(_, oc). oc_node oc) openChallenges;
          nodeStates = map (\<lambda>node. (node, compNodeState ctx cv disputed node)) (nodeSort (map fst (cv_tree cv)));
          participants = compParticipants ctx cv;
          prog = compProgress cv disputed;
          complete = winnerOf ctx cv \<noteq> None;
          settled = (if complete \<and> openChallenges = [] then
             Some (settleTask sha ctx (cv_tree cv) participants (compPaid ctx cv) (compUnpaid ctx cv)
               ENGINE_ALGO_VERSION_COMPETITIVE (Some ''competitive'') (Some (winningChain ctx cv))) else None)
      in projectionOf sha ctx ''competitive'' (cv_tree cv) (cv_head cv) nodeStates prog complete participants settled
           (rc_now ctx \<noteq> None) ign)"

definition compReplay :: "(string \<Rightarrow> string) \<Rightarrow> replay_ctx \<Rightarrow> task_projection option" where
  "compReplay sha ctx = map_option (compProject sha ctx) (compViewOf ctx)"

end
