(* ===== verification/Replay.thy ===== *)
theory Replay
  imports TreeReplay CompReplay
begin

text \<open>
  \<open>replayMetaTask\<close> of metatask/engine.ts: the options, the front half (gates, membership, policy,
  vote pre-pass) and the choice of mode. The result is an error when the pool has no task root,
  a projection otherwise, or \<open>None\<close> when the replay does not return.
\<close>

record replay_options =
  ro_rootPinId :: "string option"
  ro_now :: "int option"
  ro_hAct :: "int option"
  ro_hAct2 :: "int option option" \<comment> \<open>outer \<open>None\<close>: not given\<close>
  ro_evaluatedAtMs :: int
  ro_rosterPins :: "body option"

definition defaultOptions :: replay_options where
  "defaultOptions = \<lparr>ro_rootPinId = None, ro_now = None, ro_hAct = None, ro_hAct2 = None,
     ro_evaluatedAtMs = 0, ro_rosterPins = None\<rparr>"

definition gateAct :: "replay_options \<Rightarrow> int" where
  "gateAct opts = (case ro_hAct opts of None \<Rightarrow> H_ACT | Some h \<Rightarrow> h)"

definition gateAct2 :: "replay_options \<Rightarrow> int option" where
  "gateAct2 opts = hAct2Or (case ro_hAct2 opts of None \<Rightarrow> H_ACT2 | Some h \<Rightarrow> h)"

definition policyOf :: "task_event_set \<Rightarrow> json option" where
  "policyOf ts = nullish (jget (ts_taskBody ts) ''policy'') (Some (JObj []))"

definition splitOf :: "json option \<Rightarrow> json option" where
  "splitOf policy = nullish (jopt policy ''split'') None"

definition quorumOf :: "json option \<Rightarrow> rat" where
  "quorumOf policy = max 1 (asNum (jopt policy ''verify_quorum'') 2)"

definition submitterShareOf :: "json option \<Rightarrow> rat" where
  "submitterShareOf split =
     min SUBMITTER_SHARE_BP_MAX
       (max SUBMITTER_SHARE_BP_MIN (asNum (jopt split ''submitterShareBP'') SUBMITTER_SHARE_BP_DEFAULT))"

definition rosterGroupsOf :: "replay_options \<Rightarrow> json option \<Rightarrow> string list list" where
  "rosterGroupsOf opts split =
     (if js_truthy (jopt split ''rosterid'') then
        (case ro_rosterPins opts of
           None \<Rightarrow> []
         | Some pins \<Rightarrow> rosterGroupsFor (jget pins (js_string_opt (jopt split ''rosterid''))))
      else [])"

definition submissionMap :: "(chain_event \<Rightarrow> 'a) \<Rightarrow> task_event_set \<Rightarrow> (string, 'a) jsmap" where
  "submissionMap f ts = foldl (\<lambda>m sub. jset (ev_pinId sub) (f sub) m) [] (ts_submissions ts)"

definition voteCtxOf :: "replay_options \<Rightarrow> task_event_set \<Rightarrow> vote_ctx" where
  "voteCtxOf opts ts =
     \<lparr>vc_knownTargets = ts_knownTargets ts, vc_submissionAuthor = submissionMap ev_author ts,
      vc_rootAuthor = ts_rootAuthor ts, vc_rosterGroups = rosterGroupsOf opts (splitOf (policyOf ts)),
      vc_hAct = gateAct opts, vc_hAct2 = gateAct2 opts\<rparr>"

definition replayCtxOf :: "replay_options \<Rightarrow> by_path \<Rightarrow> task_event_set \<Rightarrow> replay_ctx" where
  "replayCtxOf opts byPath ts =
     (let policy = policyOf ts; split = splitOf policy;
          (ign, lastVotes) = votePrepass (voteCtxOf opts ts) (pathList byPath ''verify'')
      in \<lparr>rc_byPath = byPath, rc_taskSet = ts, rc_policy = policy,
          rc_quorum = quorumOf policy,
          rc_ttlHours = asNum (jopt policy ''claim_ttl_hours'') 0,
          rc_windowHours = asNum (jopt policy ''verify_window_hours'') 0,
          rc_challengeTtlDays = asNum (jopt policy ''challenge_ttl_days'') CHALLENGE_TTL_DAYS_DEFAULT,
          rc_split = split,
          rc_submitterShareBP = submitterShareOf split,
          rc_hAct2 = gateAct2 opts,
          rc_now = ro_now opts,
          rc_evaluatedAtMs = ro_evaluatedAtMs opts,
          rc_submissionAuthor = submissionMap ev_author ts,
          rc_submissionBody = submissionMap ev_body ts,
          rc_votesByTarget = votesByTargetOf lastVotes,
          rc_lastVoteByPin = lastVoteByPinOf lastVotes,
          rc_ignored = ign\<rparr>)"

definition isCompetitive :: "json option \<Rightarrow> bool" where
  "isCompetitive policy \<longleftrightarrow> jopt policy ''mode'' = Some (JStr ''competitive'')"

definition replayMetaTask ::
  "(string \<Rightarrow> string) \<Rightarrow> chain_event list \<Rightarrow> replay_options \<Rightarrow> (replay_error + task_projection) option" where
  "replayMetaTask sha events opts =
     (let byPath = byPathOf events in
      case taskEventSet byPath (ro_rootPinId opts) of
        Inl e \<Rightarrow> Some (Inl e)
      | Inr ts \<Rightarrow>
          (let ctx = replayCtxOf opts byPath ts in
           map_option Inr
             (if isCompetitive (rc_policy ctx) then compReplay sha ctx else treeReplay sha ctx)))"

end
