(* ===== verification/AmendFacts.thy ===== *)
theory AmendFacts
  imports CompOracle "HOL-Library.Sublist"
begin

text \<open>
  Correctness of the amend fold: the cycle check is exactly acyclicity of the parent relation, the
  subtree walk of \<open>remove_node\<close> ends on an acyclic tree and tells whether the subtree holds a
  frozen node, and the fold contract that both modes share: an amend is applied on the current
  head with a tree that satisfies the invariants, or recorded as ignored.
\<close>

section \<open>The parent relation\<close>

definition parent_rel :: "tree \<Rightarrow> (string \<times> string) set" where
  "parent_rel nodes = {(c, p). parentOf nodes c = Some p}"

lemma parentOf_nonempty: "parentOf nodes c = Some p \<Longrightarrow> p \<noteq> ''''"
  by (auto simp: parentOf_def split: option.splits json.splits if_splits)

lemma parentOf_key: "parentOf nodes c = Some p \<Longrightarrow> c \<in> fst ` set nodes"
proof (cases "jget nodes c")
  case (Some v)
  then have "(c, v) \<in> set nodes" by (rule map_of_SomeD)
  then show ?thesis by (rule rev_image_eqI) simp
qed (simp add: parentOf_def)

lemma finite_parent_rel: "finite (parent_rel nodes)"
proof -
  have "parent_rel nodes \<subseteq> (\<lambda>c. (c, the (parentOf nodes c))) ` (fst ` set nodes)"
  proof
    fix e assume "e \<in> parent_rel nodes"
    then obtain c p where e: "e = (c, p)" "parentOf nodes c = Some p" by (auto simp: parent_rel_def)
    show "e \<in> (\<lambda>c. (c, the (parentOf nodes c))) ` (fst ` set nodes)"
      by (rule image_eqI [OF _ parentOf_key [OF e(2)]]) (simp add: e)
  qed
  then show ?thesis by (rule finite_subset) simp
qed

text \<open>A walk that stays among nodes with parents comes back to one it has seen.\<close>

lemma parent_walk_trapped:
  assumes C: "\<forall>y \<in> C. \<exists>z \<in> C. parentOf nodes y = Some z" "'''' \<notin> C"
  shows "c \<in> C \<Longrightarrow> \<not> parent_walk nodes seen (Some c)"
proof (induction "card (fst ` set nodes - set seen)" arbitrary: seen c rule: less_induct)
  case less
  show ?case
  proof (cases "c \<in> set seen")
    case True
    then show ?thesis using less.prems C(2) by (auto simp: parent_walk.simps)
  next
    case False
    obtain z where z: "z \<in> C" "parentOf nodes c = Some z" using C(1) less.prems by blast
    have "fst ` set nodes - set (c # seen) \<subset> fst ` set nodes - set seen"
      using False parentOf_key [OF z(2)] by auto
    then have "card (fst ` set nodes - set (c # seen)) < card (fst ` set nodes - set seen)"
      by (intro psubset_card_mono) auto
    from less.hyps [OF this z(1)] show ?thesis
      using False less.prems C(2) z(2) by (auto simp: parent_walk.simps(2) [of nodes seen c])
  qed
qed

lemma parent_walk_free:
  assumes "acyclic (parent_rel nodes)"
  shows "(\<And>s c. s \<in> set seen \<Longrightarrow> cur = Some c \<Longrightarrow> (s, c) \<in> (parent_rel nodes)\<^sup>+) \<Longrightarrow> parent_walk nodes seen cur"
  using assms
proof (induction nodes seen cur rule: parent_walk.induct)
  case (2 nodes seen c)
  show ?case
  proof (cases "c = ''''")
    case False
    have new: "c \<notin> set seen" using "2.prems" by (auto simp: acyclic_def)
    have "(s, p) \<in> (parent_rel nodes)\<^sup>+" if "s \<in> set (c # seen)" "parentOf nodes c = Some p" for s p
      using that "2.prems"(1) by (auto simp: parent_rel_def intro: trancl_into_trancl)
    then have "parent_walk nodes (c # seen) (parentOf nodes c)"
      using "2.IH" [OF False new] "2.prems"(2) by blast
    then show ?thesis using new by (simp add: parent_walk.simps(2) [of nodes seen c])
  qed (simp add: parent_walk.simps)
qed (simp add: parent_walk.simps)

theorem isAcyclic_iff: "isAcyclic nodes \<longleftrightarrow> acyclic (parent_rel nodes)"
proof
  assume "acyclic (parent_rel nodes)"
  then show "isAcyclic nodes"
    using parent_walk_free [of nodes "[]"] by (auto simp: isAcyclic_def list_all_iff)
next
  assume walks: "isAcyclic nodes"
  show "acyclic (parent_rel nodes)"
  proof (rule acyclicI, rule allI, rule notI)
    fix x assume x: "(x, x) \<in> (parent_rel nodes)\<^sup>+"
    let ?C = "{y. (x, y) \<in> (parent_rel nodes)\<^sup>+ \<and> (y, x) \<in> (parent_rel nodes)\<^sup>+}"
    have trap: "\<forall>y \<in> ?C. \<exists>z \<in> ?C. parentOf nodes y = Some z"
    proof
      fix y assume y: "y \<in> ?C"
      then have "(y, x) \<in> (parent_rel nodes)\<^sup>+" by simp
      then obtain z where z: "(y, z) \<in> parent_rel nodes" "(z, x) \<in> (parent_rel nodes)\<^sup>*" by (meson tranclD)
      then have "(z, x) \<in> (parent_rel nodes)\<^sup>+" using x by (meson rtrancl_trancl_trancl)
      moreover have "(x, z) \<in> (parent_rel nodes)\<^sup>+" using y z(1) by (auto intro: trancl_into_trancl)
      ultimately show "\<exists>z \<in> ?C. parentOf nodes y = Some z" using z(1) by (auto simp: parent_rel_def)
    qed
    have ne: "'''' \<notin> ?C"
    proof
      assume "'''' \<in> ?C"
      then have "(x, '''') \<in> (parent_rel nodes)\<^sup>+" by simp
      then obtain w where "(w, '''') \<in> parent_rel nodes" by (meson tranclD2)
      then show False using parentOf_nonempty by (auto simp: parent_rel_def)
    qed
    have "\<not> parent_walk nodes [] (Some x)" by (rule parent_walk_trapped [OF trap ne]) (use x in simp)
    moreover obtain p where "(x, p) \<in> parent_rel nodes" using x by (meson tranclD)
    then have "x \<in> fst ` set nodes" using parentOf_key by (auto simp: parent_rel_def)
    ultimately show False using walks by (auto simp: isAcyclic_def list_all_iff)
  qed
qed

section \<open>The subtree walk\<close>

lemma children_parent:
  assumes "distinct (map fst nodes)" "p \<noteq> ''''"
  shows "c \<in> set (children_ids nodes p) \<longleftrightarrow> (c, p) \<in> parent_rel nodes"
proof -
  have "c \<in> set (children_ids nodes p) \<longleftrightarrow> (\<exists>nd. (c, nd) \<in> set nodes \<and> jprop nd ''parent'' = Some (JStr p))"
    by (auto simp: children_ids_def image_iff)
  also have "\<dots> \<longleftrightarrow> (\<exists>nd. jget nodes c = Some nd \<and> jprop nd ''parent'' = Some (JStr p))"
    using assms(1) by (auto dest: map_of_SomeD)
  also have "\<dots> \<longleftrightarrow> parentOf nodes c = Some p"
  proof (cases "jget nodes c")
    case (Some nd)
    then show ?thesis using assms(2)
      by (cases "jprop nd ''parent''") (simp_all add: parentOf_def split: json.split)
  qed (simp add: parentOf_def)
  also have "\<dots> \<longleftrightarrow> (c, p) \<in> parent_rel nodes" by (simp add: parent_rel_def)
  finally show ?thesis .
qed

definition subtree :: "tree \<Rightarrow> string \<Rightarrow> string set" where
  "subtree nodes n = {d. (d, n) \<in> (parent_rel nodes)\<^sup>*}"

lemma subtree_unfold: "subtree nodes n = insert n (\<Union>c \<in> {c. (c, n) \<in> parent_rel nodes}. subtree nodes c)"
proof -
  have "(d, n) \<in> (parent_rel nodes)\<^sup>* \<longleftrightarrow> d = n \<or> (\<exists>c. (d, c) \<in> (parent_rel nodes)\<^sup>* \<and> (c, n) \<in> parent_rel nodes)" for d
  proof
    assume "(d, n) \<in> (parent_rel nodes)\<^sup>*"
    then show "d = n \<or> (\<exists>c. (d, c) \<in> (parent_rel nodes)\<^sup>* \<and> (c, n) \<in> parent_rel nodes)"
      by (cases rule: rtranclE) blast+
  qed (auto intro: rtrancl_into_rtrancl)
  then show ?thesis by (auto simp: subtree_def)
qed

text \<open>On an acyclic tree the loop ends, and accepts exactly when no node below is frozen.\<close>

theorem removeWalk_spec:
  assumes d: "distinct (map fst nodes)" and e: "'''' \<notin> fst ` set nodes" and a: "acyclic (parent_rel nodes)"
  shows "'''' \<notin> set stack \<Longrightarrow> removeWalk frozen nodes stack = Some (\<forall>s \<in> set stack. \<forall>n \<in> subtree nodes s. \<not> frozen n)"
proof -
  let ?R = "parent_rel nodes"
  have "wf ?R" by (rule finite_acyclic_wf [OF finite_parent_rel a])
  then have "wf (mult ?R)" by (rule wf_mult)
  then show "'''' \<notin> set stack \<Longrightarrow> ?thesis"
  proof (induction "mset stack" arbitrary: stack rule: wf_induct_rule)
    case less
    show ?case
    proof (cases "stack = []")
      case True
      then show ?thesis by (simp add: removeWalk.simps)
    next
      case False
      then obtain rest n where st: "stack = rest @ [n]" by (metis append_butlast_last_id)
      have n: "n \<noteq> ''''" using less.prems by (auto simp: st)
      let ?next = "rest @ children_ids nodes n"
      have kids: "set (children_ids nodes n) = {c. (c, n) \<in> ?R}" using children_parent [OF d n] by blast
      have "(mset rest + mset (children_ids nodes n), mset rest + {#n#}) \<in> mult ?R"
        by (rule one_step_implies_mult) (use kids in auto)
      then have smaller: "(mset ?next, mset stack) \<in> mult ?R" by (simp add: st)
      have "'''' \<notin> set ?next"
        using less.prems st e kids parentOf_key by (fastforce simp: parent_rel_def)
      from less.hyps [OF smaller this]
      have ih: "removeWalk frozen nodes ?next = Some (\<forall>s \<in> set ?next. \<forall>m \<in> subtree nodes s. \<not> frozen m)" .
      have "(\<forall>s \<in> set stack. \<forall>m \<in> subtree nodes s. \<not> frozen m) \<longleftrightarrow>
          \<not> frozen n \<and> (\<forall>s \<in> set ?next. \<forall>m \<in> subtree nodes s. \<not> frozen m)"
        unfolding st set_append kids using subtree_unfold [of nodes n] by auto
      moreover have "removeWalk frozen nodes stack = (if frozen n then Some False else removeWalk frozen nodes ?next)"
        by (subst removeWalk.simps) (simp add: st)
      ultimately show ?thesis using ih by simp
    qed
  qed
qed

section \<open>The fold contract\<close>

text \<open>The amends that were applied form a version chain: each is based on the one before it.\<close>

fun version_chain :: "string \<Rightarrow> chain_event list \<Rightarrow> bool" where
  "version_chain base [] = True"
| "version_chain base (e # es) = (body_str e ''bases'' = base \<and> version_chain (ev_pinId e) es)"

definition head_after :: "string \<Rightarrow> chain_event list \<Rightarrow> string" where
  "head_after base es = (if es = [] then base else ev_pinId (last es))"

definition applied_step :: "(tree \<Rightarrow> bool) \<Rightarrow> fold_state \<Rightarrow> chain_event \<Rightarrow> fold_state \<Rightarrow> bool" where
  "applied_step tree_inv st e st' \<longleftrightarrow>
     body_str e ''bases'' = fs_head st \<and> fs_head st' = ev_pinId e \<and> tree_inv (fs_nodes st') \<and>
     fs_ignored st' = fs_ignored st"

definition ignored_step :: "fold_state \<Rightarrow> chain_event \<Rightarrow> fold_state \<Rightarrow> bool" where
  "ignored_step st e st' \<longleftrightarrow>
     fs_nodes st' = fs_nodes st \<and> fs_head st' = fs_head st \<and>
     (\<exists>reason. fs_ignored st' = fs_ignored st @ [(ev_pinId e, reason)])"

lemma ignored_step_ignore: "fs_nodes st1 = fs_nodes st \<Longrightarrow> fs_head st1 = fs_head st \<Longrightarrow> fs_ignored st1 = fs_ignored st \<Longrightarrow>
  ignored_step st e (ignore_amend e reason st1)"
  by (simp add: ignored_step_def ignore_amend_def)

locale amend_fold =
  fixes step :: "fold_state \<Rightarrow> chain_event \<Rightarrow> fold_state option"
    and tree_inv :: "tree \<Rightarrow> bool" and admits :: "chain_event \<Rightarrow> bool" and same :: "tree \<Rightarrow> 'a"
  assumes step_cases: "step st e = Some st' \<Longrightarrow>
      ignored_step st e st' \<or> (admits e \<and> applied_step tree_inv st e st' \<and> same (fs_nodes st') = same (fs_nodes st))"
begin

lemma fold_run:
  "fold_amends_with step st es = Some st' \<Longrightarrow>
   \<exists>cs. version_chain (fs_head st) cs \<and> (\<forall>e \<in> set cs. admits e) \<and> fs_head st' = head_after (fs_head st) cs \<and>
     (cs = [] \<longrightarrow> fs_nodes st' = fs_nodes st) \<and> (cs \<noteq> [] \<longrightarrow> tree_inv (fs_nodes st')) \<and>
     same (fs_nodes st') = same (fs_nodes st) \<and>
     mset (map fst (fs_ignored st')) + mset (map ev_pinId cs) = mset (map fst (fs_ignored st)) + mset (map ev_pinId es)"
proof (induction es arbitrary: st)
  case Nil
  then show ?case by (intro exI [of _ "[]"]) (simp add: head_after_def)
next
  case (Cons e es)
  obtain st1 where st1: "step st e = Some st1" "fold_amends_with step st1 es = Some st'"
    using Cons.prems by (auto split: option.splits)
  obtain cs where cs: "version_chain (fs_head st1) cs" "\<forall>e \<in> set cs. admits e" "fs_head st' = head_after (fs_head st1) cs"
    "cs = [] \<longrightarrow> fs_nodes st' = fs_nodes st1" "cs \<noteq> [] \<longrightarrow> tree_inv (fs_nodes st')" "same (fs_nodes st') = same (fs_nodes st1)"
    "mset (map fst (fs_ignored st')) + mset (map ev_pinId cs) = mset (map fst (fs_ignored st1)) + mset (map ev_pinId es)"
    using Cons.IH [OF st1(2)] by blast
  from step_cases [OF st1(1)] show ?case
  proof
    assume "ignored_step st e st1"
    then show ?thesis using cs by (intro exI [of _ cs]) (auto simp: ignored_step_def)
  next
    assume "admits e \<and> applied_step tree_inv st e st1 \<and> same (fs_nodes st1) = same (fs_nodes st)"
    then show ?thesis using cs
      by (intro exI [of _ "e # cs"]) (auto simp: applied_step_def head_after_def split: if_splits)
  qed
qed

end

lemma fold_commit_cases:
  assumes "fold_commit ops invs st e = Some st'"
  shows "ignored_step st e st' \<or> (applied_step invs st e st' \<and>
    ops (scratch_copy (fs_nodes st)) (arr_or_empty (body_get e ''ops'')) = Applied (fs_nodes st'))"
  using assms
  by (auto simp: fold_commit_def Let_def applied_step_def intro!: ignored_step_ignore
           split: if_splits op_result.splits)

definition tree_admits :: "amend_ctx \<Rightarrow> chain_event \<Rightarrow> bool" where
  "tree_admits ctx e \<longleftrightarrow> \<not> below_gate (ev_height e) (am_hAct2 ctx) \<and> ev_author e = am_rootAuthor ctx \<and> \<not> am_rootVerified ctx"

definition comp_admits :: "comp_amend_ctx \<Rightarrow> chain_event \<Rightarrow> bool" where
  "comp_admits ctx e \<longleftrightarrow> \<not> below_gate (ev_height e) (cm_hAct2 ctx) \<and> ev_author e = cm_rootAuthor ctx"

definition comp_tree_ok :: "tree \<Rightarrow> bool" where
  "comp_tree_ok nodes \<longleftrightarrow> sumWeights nodes = 10000 \<and> isAcyclic nodes \<and> compDepsRefsValid nodes \<and> compDepsAcyclic nodes"

interpretation tree_fold: amend_fold "amend_step ctx" tree_invariants "tree_admits ctx" "\<lambda>_. ()" for ctx
  by unfold_locales
     (auto simp: amend_step_def tree_admits_def intro: ignored_step_ignore split: if_splits dest!: fold_commit_cases)

interpretation comp_fold: amend_fold "comp_amend_step ctx" comp_tree_ok "comp_admits ctx"
  "\<lambda>nodes. compFinalNode nodes (cm_finalnode ctx)" for ctx
proof
  fix st e st' assume s: "comp_amend_step ctx st e = Some st'"
  show "ignored_step st e st' \<or> (comp_admits ctx e \<and> applied_step comp_tree_ok st e st' \<and>
      compFinalNode (fs_nodes st') (cm_finalnode ctx) = compFinalNode (fs_nodes st) (cm_finalnode ctx))"
  proof (cases "comp_admits ctx e \<and> \<not> (case compFinalNode (fs_nodes st) (cm_finalnode ctx) of
                 None \<Rightarrow> False
               | Some f \<Rightarrow> satisfied (fs_nodes st) (cm_subs ctx) f (Some (orderKey e)))")
    case False
    then have "\<exists>reason. st' = ignore_amend e reason st"
      using s by (auto simp: comp_amend_step_def comp_admits_def split: if_splits)
    then show ?thesis by (auto intro: ignored_step_ignore)
  next
    case True
    then have "fold_commit (run_ops (comp_apply_op ctx (orderKey e) (fs_nodes st)))
        (comp_invariants (cm_finalnode ctx) (fs_nodes st)) st e = Some st'"
      using s by (simp add: comp_amend_step_def comp_admits_def split: if_splits)
    from fold_commit_cases [OF this] show ?thesis
      using True by (auto simp: applied_step_def comp_invariants_def comp_tree_ok_def terminalPinned_def split: option.splits)
  qed
qed

section \<open>Started nodes are frozen\<close>

lemma op_remove_frozen:
  assumes "op_remove frozen ref scratch targetId = Applied scratch'" "frozen n"
  shows "jget scratch' n = jget scratch n"
proof -
  obtain ok where ok: "removeWalk frozen scratch [targetId] = Some ok" "ok" "scratch' = jdel targetId scratch"
    using assms(1) by (auto simp: op_remove_def split: option.splits if_splits)
  then have "\<not> frozen targetId" by (subst (asm) removeWalk.simps) (auto split: if_splits)
  then show ?thesis using ok(3) assms(2) by auto
qed

lemma set_weight_shape: "set_weight scratch i t w = Applied s \<Longrightarrow> \<exists>x. s = jset i x scratch"
  by (auto simp: set_weight_def split: option.splits)

lemma set_text_shape: "set_text scratch i t f v = Applied s \<Longrightarrow> \<exists>x. s = jset i x scratch"
  by (auto simp: set_text_def split: if_splits)

lemma op_edit_weight_frozen:
  "op_edit frozen scratch i (\<lambda>t. set_weight scratch i t w) = Applied s \<Longrightarrow> frozen n \<Longrightarrow> jget s n = jget scratch n"
  by (auto simp: op_edit_def dest!: set_weight_shape split: option.splits if_splits)

lemma op_edit_text_frozen:
  "op_edit frozen scratch i (\<lambda>t. set_text scratch i t f v) = Applied s \<Longrightarrow> frozen n \<Longrightarrow> jget s n = jget scratch n"
  by (auto simp: op_edit_def dest!: set_text_shape split: option.splits if_splits)

lemmas ops_frozen = op_remove_frozen op_edit_weight_frozen op_edit_text_frozen

lemma op_add_keeps: "op_add ctx nodes scratch op = Applied scratch' \<Longrightarrow> jget scratch n = Some v \<Longrightarrow> jget scratch' n = Some v"
  by (auto simp: op_add_def Let_def jhas_get split: if_splits)

lemma apply_op_frozen:
  assumes a: "apply_op ctx key nodes scratch op = Applied scratch'" and f: "frozenAt ctx key n"
    and v: "jget scratch n = Some v"
  shows "jget scratch' n = Some v"
proof -
  consider "op_add ctx nodes scratch op = Applied scratch'"
    | "op_remove (frozenAt ctx key) (\<lambda>_. False) scratch (op_target op) = Applied scratch'"
    | "op_edit (frozenAt ctx key) scratch (op_target op)
         (\<lambda>t. set_weight scratch (op_target op) t (jprop op ''weight'')) = Applied scratch'"
    | "op_edit (frozenAt ctx key) scratch (op_target op)
         (\<lambda>t. set_text scratch (op_target op) t ''title'' (jprop op ''title'')) = Applied scratch'"
    | "op_edit (frozenAt ctx key) scratch (op_target op)
         (\<lambda>t. set_text scratch (op_target op) t ''specid'' (jprop op ''specid'')) = Applied scratch'"
    using a by (auto simp: apply_op_def Let_def split: if_splits)
  then show ?thesis
  proof cases
    case 1
    then show ?thesis using v by (rule op_add_keeps)
  qed (use v f in \<open>simp_all add: ops_frozen [where frozen = "frozenAt ctx key"]\<close>)
qed

lemma run_ops_frozen:
  "run_ops (apply_op ctx key nodes) scratch ops = Applied scratch' \<Longrightarrow> frozenAt ctx key n \<Longrightarrow>
   jget scratch n = Some v \<Longrightarrow> jget scratch' n = Some v"
  by (induction ops arbitrary: scratch) (auto split: op_result.splits dest: apply_op_frozen)

lemma jget_scratch_copy: "jget (scratch_copy nodes) n = map_option spread (jget nodes n)"
  by (induction nodes) (auto simp: scratch_copy_def)

theorem amend_step_frozen:
  assumes "amend_step ctx st e = Some st'" "frozenAt ctx (orderKey e) n" "jget (fs_nodes st) n = Some v"
  shows "jget (fs_nodes st') n = Some v \<or> jget (fs_nodes st') n = Some (spread v)"
proof (cases "tree_admits ctx e")
  case False
  then have "\<exists>reason. st' = ignore_amend e reason st"
    using assms(1) by (auto simp: amend_step_def tree_admits_def split: if_splits)
  then show ?thesis using assms(3) by (auto simp: ignore_amend_def)
next
  case True
  then have "fold_commit (run_ops (apply_op ctx (orderKey e) (fs_nodes st))) tree_invariants st e = Some st'"
    using assms(1) by (simp add: amend_step_def tree_admits_def)
  from fold_commit_cases [OF this] show ?thesis
  proof
    assume "ignored_step st e st'"
    then show ?thesis using assms(3) by (simp add: ignored_step_def)
  next
    assume "applied_step tree_invariants st e st' \<and>
      run_ops (apply_op ctx (orderKey e) (fs_nodes st)) (scratch_copy (fs_nodes st)) (arr_or_empty (body_get e ''ops'')) = Applied (fs_nodes st')"
    then have "run_ops (apply_op ctx (orderKey e) (fs_nodes st)) (scratch_copy (fs_nodes st)) (arr_or_empty (body_get e ''ops'')) = Applied (fs_nodes st')"
      by (rule conjunct2)
    from run_ops_frozen [OF this assms(2)] show ?thesis using assms(3) by (simp add: jget_scratch_copy)
  qed
qed

section \<open>Weights\<close>

text \<open>The fold's sum check is what it says: every weight an integer of 1..10000, 10000 in all.\<close>

lemma sumWeights_from_nonneg:
  "0 \<le> acc \<Longrightarrow> sumWeights_from acc ns = k \<Longrightarrow> 0 \<le> k \<Longrightarrow>
   (\<forall>nd \<in> set ns. int_in_range (jprop nd ''weight'') 1 10000 \<noteq> None) \<and>
   k = acc + sum_list (map (\<lambda>nd. the (int_in_range (jprop nd ''weight'') 1 10000)) ns)"
proof (induction ns arbitrary: acc)
  case (Cons node ns)
  obtain w where w: "int_in_range (jprop node ''weight'') 1 10000 = Some w"
    using Cons.prems by (auto split: option.splits)
  then have "1 \<le> w" by (auto simp: int_in_range_def split: option.splits json.splits if_splits)
  then have "(\<forall>nd \<in> set ns. int_in_range (jprop nd ''weight'') 1 10000 \<noteq> None) \<and>
     k = acc + w + sum_list (map (\<lambda>nd. the (int_in_range (jprop nd ''weight'') 1 10000)) ns)"
    using Cons.IH [of "acc + w"] Cons.prems w by simp
  then show ?case using w by simp
qed simp

lemma sumWeights_full:
  assumes "sumWeights nodes = 10000"
  shows "(\<forall>nd \<in> set (map snd nodes). int_in_range (jprop nd ''weight'') 1 10000 \<noteq> None) \<and>
    sum_list (map (\<lambda>nd. the (int_in_range (jprop nd ''weight'') 1 10000)) (map snd nodes)) = 10000"
  using sumWeights_from_nonneg [of 0 "map snd nodes" 10000] assms by (simp add: sumWeights_def)

section \<open>The searches of competitive mode\<close>

interpretation chain_search: memo_search "chain_ok tr subs" "chain_succs tr subs" "fst ` set subs" for tr subs
  by unfold_locales (auto simp: chain_succs_def Let_def jhas_iff split: option.splits if_splits)

interpretation deps_search: memo_search "\<lambda>_. True" "live_deps tr" "fst ` set tr" for tr
  by unfold_locales (auto simp: live_deps_def jhas_iff)

theorem chainValid_good: "chainValid tr subs pin = good (chain_ok tr subs) (chain_succs tr subs) pin"
proof (cases "pin \<in> fst ` set subs")
  case True
  have "card (fst ` set subs) \<le> length subs" by (metis card_length length_map list.set_map)
  then show ?thesis unfolding chainValid_def by (rule chain_search.memo_run_good [OF True])
next
  case False
  then have "\<not> chain_ok tr subs pin" by (simp add: chain_ok_def map_of_eq_None_iff [THEN iffD2])
  then show ?thesis by (auto simp: chainValid_def memo_run_def Let_def elim: good.cases)
qed

definition deps_rel :: "tree \<Rightarrow> (string \<times> string) set" where
  "deps_rel tr = {(n, d). d \<in> set (compDepsOf tr n) \<and> d \<in> fst ` set tr}"

lemma succ_rel_deps: "succ_rel (live_deps tr) = deps_rel tr"
  by (auto simp: succ_rel_def live_deps_def deps_rel_def jhas_iff)

lemma compDepsOf_key: "d \<in> set (compDepsOf tr n) \<Longrightarrow> n \<in> fst ` set tr"
  by (rule ccontr) (simp add: compDepsOf_def map_of_eq_None_iff [THEN iffD2])

theorem compDepsAcyclic_iff: "compDepsAcyclic tr \<longleftrightarrow> acyclic (deps_rel tr)"
proof -
  have c: "card (fst ` set tr) < Suc (length tr)" by (metis card_length le_imp_less_Suc length_map list.set_map)
  have pre: "\<forall>y. Some y \<in> set (map Some (map fst tr)) \<longrightarrow> y \<in> fst ` set tr" by auto
  obtain m where "memo_every (memo_visit (Suc (length tr)) (\<lambda>_. True) (live_deps tr)) (map Some (map fst tr)) [] =
      Some (None \<notin> set (map Some (map fst tr)) \<and>
        (\<forall>y. Some y \<in> set (map Some (map fst tr)) \<longrightarrow> good (\<lambda>_. True) (live_deps tr) y), m)"
    using deps_search.every_good [OF pre c memo_ok_empty] by blast
  then have "compDepsAcyclic tr \<longleftrightarrow> None \<notin> set (map Some (map fst tr)) \<and>
        (\<forall>y. Some y \<in> set (map Some (map fst tr)) \<longrightarrow> good (\<lambda>_. True) (live_deps tr) y)"
    unfolding compDepsAcyclic_def by (simp only: option.case prod.case)
  then have "compDepsAcyclic tr \<longleftrightarrow> (\<forall>x \<in> fst ` set tr. good (\<lambda>_. True) (live_deps tr) x)"
    by auto
  also have "\<dots> \<longleftrightarrow> acyclic (succ_rel (live_deps tr))"
    by (rule all_good_iff_acyclic) (use compDepsOf_key in \<open>auto simp: live_deps_def succ_rel_def jhas_iff\<close>)
  finally show ?thesis by (simp add: succ_rel_deps)
qed

section \<open>Keys of the tree stay distinct\<close>

abbreviation distinct_keys :: "tree \<Rightarrow> bool" where
  "distinct_keys nodes \<equiv> distinct (map fst nodes)"

lemma op_remove_distinct: "op_remove fr ref scratch t = Applied s \<Longrightarrow> distinct_keys scratch \<Longrightarrow> distinct_keys s"
  by (auto simp: op_remove_def split: option.splits if_splits intro: distinct_jdel)

lemma op_edit_weight_distinct:
  "op_edit fr scratch i (\<lambda>t. set_weight scratch i t w) = Applied s \<Longrightarrow> distinct_keys scratch \<Longrightarrow> distinct_keys s"
  by (auto simp: op_edit_def dest!: set_weight_shape split: option.splits if_splits)

lemma op_edit_text_distinct:
  "op_edit fr scratch i (\<lambda>t. set_text scratch i t f v) = Applied s \<Longrightarrow> distinct_keys scratch \<Longrightarrow> distinct_keys s"
  by (auto simp: op_edit_def dest!: set_text_shape split: option.splits if_splits)

lemma op_add_distinct: "op_add ctx nodes scratch op = Applied s \<Longrightarrow> distinct_keys scratch \<Longrightarrow> distinct_keys s"
  by (auto simp: op_add_def Let_def split: if_splits)

lemma comp_op_add_distinct: "comp_op_add fr nodes scratch op = Applied s \<Longrightarrow> distinct_keys scratch \<Longrightarrow> distinct_keys s"
  by (auto simp: comp_op_add_def Let_def split: if_splits)

lemmas ops_distinct = op_remove_distinct op_edit_weight_distinct op_edit_text_distinct op_add_distinct comp_op_add_distinct

lemma apply_op_distinct: "apply_op ctx key nodes scratch op = Applied s \<Longrightarrow> distinct_keys scratch \<Longrightarrow> distinct_keys s"
  unfolding apply_op_def Let_def by (simp split: if_splits) (auto dest: ops_distinct)

lemma comp_apply_op_distinct: "comp_apply_op ctx key nodes scratch op = Applied s \<Longrightarrow> distinct_keys scratch \<Longrightarrow> distinct_keys s"
  unfolding comp_apply_op_def Let_def by (simp split: if_splits) (auto dest: ops_distinct)

lemma run_ops_distinct:
  assumes "\<And>scratch op s. apply scratch op = Applied s \<Longrightarrow> distinct_keys scratch \<Longrightarrow> distinct_keys s"
  shows "run_ops apply scratch ops = Applied s \<Longrightarrow> distinct_keys scratch \<Longrightarrow> distinct_keys s"
  by (induction ops arbitrary: scratch) (auto split: op_result.splits dest: assms)

lemma distinct_scratch_copy [simp]: "distinct_keys (scratch_copy nodes) \<longleftrightarrow> distinct_keys nodes"
  by (simp add: scratch_copy_def case_prod_unfold comp_def)

lemma fold_commit_distinct:
  assumes "fold_commit (run_ops apply) invs st e = Some st'" "distinct_keys (fs_nodes st)"
    and "\<And>scratch op s. apply scratch op = Applied s \<Longrightarrow> distinct_keys scratch \<Longrightarrow> distinct_keys s"
  shows "distinct_keys (fs_nodes st')"
  using fold_commit_cases [OF assms(1)]
proof
  assume "ignored_step st e st'"
  then show ?thesis using assms(2) by (simp add: ignored_step_def)
next
  assume "applied_step invs st e st' \<and>
    run_ops apply (scratch_copy (fs_nodes st)) (arr_or_empty (body_get e ''ops'')) = Applied (fs_nodes st')"
  then have "run_ops apply (scratch_copy (fs_nodes st)) (arr_or_empty (body_get e ''ops'')) = Applied (fs_nodes st')"
    by (rule conjunct2)
  then show ?thesis by (rule run_ops_distinct [rotated]) (simp_all add: assms(2,3))
qed

lemma fold_amends_invariant:
  assumes "\<And>st e st'. step st e = Some st' \<Longrightarrow> P st \<Longrightarrow> P st'"
  shows "fold_amends_with step st es = Some st' \<Longrightarrow> P st \<Longrightarrow> P st'"
  by (induction es arbitrary: st) (auto split: option.splits dest: assms)

lemma foldAmends_distinct:
  assumes "foldAmends ctx nodes es = Some st" "distinct_keys nodes" shows "distinct_keys (fs_nodes st)"
proof -
  have "distinct_keys (fs_nodes st')" if "amend_step ctx st e = Some st'" "distinct_keys (fs_nodes st)" for st e st'
    using that fold_commit_distinct [OF _ that(2) apply_op_distinct]
    by (auto simp: amend_step_def ignore_amend_def split: if_splits)
  from fold_amends_invariant [of "amend_step ctx" "\<lambda>st. distinct_keys (fs_nodes st)", OF this] show ?thesis
    using assms unfolding foldAmends_def by (auto simp: fold_init_def)
qed

lemma foldCompetitiveAmends_distinct:
  assumes "foldCompetitiveAmends ctx nodes es = Some st" "distinct_keys nodes" shows "distinct_keys (fs_nodes st)"
proof -
  have "distinct_keys (fs_nodes st')" if "comp_amend_step ctx st e = Some st'" "distinct_keys (fs_nodes st)" for st e st'
    using that fold_commit_distinct [OF _ that(2) comp_apply_op_distinct]
    by (auto simp: comp_amend_step_def ignore_amend_def split: if_splits)
  from fold_amends_invariant [of "comp_amend_step ctx" "\<lambda>st. distinct_keys (fs_nodes st)", OF this] show ?thesis
    using assms unfolding foldCompetitiveAmends_def by (auto simp: fold_init_def)
qed

end
