(* ===== verification/SettleFacts.thy ===== *)
theory SettleFacts
  imports NodeViews
begin

text \<open>
  Settlement and statistics: the share loop never pays more than the weights of the paid nodes,
  pays every column a non-negative amount, and loses at most one basis point per review to
  rounding; the share list adds up to the amounts paid; counters add up to the node count.
\<close>

section \<open>The share loop\<close>

lemma reviewerAccuracy_pos:
  "0 < jget_or (reviewerAccuracy ps) r REVIEWER_ACCURACY_FLOOR_BP"
proof -
  have "(\<forall>r. 0 < jget_or m r REVIEWER_ACCURACY_FLOOR_BP) \<Longrightarrow>
      0 < jget_or (foldl (\<lambda>m s. jset (pa_metaId s) (laplace (pa_reviewCorrect s) (pa_reviewTerminal s)) m) m ps) r
            REVIEWER_ACCURACY_FLOOR_BP" for m
  proof (induction ps arbitrary: m)
    case (Cons a ps)
    have "0 < laplace (pa_reviewCorrect a) (pa_reviewTerminal a)" using laplace_bounds(1) by (rule order.strict_trans2 [rotated]) simp
    then show ?case using Cons.IH [of "jset (pa_metaId a) (laplace (pa_reviewCorrect a) (pa_reviewTerminal a)) m"] Cons.prems
      by simp
  qed simp
  from this [of "[]"] show ?thesis
    unfolding reviewerAccuracy_def by (simp add: jget_or_def REVIEWER_ACCURACY_FLOOR_BP_def)
qed

text \<open>The weight a listed node is paid, and its reviewers.\<close>

definition paid_weight :: "weights \<Rightarrow> string \<Rightarrow> int" where
  "paid_weight weights node = max 0 (jget_or weights (Some (JStr node)) 0)"

definition paid_total :: "weights \<Rightarrow> (string \<times> string \<times> string) list \<Rightarrow> int" where
  "paid_total weights paid = sum_list (map (\<lambda>(node, _). paid_weight weights node) paid)"

definition review_count :: "replay_ctx \<Rightarrow> (string \<times> string \<times> string) list \<Rightarrow> int" where
  "review_count ctx paid = sum_list (map (\<lambda>(_, pinId, author). int (length (reviewersOf ctx pinId author))) paid)"

locale share_split =
  fixes ctx :: replay_ctx and accuracy :: "(string, int) jsmap"
  assumes sigma: "0 \<le> rc_submitterShareBP ctx" "rc_submitterShareBP ctx \<le> 10000"
    and accuracy_pos: "0 < jget_or accuracy r REVIEWER_ACCURACY_FLOOR_BP"
begin

lemma payable_node: "0 < w \<Longrightarrow>
  payable (rc_submitterShareBP ctx) (\<lambda>r. jget_or accuracy r REVIEWER_ACCURACY_FLOOR_BP) w reviewers"
  using sigma accuracy_pos by (simp add: payable_def)

lemma settle_step:
  fixes parts :: parts and weights :: weights and node pinId author :: string
  defines "parts' \<equiv> settleNode ctx weights accuracy parts (node, pinId, author)"
  shows "total_paid parts' \<le> total_paid parts + paid_weight weights node"
    and "total_paid parts + paid_weight weights node \<le> total_paid parts' + int (length (reviewersOf ctx pinId author))"
    and "nonneg_parts parts \<Longrightarrow> nonneg_parts parts'"
    and "distinct (map fst parts) \<Longrightarrow> distinct (map fst parts')"
proof -
  define w where "w = jget_or weights (Some (JStr node)) 0"
  have p: "parts' = (if w \<le> 0 then parts else pay_node (rc_submitterShareBP ctx)
      (\<lambda>r. jget_or accuracy r REVIEWER_ACCURACY_FLOOR_BP) w author (reviewersOf ctx pinId author) parts)"
    by (simp add: parts'_def settleNode_def Let_def w_def)
  have pw: "paid_weight weights node = (if w \<le> 0 then 0 else w)" by (simp add: paid_weight_def w_def)
  show "total_paid parts' \<le> total_paid parts + paid_weight weights node"
    using pay_node_total(1) [OF payable_node] by (simp add: p pw)
  show "total_paid parts + paid_weight weights node \<le> total_paid parts' + int (length (reviewersOf ctx pinId author))"
    using pay_node_total(2) [OF payable_node] by (simp add: p pw)
  show "nonneg_parts parts \<Longrightarrow> nonneg_parts parts'"
    using pay_node_nonneg [OF payable_node] by (simp add: p)
  show "distinct (map fst parts) \<Longrightarrow> distinct (map fst parts')"
    using pay_node_distinct by (simp add: p)
qed

lemma settle_foldl:
  "total_paid (foldl (settleNode ctx weights accuracy) parts paid) \<le> total_paid parts + paid_total weights paid \<and>
   total_paid parts + paid_total weights paid \<le>
     total_paid (foldl (settleNode ctx weights accuracy) parts paid) + review_count ctx paid \<and>
   (nonneg_parts parts \<longrightarrow> nonneg_parts (foldl (settleNode ctx weights accuracy) parts paid)) \<and>
   (distinct (map fst parts) \<longrightarrow> distinct (map fst (foldl (settleNode ctx weights accuracy) parts paid)))"
proof (induction paid arbitrary: parts)
  case (Cons x paid)
  obtain node pinId author where x: "x = (node, pinId, author)" by (cases x)
  note step = settle_step [where weights = weights and parts = parts and node = node and pinId = pinId and author = author]
  show ?case using Cons.IH [of "settleNode ctx weights accuracy parts x"] step
    by (simp add: x paid_total_def review_count_def)
qed (simp add: paid_total_def review_count_def)

lemma settled:
  "total_paid (settleNodes ctx weights accuracy paid) \<le> paid_total weights paid"
  "paid_total weights paid \<le> total_paid (settleNodes ctx weights accuracy paid) + review_count ctx paid"
  "nonneg_parts (settleNodes ctx weights accuracy paid)"
  "distinct (map fst (settleNodes ctx weights accuracy paid))"
  using settle_foldl [of weights "[]" paid] by (simp_all add: settleNodes_def total_paid_def nonneg_parts_def)

end

text \<open>Paid nodes are distinct, so they never take more than the whole table.\<close>

lemma paid_total_bound:
  assumes "distinct (map fst paid)" "good_weights weights b"
  shows "paid_total weights paid \<le> b"
proof -
  have d: "distinct (map (\<lambda>(node, _). Some (JStr node)) paid)"
    using assms(1) by (induction paid) (auto simp: image_iff)
  have nn: "0 \<le> jget_or weights k 0" for k
    using assms(2) by (auto simp: good_weights_def jget_or_def dest!: map_of_SomeD split: option.splits)
  have "paid_total weights paid = sum_list (map (\<lambda>k. jget_or weights k 0) (map (\<lambda>(node, _). Some (JStr node)) paid))"
    using nn by (simp add: paid_total_def paid_weight_def comp_def case_prod_unfold max_absorb2)
  also have "\<dots> \<le> sum_list (map snd weights)"
    using assms(2) by (intro lookup_sum_le [OF d]) (simp_all add: good_weights_def)
  also have "\<dots> \<le> b" using assms(2) by (simp add: good_weights_def)
  finally show ?thesis .
qed

lemma shares_sum: "sum_list (map sh_shareBP (sortShares parts)) = total_paid parts"
proof -
  have "mset (map sh_shareBP (sortShares parts)) = mset (map (\<lambda>(_, p). part_total p) parts)"
    by (simp add: sortShares_def toShare_def part_total_def case_prod_unfold image_mset.compositionality comp_def)
  then show ?thesis unfolding total_paid_def by (metis sum_mset_sum_list)
qed

lemma shares_nonneg: "nonneg_parts parts \<Longrightarrow> \<forall>s \<in> set (sortShares parts). 0 \<le> sh_shareBP s"
  by (force simp: sortShares_def toShare_def nonneg_parts_def)

lemma shares_distinct: "distinct (map fst parts) \<Longrightarrow> distinct (map sh_metaId (sortShares parts))"
proof -
  assume d: "distinct (map fst parts)"
  have "mset (map sh_metaId (sortShares parts)) = mset (map fst parts)"
    by (simp add: sortShares_def toShare_def case_prod_unfold image_mset.compositionality comp_def)
  then show ?thesis using d by (metis mset_eq_imp_distinct_iff)
qed

lemma shares_sorted: "sorted (map (\<lambda>s. - sh_shareBP s) (sortShares parts))"
proof -
  have "sorted (map (\<lambda>s. (- sh_shareBP s, sh_metaId s)) (sortShares parts))" by (simp add: sortShares_def)
  then show ?thesis
    unfolding sorted_map by (rule sorted_wrt_mono_rel [rotated]) (auto simp: less_eq_prod_def)
qed

section \<open>Counters\<close>

lemma countNode_sums:
  "pr_total (countNode st d p) = pr_total p + 1"
  "pr_verified (countNode st d p) + pr_claimed (countNode st d p) + pr_open (countNode st d p) =
     pr_verified p + pr_claimed p + pr_open p + 1"
  "pr_satisfied p = pr_verified p \<Longrightarrow> pr_satisfied (countNode st d p) = pr_verified (countNode st d p)"
  "pr_disputed (countNode st d p) = pr_disputed p + (if d then 1 else 0)"
  "pr_verified (countNode st d p) = pr_verified p + (if st = StVerified then 1 else 0)"
  by (cases st; simp add: countNode_def Let_def)+

lemma progress_foldl:
  fixes p0 :: progress
  fixes status :: "string \<Rightarrow> node_status" and D :: "string set" and nodes :: "string list"
  assumes "pr_satisfied p0 = pr_verified p0" "pr_total p0 = pr_verified p0 + pr_claimed p0 + pr_open p0"
  defines "r \<equiv> foldl (\<lambda>p node. countNode (status node) (node \<in> D) p) p0 nodes"
  shows "pr_total r = pr_total p0 + length nodes" "pr_total r = pr_verified r + pr_claimed r + pr_open r"
    "pr_satisfied r = pr_verified r"
    "pr_verified r = pr_verified p0 + length (filter (\<lambda>n. status n = StVerified) nodes)"
    "pr_disputed r = pr_disputed p0 + length (filter (\<lambda>n. n \<in> D) nodes)"
proof -
  have "pr_total r = pr_total p0 + length nodes \<and> pr_total r = pr_verified r + pr_claimed r + pr_open r \<and>
     pr_satisfied r = pr_verified r \<and>
     pr_verified r = pr_verified p0 + length (filter (\<lambda>n. status n = StVerified) nodes) \<and>
     pr_disputed r = pr_disputed p0 + length (filter (\<lambda>n. n \<in> D) nodes)"
    using assms(1,2) unfolding r_def
  proof (induction nodes arbitrary: p0)
    case (Cons n nodes)
    have "pr_satisfied (countNode (status n) (n \<in> D) p0) = pr_verified (countNode (status n) (n \<in> D) p0)"
      "pr_total (countNode (status n) (n \<in> D) p0) = pr_verified (countNode (status n) (n \<in> D) p0) +
         pr_claimed (countNode (status n) (n \<in> D) p0) + pr_open (countNode (status n) (n \<in> D) p0)"
      using Cons.prems countNode_sums(1,2,3) [where st = "status n" and d = "n \<in> D" and p = p0] by auto
    from Cons.IH [OF this] show ?case by (simp add: countNode_sums)
  qed simp
  then show "pr_total r = pr_total p0 + length nodes" "pr_total r = pr_verified r + pr_claimed r + pr_open r"
    "pr_satisfied r = pr_verified r"
    "pr_verified r = pr_verified p0 + length (filter (\<lambda>n. status n = StVerified) nodes)"
    "pr_disputed r = pr_disputed p0 + length (filter (\<lambda>n. n \<in> D) nodes)" by blast+
qed

end
