(* ===== verification/ReplayFacts.thy ===== *)
theory ReplayFacts
  imports Replay AmendFacts SettleFacts
begin

text \<open>
  Facts about whole replays, on which the properties rest: the vote maps that the front half
  hands to the modes, what the walk's invariants say of the final node states, bounds of the
  settlement, counters, and independence of the order in which the pool delivers the pins.
\<close>

section \<open>The context of a replay\<close>

lemma rc_sel:
  "rc_byPath (replayCtxOf opts b ts) = b"
  "rc_taskSet (replayCtxOf opts b ts) = ts"
  "rc_policy (replayCtxOf opts b ts) = policyOf ts"
  "rc_quorum (replayCtxOf opts b ts) = quorumOf (policyOf ts)"
  "rc_submitterShareBP (replayCtxOf opts b ts) = submitterShareOf (splitOf (policyOf ts))"
  "rc_hAct2 (replayCtxOf opts b ts) = gateAct2 opts"
  "rc_now (replayCtxOf opts b ts) = ro_now opts"
  "rc_submissionAuthor (replayCtxOf opts b ts) = submissionMap ev_author ts"
  "rc_submissionBody (replayCtxOf opts b ts) = submissionMap ev_body ts"
  "rc_votesByTarget (replayCtxOf opts b ts) = votesByTargetOf (snd (votePrepass (voteCtxOf opts ts) (pathList b ''verify'')))"
  "rc_lastVoteByPin (replayCtxOf opts b ts) = lastVoteByPinOf (snd (votePrepass (voteCtxOf opts ts) (pathList b ''verify'')))"
  by (simp_all add: replayCtxOf_def Let_def case_prod_unfold)

lemma distinct_lastVoteByPin: "distinct (map fst (lastVoteByPinOf lv))"
proof -
  have "distinct (map fst m) \<Longrightarrow> distinct (map fst (foldl (\<lambda>m v. jset (vr_pinId v) v m) m vs))" for m and vs :: "vote_record list"
    by (induction vs arbitrary: m) (auto intro: distinct_jset)
  then show ?thesis by (simp add: lastVoteByPinOf_def)
qed

lemma lastVoteByPin_value:
  assumes "v \<in> snd ` set (lastVoteByPinOf lv)" shows "v \<in> snd ` set lv"
proof -
  obtain p where "(p, v) \<in> set (lastVoteByPinOf lv)" using assms by auto
  then have "jget (lastVoteByPinOf lv) p = Some v" by (rule jget_in [OF distinct_lastVoteByPin])
  then show ?thesis by (rule lastVoteByPinOf_SomeD [THEN conjunct1])
qed

lemma votesOn_replay:
  "votesOn (replayCtxOf opts b ts) pin =
     filter (\<lambda>v. vr_target v = pin) (map snd (snd (votePrepass (voteCtxOf opts ts) (pathList b ''verify''))))"
  by (simp add: votesOn_def rc_sel votesByTargetOf_def)

lemma votesOn_distinct: "distinct (map vr_bot (votesOn (replayCtxOf opts b ts) pin))"
  using one_vote_per_bot by (simp add: votesOn_def rc_sel)

lemma submissionMap_get:
  assumes "distinct (map ev_pinId (ts_submissions ts))" "e \<in> set (ts_submissions ts)"
  shows "jget (submissionMap f ts) (ev_pinId e) = Some (f e)"
proof -
  have "distinct (map ev_pinId es) \<Longrightarrow> e \<in> set es \<Longrightarrow>
      jget (foldl (\<lambda>m sub. jset (ev_pinId sub) (f sub) m) m es) (ev_pinId e) = Some (f e)" for m es
  proof (induction es rule: rev_induct)
    case (snoc a es)
    show ?case
    proof (cases "e = a")
      case False
      then have "ev_pinId e \<noteq> ev_pinId a" "e \<in> set es" using snoc.prems by (auto simp: image_iff)
      then show ?thesis using snoc by simp
    qed simp
  qed simp
  then show ?thesis using assms by (simp add: submissionMap_def)
qed

lemma ts_submissions_in:
  "e \<in> set (ts_submissions (buildEventSet (byPathOf events) rt)) \<longleftrightarrow>
     e \<in> set events \<and> ev_path e = ''submission'' \<and> body_str e ''taskid'' = ev_pinId rt"
  by (auto simp: buildEventSet_def Let_def set_pathList)

lemma ts_submissions_distinct:
  assumes "distinct (map ev_pinId events)"
  shows "distinct (map ev_pinId (ts_submissions (buildEventSet (byPathOf events) rt)))"
proof -
  have d: "distinct events" and inj: "inj_on ev_pinId (set events)" using assms by (simp_all add: distinct_map)
  let ?l = "ts_submissions (buildEventSet (byPathOf events) rt)"
  have "distinct ?l" using d by (simp add: buildEventSet_def Let_def pathList_byPathOf)
  moreover have "set ?l \<subseteq> set events" using ts_submissions_in by blast
  ultimately show ?thesis using inj by (auto simp: distinct_map intro: inj_on_subset)
qed

section \<open>Tree mode: what verification means\<close>

text \<open>The counted pass votes on the one submission of a cycle include its supporters.\<close>

lemma supporters_are_counted:
  assumes "cy_submissions cycle = [s]"
    and "jget_or (rc_submissionAuthor (replayCtxOf opts b ts)) (cs_pinId s) '''' = cs_author s"
  shows "length (supporters (treeWalkCtx (replayCtxOf opts b ts)) cycle) \<le>
    passVotesOn (replayCtxOf opts b ts) (cs_pinId s) (cs_author s)"
proof -
  let ?ctx = "replayCtxOf opts b ts"
  let ?w = "treeWalkCtx ?ctx"
  let ?on = "filter (\<lambda>v. is_pass v \<and> identityOk (rc_rootAuthor ?ctx) (cs_author s) v) (votesOn ?ctx (cs_pinId s))"
  have "set (supporters ?w cycle) \<subseteq> vr_bot ` set ?on"
  proof
    fix bot assume "bot \<in> set (supporters ?w cycle)"
    then obtain v where v: "v \<in> snd ` set (rc_lastVoteByPin ?ctx)" "supports ?w cycle v" "bot = vr_bot v"
      by (auto simp: supporters_def treeWalkCtx_def)
    have "vr_target v = cs_pinId s" "is_pass v" "identityOk (rc_rootAuthor ?ctx) (cs_author s) v"
      using v(2) assms by (auto simp: supports_def treeWalkCtx_def identityOk_def)
    moreover have "v \<in> set (votesOn ?ctx (cs_pinId s))"
      using lastVoteByPin_value v(1) \<open>vr_target v = cs_pinId s\<close> by (simp add: rc_sel votesOn_replay)
    ultimately show "bot \<in> vr_bot ` set ?on" using v(3) by auto
  qed
  then have "card (set (supporters ?w cycle)) \<le> card (vr_bot ` set ?on)" by (intro card_mono) auto
  also have "\<dots> \<le> length ?on" using card_length [of "map vr_bot ?on"] by (simp only: set_map length_map)
  finally show ?thesis by (simp add: passVotesOn_def length_supporters)
qed

lemma rc_rootAuthor_walk: "wc_rootAuthor (treeWalkCtx ctx) = rc_rootAuthor ctx"
  by (simp add: treeWalkCtx_def)

lemma timeline_events:
  assumes "e \<in> set (treeTimeline (byPathOf events) (buildEventSet (byPathOf events) rt) lv)"
  shows "e \<in> set events \<and> (ev_path e = ''submission'' \<longrightarrow> e \<in> set (ts_submissions (buildEventSet (byPathOf events) rt)))"
proof -
  have "e \<in> set (pathList (byPathOf events) ''claim'') \<or> e \<in> set (pathList (byPathOf events) ''release'') \<or>
      e \<in> set (ts_submissions (buildEventSet (byPathOf events) rt)) \<or> e \<in> set (pathList (byPathOf events) ''verify'')"
    using assms by (auto simp: treeTimeline_def Let_def)
  then show ?thesis
    unfolding set_pathList ts_submissions_in by fastforce
qed

text \<open>The walk of a replay over a pool with well-formed pin ids: they are distinct (the store is
  keyed by pin id) and, being a transaction id, \<open>i\<close> and an index, hold no space.\<close>

definition good_pool :: "chain_event list \<Rightarrow> bool" where
  "good_pool events \<longleftrightarrow> distinct (map ev_pinId events) \<and> list_all (\<lambda>e. space_free (ev_pinId e)) events"

definition poolCtx :: "replay_options \<Rightarrow> chain_event list \<Rightarrow> chain_event \<Rightarrow> replay_ctx" where
  "poolCtx opts events rt = replayCtxOf opts (byPathOf events) (buildEventSet (byPathOf events) rt)"

lemmas pool_defs = poolCtx_def rc_sel good_pool_def list_all_iff

lemma walked_inv:
  assumes "good_pool events"
  shows "walk_inv (treeWalkCtx (poolCtx opts events rt)) (treeWalked (poolCtx opts events rt))"
proof -
  let ?ctx = "poolCtx opts events rt"
  have votes: "vr_pinId v = p" if "jget (wc_lastVoteByPin (treeWalkCtx ?ctx)) p = Some v" for p v
    using that lastVoteByPinOf_SomeD by (simp add: treeWalkCtx_def pool_defs)
  have pins: "\<forall>pin \<in> set (treeTimeline (rc_byPath ?ctx) (rc_taskSet ?ctx) (rc_lastVoteByPin ?ctx)). space_free (ev_pinId pin)"
  proof
    fix pin assume "pin \<in> set (treeTimeline (rc_byPath ?ctx) (rc_taskSet ?ctx) (rc_lastVoteByPin ?ctx))"
    then have "pin \<in> set (treeTimeline (byPathOf events) (buildEventSet (byPathOf events) rt) (rc_lastVoteByPin ?ctx))"
      by (simp only: poolCtx_def rc_sel)
    from timeline_events [OF this] show "space_free (ev_pinId pin)"
      using assms by (simp add: good_pool_def list_all_iff)
  qed
  show ?thesis unfolding treeWalked_def by (rule treeWalk_inv [OF votes pins])
qed

text \<open>Submissions of a cycle are pins of the task, under their author.\<close>

definition from_pool :: "chain_event list \<Rightarrow> chain_event \<Rightarrow> cycle_submission \<Rightarrow> bool" where
  "from_pool events rt s \<longleftrightarrow>
     (\<exists>e \<in> set (ts_submissions (buildEventSet (byPathOf events) rt)). s = toCycleSubmission e)"

lemma walked_subs: "subs_inv (from_pool events rt) (treeWalked (poolCtx opts events rt))"
proof -
  let ?ctx = "poolCtx opts events rt"
  have "\<forall>pin \<in> set (treeTimeline (rc_byPath ?ctx) (rc_taskSet ?ctx) (rc_lastVoteByPin ?ctx)).
      ev_path pin = ''submission'' \<longrightarrow> from_pool events rt (toCycleSubmission pin)"
  proof
    fix pin assume "pin \<in> set (treeTimeline (rc_byPath ?ctx) (rc_taskSet ?ctx) (rc_lastVoteByPin ?ctx))"
    then have "pin \<in> set (treeTimeline (byPathOf events) (buildEventSet (byPathOf events) rt) (rc_lastVoteByPin ?ctx))"
      by (simp only: poolCtx_def rc_sel)
    from timeline_events [OF this]
    show "ev_path pin = ''submission'' \<longrightarrow> from_pool events rt (toCycleSubmission pin)"
      unfolding from_pool_def by blast
  qed
  then show ?thesis unfolding treeWalked_def by (rule treeWalk_subs)
qed

lemma from_pool_author:
  assumes "good_pool events" "from_pool events rt s"
  shows "jget_or (rc_submissionAuthor (poolCtx opts events rt)) (cs_pinId s) '''' = cs_author s"
proof -
  have d: "distinct (map ev_pinId events)" using assms(1) by (simp add: good_pool_def)
  obtain e where e: "s = toCycleSubmission e" "e \<in> set (ts_submissions (buildEventSet (byPathOf events) rt))"
    using assms(2) by (auto simp: from_pool_def)
  from submissionMap_get [OF ts_submissions_distinct [OF d] e(2), of ev_author]
  show ?thesis by (simp add: e(1) poolCtx_def rc_sel jget_or_def toCycleSubmission_def)
qed

text \<open>A final-verified node: its active cycle is a verified one of the walk.\<close>

lemma finalVerified_cycle:
  assumes "treeViewOf ctx = Some tv" "node \<in> set (tv_finalVerified tv)" "subs_inv Q (treeWalked ctx)"
  obtains key cycle eff where
    "jget (wk_cycles (treeWalked ctx)) key = Some cycle" "jget (tv_active tv) node = Some cycle"
    "cy_outcome cycle = Verified" "cy_effective cycle = Some eff"
proof -
  let ?active = "activeCycleByNodeOf (wk_cycles (treeWalked ctx))"
  have tv: "tv_active tv = ?active" "\<exists>tr. finalVerified ctx ?active tr node"
    using assms by (auto simp: treeViewOf_def Let_def split: option.splits)
  then obtain tr where "finalVerified ctx ?active tr node" by blast
  then have "final_ok ctx ?active tr node"
    by (auto simp: finalVerified_def memo_run_def Let_def split: option.splits if_splits)
  then obtain cycle eff where c: "jget ?active node = Some cycle" "cy_effective cycle = Some eff" "cy_outcome cycle = Verified"
    by (auto simp: final_ok_def split: option.splits)
  from activeCycle_in [OF c(1)] obtain key where k: "(key, cycle) \<in> set (wk_cycles (treeWalked ctx))" by auto
  have "distinct (map fst (wk_cycles (treeWalked ctx)))" using assms(3) by (simp add: subs_inv_def)
  then have "jget (wk_cycles (treeWalked ctx)) key = Some cycle" using k by (rule jget_in)
  then show thesis using that c tv(1) by simp
qed

section \<open>The projection of a replay that returns\<close>

definition projected :: "(replay_error + task_projection) option \<Rightarrow> task_projection list" where
  "projected r = (case r of Some (Inr p) \<Rightarrow> [p] | _ \<Rightarrow> [])"

lemma projected_run: "projected r \<noteq> [] \<Longrightarrow> r = Some (Inr (hd (projected r)))"
  by (auto simp: projected_def split: option.splits sum.splits)

section \<open>From a projection back to its replay\<close>

lemma po_mode_projection [simp]:
  "po_mode (tp_policy (projectionOf sha ctx mode tr headId ns pr c ps st ex ign)) = mode"
  "po_verifyQuorum (tp_policy (projectionOf sha ctx mode tr headId ns pr c ps st ex ign)) = rc_quorum ctx"
  "tp_nodeStates (projectionOf sha ctx mode tr headId ns pr c ps st ex ign) = ns"
  "tp_progress (projectionOf sha ctx mode tr headId ns pr c ps st ex ign) = pr"
  "tp_taskComplete (projectionOf sha ctx mode tr headId ns pr c ps st ex ign) = c"
  "tp_settlement (projectionOf sha ctx mode tr headId ns pr c ps st ex ign) = st"
  "tp_nodes (projectionOf sha ctx mode tr headId ns pr c ps st ex ign) = map snd tr"
  "tp_publisher (projectionOf sha ctx mode tr headId ns pr c ps st ex ign) = rc_rootAuthor ctx"
  by (simp_all add: projectionOf_def policyView_def Let_def)

lemma treeProject_mode [simp]: "po_mode (tp_policy (treeProject sha ctx tv)) = ''tree''"
  and compProject_mode [simp]: "po_mode (tp_policy (compProject sha ctx cv)) = ''competitive''"
  by (simp_all add: treeProject_def compProject_def Let_def case_prod_unfold)

lemma replay_run:
  "replayMetaTask sha events opts =
     (case rootPinOf (byPathOf events) (ro_rootPinId opts) of
        None \<Rightarrow> Some (Inl NoTaskRootPin)
      | Some rt \<Rightarrow>
          map_option Inr
            (if isCompetitive (rc_policy (poolCtx opts events rt)) then compReplay sha (poolCtx opts events rt)
             else treeReplay sha (poolCtx opts events rt)))"
  by (simp add: replayMetaTask_def taskEventSet_def Let_def poolCtx_def split: option.split)

lemma replay_tree_cases:
  assumes "replayMetaTask sha events opts = Some (Inr p)" "po_mode (tp_policy p) = ''tree''"
  obtains rt tv where "rootPinOf (byPathOf events) (ro_rootPinId opts) = Some rt"
    "treeViewOf (poolCtx opts events rt) = Some tv" "p = treeProject sha (poolCtx opts events rt) tv"
proof -
  obtain rt where rt: "rootPinOf (byPathOf events) (ro_rootPinId opts) = Some rt"
    and run: "(if isCompetitive (rc_policy (poolCtx opts events rt)) then compReplay sha (poolCtx opts events rt)
      else treeReplay sha (poolCtx opts events rt)) = Some p"
    using assms(1) unfolding replay_run by (auto split: option.splits)
  show thesis
  proof (cases "isCompetitive (rc_policy (poolCtx opts events rt))")
    case True
    then obtain cv where "p = compProject sha (poolCtx opts events rt) cv"
      using run by (auto simp: compReplay_def)
    then have "''tree'' = ''competitive''" using assms(2) by (simp only: compProject_mode)
    then show ?thesis by simp
  next
    case False
    then show ?thesis using run that [OF rt] by (auto simp: treeReplay_def)
  qed
qed

lemma replay_comp_cases:
  assumes "replayMetaTask sha events opts = Some (Inr p)" "po_mode (tp_policy p) = ''competitive''"
  obtains rt cv where "rootPinOf (byPathOf events) (ro_rootPinId opts) = Some rt"
    "compViewOf (poolCtx opts events rt) = Some cv" "p = compProject sha (poolCtx opts events rt) cv"
proof -
  obtain rt where rt: "rootPinOf (byPathOf events) (ro_rootPinId opts) = Some rt"
    and run: "(if isCompetitive (rc_policy (poolCtx opts events rt)) then compReplay sha (poolCtx opts events rt)
      else treeReplay sha (poolCtx opts events rt)) = Some p"
    using assms(1) unfolding replay_run by (auto split: option.splits)
  show thesis
  proof (cases "isCompetitive (rc_policy (poolCtx opts events rt))")
    case False
    then obtain tv where "p = treeProject sha (poolCtx opts events rt) tv"
      using run by (auto simp: treeReplay_def)
    then have "''tree'' = ''competitive''" using assms(2) by (simp only: treeProject_mode)
    then show ?thesis by simp
  next
    case True
    then show ?thesis using run that [OF rt] by (auto simp: compReplay_def)
  qed
qed

lemma treeProject_node:
  assumes "(node, np) \<in> set (tp_nodeStates (treeProject sha ctx tv))"
  obtains disputed where "np = treeNodeState ctx tv disputed node" "node \<in> set (map fst (tv_tree tv))"
  using assms by (auto simp: treeProject_def Let_def case_prod_unfold nodeSort_def)

lemma compProject_node:
  assumes "(node, np) \<in> set (tp_nodeStates (compProject sha ctx cv))"
  obtains disputed where "np = compNodeState ctx cv disputed node" "node \<in> set (map fst (cv_tree cv))"
  using assms by (auto simp: compProject_def Let_def case_prod_unfold nodeSort_def)

lemma treeNodeState_status [simp]: "np_status (treeNodeState ctx tv disputed node) = treeStatus tv node"
  by (simp add: treeNodeState_def nodeBase_def Let_def split: option.split)

lemma treeStatus_verified: "treeStatus tv node = StVerified \<longleftrightarrow> node \<in> set (tv_finalVerified tv)"
  by (simp add: treeStatus_def)

lemma compNodeState_status [simp]: "np_status (compNodeState ctx cv disputed node) = compStatus cv node"
  by (simp add: compNodeState_def nodeBase_def Let_def split: option.split)

text \<open>No submission of the pool asks to replace another.\<close>

definition no_supersedes :: "chain_event list \<Rightarrow> bool" where
  "no_supersedes events \<longleftrightarrow>
     list_all (\<lambda>e. ev_path e = ''submission'' \<longrightarrow> truthy_str_field e ''supersedeid'' = None) events"

lemma single_submission:
  assumes "good_pool events" "no_supersedes events"
    "jget (wk_cycles (treeWalked (poolCtx opts events rt))) key = Some cycle" "cy_effective cycle = Some eff"
  obtains s where "cy_submissions cycle = [s]" "eff = toEffective s" "from_pool events rt s"
proof -
  have s: "\<forall>s \<in> set (cy_submissions cycle). from_pool events rt s"
    "\<forall>s \<in> set (tl (cy_submissions cycle)). cs_supersedeid s \<noteq> None"
    using walked_subs [of events rt opts] assms(3) unfolding subs_inv_def by blast+
  have "cs_supersedeid s = None" if f: "from_pool events rt s" for s
  proof -
    obtain e where e: "e \<in> set (ts_submissions (buildEventSet (byPathOf events) rt))" "s = toCycleSubmission e"
      using f unfolding from_pool_def by blast
    have "e \<in> set events \<and> ev_path e = ''submission''" using e(1) unfolding ts_submissions_in by blast
    then have "truthy_str_field e ''supersedeid'' = None"
      using assms(2) unfolding no_supersedes_def list_all_iff by blast
    then show ?thesis by (simp add: e(2) toCycleSubmission_def)
  qed
  then have "set (tl (cy_submissions cycle)) = {}"
    using s by (cases "cy_submissions cycle") auto
  then have "tl (cy_submissions cycle) = []" by simp
  moreover have "cycle_ok cycle" using walk_inv_cycleD [OF walked_inv [OF assms(1)] assms(3)] by simp
  then have "cy_effective cycle =
      (if cy_submissions cycle = [] then None else Some (toEffective (last (cy_submissions cycle))))"
    unfolding cycle_ok_def by blast
  then have "cy_submissions cycle \<noteq> []" "eff = toEffective (last (cy_submissions cycle))"
    using assms(4) by (simp_all split: if_splits)
  ultimately obtain s0 where "cy_submissions cycle = [s0]" "eff = toEffective s0"
    by (cases "cy_submissions cycle") auto
  then show thesis using that s(1) by simp
qed

lemma tree_verified_quorum:
  assumes good: "good_pool events" "no_supersedes events"
    and tv: "treeViewOf (poolCtx opts events rt) = Some tv" and node: "node \<in> set (tv_finalVerified tv)"
  obtains eff where "effectiveOf (tv_active tv) node = Some eff"
    "rc_quorum (poolCtx opts events rt) \<le> of_nat (passVotesOn (poolCtx opts events rt) (ef_pinId eff) (ef_author eff))"
proof -
  let ?ctx = "poolCtx opts events rt"
  obtain key cycle eff where c: "jget (wk_cycles (treeWalked ?ctx)) key = Some cycle" "jget (tv_active tv) node = Some cycle"
      "cy_outcome cycle = Verified" "cy_effective cycle = Some eff"
    using finalVerified_cycle [OF tv node walked_subs] by blast
  obtain s where s: "cy_submissions cycle = [s]" "eff = toEffective s" "from_pool events rt s"
    using single_submission [OF good c(1,4)] by blast
  have "certified (treeWalkCtx ?ctx) cycle" using walk_inv_cycleD [OF walked_inv [OF good(1)] c(1)] c(3) by simp
  then have "rc_quorum ?ctx \<le> of_nat (length (supporters (treeWalkCtx ?ctx) cycle))"
    by (simp add: certified_def treeWalkCtx_def)
  also have "\<dots> \<le> of_nat (passVotesOn ?ctx (cs_pinId s) (cs_author s))"
    using supporters_are_counted [OF s(1), of opts "byPathOf events"] from_pool_author [OF good(1) s(3), of opts]
    by (simp add: poolCtx_def)
  finally show thesis using that [of eff] c(2,4) s(2) by (simp add: effectiveOf_def toEffective_def)
qed

lemma tree_node_quorum:
  assumes run: "replayMetaTask sha events opts = Some (Inr p)" "po_mode (tp_policy p) = ''tree''"
    and good: "good_pool events" "no_supersedes events"
    and node: "(node, np) \<in> set (tp_nodeStates p)" "np_status np = StVerified"
  shows "po_verifyQuorum (tp_policy p) \<le> of_nat (np_passVotes np)" "np_submission np \<noteq> None"
    "distinct (map vs_voter (np_votes np))"
proof -
  obtain rt tv where tv: "treeViewOf (poolCtx opts events rt) = Some tv" "p = treeProject sha (poolCtx opts events rt) tv"
    using replay_tree_cases [OF run] by blast
  let ?ctx = "poolCtx opts events rt"
  have "(node, np) \<in> set (tp_nodeStates (treeProject sha ?ctx tv))" using node(1) tv(2) by simp
  then obtain disputed where np: "np = treeNodeState ?ctx tv disputed node" by (rule treeProject_node)
  have "treeStatus tv node = StVerified" using node(2) unfolding np treeNodeState_status .
  then have "node \<in> set (tv_finalVerified tv)" unfolding treeStatus_verified .
  from tree_verified_quorum [OF good tv(1) this] obtain eff where e: "effectiveOf (tv_active tv) node = Some eff"
    "rc_quorum ?ctx \<le> of_nat (passVotesOn ?ctx (ef_pinId eff) (ef_author eff))" by blast
  have q: "po_verifyQuorum (tp_policy p) = rc_quorum ?ctx"
    by (simp add: tv(2) treeProject_def Let_def case_prod_unfold)
  show "po_verifyQuorum (tp_policy p) \<le> of_nat (np_passVotes np)" "np_submission np \<noteq> None"
    using e q by (simp_all add: np treeNodeState_def Let_def)
  have "map vs_voter (np_votes np) = map vr_bot (votesOn ?ctx (ef_pinId eff))"
    using e(1) by (simp add: np treeNodeState_def Let_def voteListOn_def toVoteSummary_def)
  then show "distinct (map vs_voter (np_votes np))" using votesOn_distinct by (simp add: poolCtx_def)
qed

section \<open>Settlement of a replay\<close>

lemma initialNodesOf_distinct: "distinct (map fst (initialNodesOf tb))"
proof -
  have "distinct (map fst (foldl (\<lambda>m raw. if is_object (Some raw) then jset (js_string_opt (jprop raw ''id'')) raw m else m) m raws))"
    if "distinct (map fst m)" for m :: tree and raws
    using that by (induction raws arbitrary: m) (auto intro: distinct_jset)
  then show ?thesis by (simp add: initialNodesOf_def split: option.split)
qed

lemma treeView_distinct: "treeViewOf ctx = Some tv \<Longrightarrow> distinct (map fst (tv_tree tv))"
  by (auto simp: treeViewOf_def Let_def split: option.splits intro: foldAmends_distinct [OF _ initialNodesOf_distinct])

lemma compView_distinct: "compViewOf ctx = Some cv \<Longrightarrow> distinct (map fst (cv_tree cv))"
  by (auto simp: compViewOf_def Let_def split: option.splits prod.splits
        intro: foldCompetitiveAmends_distinct [OF _ initialNodesOf_distinct])

lemma treePaid_distinct: "distinct (map fst (tv_tree tv)) \<Longrightarrow> distinct (map fst (treePaid tv))"
proof -
  assume d: "distinct (map fst (tv_tree tv))"
  define f where "f node = (case effectiveOf (tv_active tv) node of
      Some eff \<Rightarrow> if ef_pinId eff \<in> set (finalVerifiedPins tv) then [(node, ef_pinId eff, ef_author eff)] else []
    | None \<Rightarrow> [])" for node
  have f: "map fst (f node) = (if f node = [] then [] else [node])" for node
    by (simp add: f_def split: option.split)
  have "map fst (concat (map f nodes)) = filter (\<lambda>n. f n \<noteq> []) nodes" for nodes
    by (induction nodes) (auto simp: f)
  from this [of "map fst (tv_tree tv)"] show ?thesis using d by (simp add: treePaid_def f_def [abs_def])
qed

lemma chainClosure_distinct: "distinct (map fst taken) \<Longrightarrow> distinct (map fst (chainClosure tr subs stack taken))"
proof (induction tr subs stack taken rule: chainClosure.induct)
  case (2 tr subs sub stack taken)
  then show ?case by (cases "jhas taken (sb_node sub)") (auto simp: chainClosure.simps(2) intro: distinct_jset)
qed simp

lemma compPaid_distinct: "distinct (map fst (compPaid ctx cv))"
proof -
  have "map fst (compPaid ctx cv) = map fst (winningChainByNode ctx cv)"
    by (simp add: compPaid_def case_prod_unfold comp_def)
  then show ?thesis
    by (simp add: winningChainByNode_def chainClosure_distinct split: option.split)
qed

lemma submitterShare_range: "6000 \<le> submitterShareOf split" "submitterShareOf split \<le> 9000"
  by (simp_all add: submitterShareOf_def SUBMITTER_SHARE_BP_MAX_def SUBMITTER_SHARE_BP_MIN_def)

text \<open>The contract of the share loop holds for the context and the accuracies of any replay.\<close>

interpretation replay_split: share_split "poolCtx opts events rt" "reviewerAccuracy ps" for opts events rt ps
  using submitterShare_range [of "splitOf (policyOf (buildEventSet (byPathOf events) rt))"]
  by unfold_locales (simp_all add: poolCtx_def rc_sel reviewerAccuracy_pos)

text \<open>A manifest: amounts are non-negative, one line per bot, in descending order, and add up to at
  most 10000; at least the paid weights less one basis point per paid review.\<close>

definition sound_shares :: "share list \<Rightarrow> bool" where
  "sound_shares shares \<longleftrightarrow>
     list_all (\<lambda>s. 0 \<le> sh_shareBP s) shares \<and> distinct (map sh_metaId shares) \<and>
     sorted (map (\<lambda>s. - sh_shareBP s) shares) \<and> sum_list (map sh_shareBP shares) \<le> 10000"

lemma settleTask_sound:
  assumes "distinct (map fst paid)"
  shows "sound_shares (se_shares (settleTask sha (poolCtx opts events rt) tr ps paid unpaid ver mode chain))"
proof -
  let ?parts = "settleNodes (poolCtx opts events rt) (resolveNodeWeights tr) (reviewerAccuracy (map snd ps)) paid"
  note s = replay_split.settled [where opts = opts and events = events and rt = rt
    and weights = "resolveNodeWeights tr" and ps = "map snd ps" and paid = paid]
  have "total_paid ?parts \<le> 10000"
    using s(1) paid_total_bound [OF assms resolveNodeWeights_good] by (rule order_trans)
  then have "sound_shares (sortShares ?parts)"
    using shares_nonneg [OF s(3)] shares_distinct [OF s(4)] shares_sorted shares_sum [of ?parts]
    by (simp add: sound_shares_def list_all_iff)
  then show ?thesis by (simp add: settleTask_def Let_def)
qed

text \<open>What a replay settles: a complete task with no open challenge, with sound shares.\<close>

lemma disputed_none:
  assumes "openChallenges = []"
  shows "pr_disputed (foldl (\<lambda>p node. countNode (status node) (node \<in> set (map (\<lambda>(_, oc). oc_node oc) openChallenges)) p) noProgress nodes) = 0"
  using assms progress_foldl(5) [where ?p0.0 = noProgress and status = status and D = "{}" and nodes = nodes]
  by (simp add: noProgress_def)

lemma tree_settlement:
  assumes "treeViewOf (poolCtx opts events rt) = Some tv"
    "tp_settlement (treeProject sha (poolCtx opts events rt) tv) = Some s"
  shows "sound_shares (se_shares s)" "tp_taskComplete (treeProject sha (poolCtx opts events rt) tv)"
    "pr_disputed (tp_progress (treeProject sha (poolCtx opts events rt) tv)) = 0"
proof -
  let ?ctx = "poolCtx opts events rt"
  let ?open = "snd (treeChallenges ?ctx tv)"
  let ?prog = "treeProgress tv (map (\<lambda>(_, oc). oc_node oc) ?open)"
  have s: "treeComplete ?ctx tv ?prog" "?open = []"
    "s = settleTask sha ?ctx (tv_tree tv) (treeParticipants ?ctx tv) (treePaid tv) (treeUnpaid tv) ENGINE_ALGO_VERSION None None"
    using assms(2) by (auto simp: treeProject_def Let_def case_prod_unfold split: if_splits)
  show "sound_shares (se_shares s)"
    unfolding s(3) by (rule settleTask_sound [OF treePaid_distinct [OF treeView_distinct [OF assms(1)]]])
  show "tp_taskComplete (treeProject sha ?ctx tv)"
    using s(1) by (simp add: treeProject_def Let_def case_prod_unfold)
  show "pr_disputed (tp_progress (treeProject sha ?ctx tv)) = 0"
    using disputed_none [OF s(2)] by (simp add: treeProject_def Let_def case_prod_unfold treeProgress_def)
qed

lemma comp_settlement:
  assumes "tp_settlement (compProject sha (poolCtx opts events rt) cv) = Some s"
  shows "sound_shares (se_shares s)" "tp_taskComplete (compProject sha (poolCtx opts events rt) cv)"
    "pr_disputed (tp_progress (compProject sha (poolCtx opts events rt) cv)) = 0"
proof -
  let ?ctx = "poolCtx opts events rt"
  let ?open = "snd (compChallenges ?ctx cv)"
  have s: "winnerOf ?ctx cv \<noteq> None" "?open = []"
    "s = settleTask sha ?ctx (cv_tree cv) (compParticipants ?ctx cv) (compPaid ?ctx cv) (compUnpaid ?ctx cv)
       ENGINE_ALGO_VERSION_COMPETITIVE (Some ''competitive'') (Some (winningChain ?ctx cv))"
    using assms by (auto simp: compProject_def Let_def case_prod_unfold split: if_splits)
  show "sound_shares (se_shares s)"
    unfolding s(3) by (rule settleTask_sound [OF compPaid_distinct])
  show "tp_taskComplete (compProject sha ?ctx cv)"
    using s(1) by (simp add: compProject_def Let_def case_prod_unfold)
  show "pr_disputed (tp_progress (compProject sha ?ctx cv)) = 0"
    using disputed_none [OF s(2)] by (simp add: compProject_def Let_def case_prod_unfold compProgress_def)
qed

end
