(* ===== verification/CompFacts.thy ===== *)
theory CompFacts
  imports ReplayFacts
begin

text \<open>
  Competitive mode: the invariant of the walk (a verified candidate has a quorum of distinct
  supporters on that very candidate and no fail that acted on it), the winning chain (one
  submission per node, closed under deps, chain-valid throughout) and node leaders.
\<close>

section \<open>The walk\<close>

definition comp_supporters :: "walk_ctx \<Rightarrow> comp_submission \<Rightarrow> string list" where
  "comp_supporters ctx sub =
     remdups (map vr_bot (filter (\<lambda>v. is_pass v \<and> vr_target v = sb_pinId sub \<and>
         vr_bot v \<noteq> sb_author sub \<and> vr_bot v \<noteq> wc_rootAuthor ctx) (map snd (wc_lastVoteByPin ctx))))"

definition sub_ok :: "walk_ctx \<Rightarrow> string \<Rightarrow> comp_submission \<Rightarrow> bool" where
  "sub_ok ctx pin sub \<longleftrightarrow>
     sb_pinId sub = pin \<and> distinct (map fst (sb_passVoters sub)) \<and>
     fst ` set (sb_passVoters sub) \<subseteq> set (comp_supporters ctx sub) \<and>
     (sb_verified sub \<longrightarrow> \<not> sb_failed sub \<and> sb_verifiedVote sub \<noteq> None \<and>
        wc_quorum ctx \<le> of_nat (length (sb_passVoters sub)))"

definition comp_inv :: "walk_ctx \<Rightarrow> comp_walk \<Rightarrow> bool" where
  "comp_inv ctx st \<longleftrightarrow>
     (\<forall>pin vote. jget (wc_lastVoteByPin ctx) pin = Some vote \<longrightarrow> vr_pinId vote = pin) \<and>
     distinct (map fst (cw_subs st)) \<and>
     (\<forall>pin sub. jget (cw_subs st) pin = Some sub \<longrightarrow> sub_ok ctx pin sub)"

lemma comp_inv_subD: "comp_inv ctx st \<Longrightarrow> jget (cw_subs st) pin = Some sub \<Longrightarrow> sub_ok ctx pin sub"
  by (simp add: comp_inv_def)

lemma comp_inv_set:
  assumes "comp_inv ctx st" "sub_ok ctx pin sub" "cw_subs st' = jset pin sub (cw_subs st)"
  shows "comp_inv ctx st'"
  using assms by (auto simp: comp_inv_def split: if_splits)

lemma comp_inv_same: "comp_inv ctx st \<Longrightarrow> cw_subs st' = cw_subs st \<Longrightarrow> comp_inv ctx st'"
  by (simp add: comp_inv_def)

lemma comp_supporters_flags [simp]:
  "comp_supporters ctx (sub\<lparr>sb_superseded := b\<rparr>) = comp_supporters ctx sub"
  "comp_supporters ctx (sub\<lparr>sb_failed := c\<rparr>) = comp_supporters ctx sub"
  "comp_supporters ctx (sub\<lparr>sb_verified := d\<rparr>) = comp_supporters ctx sub"
  "comp_supporters ctx (sub\<lparr>sb_passVoters := vs\<rparr>) = comp_supporters ctx sub"
  "comp_supporters ctx (sub\<lparr>sb_verifiedVote := k\<rparr>) = comp_supporters ctx sub"
  by (simp_all add: comp_supporters_def)

lemma sub_ok_flags:
  "sub_ok ctx pin sub \<Longrightarrow> sub_ok ctx pin (sub\<lparr>sb_superseded := b\<rparr>)"
  "sub_ok ctx pin sub \<Longrightarrow> sub_ok ctx pin (sub\<lparr>sb_failed := True, sb_verified := False\<rparr>)"
  by (simp_all add: sub_ok_def)

lemma comp_inv_admit: "comp_inv ctx st \<Longrightarrow> comp_inv ctx (comp_admit (toCompSubmission pin node) st)"
  by (rule comp_inv_set [where pin = "ev_pinId pin"])
     (simp_all add: comp_admit_def sub_ok_def toCompSubmission_def)

lemma comp_inv_submission:
  assumes inv: "comp_inv ctx st" shows "comp_inv ctx (comp_step_submission ctx st pin)"
proof -
  have "comp_inv ctx (comp_admit (toCompSubmission pin node)
      (st\<lparr>cw_subs := jset (sb_pinId target) (target\<lparr>sb_superseded := True\<rparr>) (cw_subs st)\<rparr>))"
    if target: "comp_supersede_target h st (toCompSubmission pin node) sid = Some target" for h node sid target
  proof -
    obtain tip where t: "jget (cw_subs st) tip = Some target"
      using target by (auto simp: comp_supersede_target_def split: option.splits if_splits)
    then have "sub_ok ctx tip target" by (rule comp_inv_subD [OF inv])
    then have "sub_ok ctx (sb_pinId target) (target\<lparr>sb_superseded := True\<rparr>)"
      using sub_ok_flags(1) by (simp add: sub_ok_def)
    then show ?thesis by (intro comp_inv_admit comp_inv_set [OF inv]) simp_all
  qed
  then show ?thesis
    using inv comp_inv_admit [OF inv] comp_inv_same [OF inv]
    by (simp add: comp_step_submission_def Let_def split: option.split)
qed

lemma sub_ok_pass:
  assumes ok: "sub_ok ctx (vr_target vote) target" and vote: "vote \<in> snd ` set (wc_lastVoteByPin ctx)" "is_pass vote"
  shows "sub_ok ctx (vr_target vote) (comp_step_pass ctx pin vote target)"
proof (cases "vr_bot vote = sb_author target \<or> vr_bot vote = wc_rootAuthor ctx")
  case False
  define voters where "voters = add_voter vote (sb_passVoters target)"
  have "vr_bot vote \<in> set (comp_supporters ctx target)"
    using False vote ok by (auto simp: comp_supporters_def sub_ok_def)
  then have v: "distinct (map fst voters)" "fst ` set voters \<subseteq> set (comp_supporters ctx target)"
    using ok by (auto simp: voters_def add_voter_def sub_ok_def keys_jset)
  have len: "length (sb_passVoters target) \<le> length voters"
    by (simp add: voters_def add_voter_def length_jset)
  then have "(of_nat (length (sb_passVoters target)) :: rat) \<le> of_nat (length voters)" by simp
  then have "sb_verified target \<Longrightarrow> wc_quorum ctx \<le> of_nat (length voters)"
    using ok by (auto simp: sub_ok_def intro: order_trans)
  then show ?thesis using False ok v
    by (simp add: comp_step_pass_def sub_ok_def Let_def flip: voters_def)
qed (use ok in \<open>simp add: comp_step_pass_def\<close>)

lemma comp_inv_verify:
  assumes inv: "comp_inv ctx st" shows "comp_inv ctx (comp_step_verify ctx st pin)"
proof -
  have "comp_inv ctx
      (if is_fail vote
        then st\<lparr>cw_subs := jset (vr_target vote) (target\<lparr>sb_failed := True, sb_verified := False\<rparr>) (cw_subs st)\<rparr>
       else if is_pass vote
        then st\<lparr>cw_subs := jset (vr_target vote) (comp_step_pass ctx pin vote target) (cw_subs st)\<rparr>
       else st)"
    if v: "jget (wc_lastVoteByPin ctx) (ev_pinId pin) = Some vote"
      and t: "jget (cw_subs st) (vr_target vote) = Some target" for vote target
  proof -
    have "vote \<in> snd ` set (wc_lastVoteByPin ctx)" using map_of_SomeD [OF v] by force
    note pass = sub_ok_pass [OF comp_inv_subD [OF inv t] this]
    note fail = sub_ok_flags(2) [OF comp_inv_subD [OF inv t]]
    show ?thesis using inv comp_inv_set [OF inv fail] comp_inv_set [OF inv pass] by simp
  qed
  then show ?thesis using inv by (simp add: comp_step_verify_def split: option.split)
qed

interpretation comp_walk: stepwise "comp_walk_step ctx" "\<lambda>_. True" "comp_inv ctx" for ctx
  by unfold_locales (simp add: comp_walk_step_def comp_inv_submission comp_inv_verify)

lemma comp_walked_inv: "comp_inv (compWalkCtx (poolCtx opts events rt)) (compWalked (poolCtx opts events rt))"
proof -
  have "comp_inv (compWalkCtx (poolCtx opts events rt)) (comp_walk_init ign)" for ign
    using lastVoteByPinOf_SomeD by (simp add: comp_inv_def comp_walk_init_def compWalkCtx_def poolCtx_def rc_sel)
  then show ?thesis unfolding compWalked_def compWalk_def by (rule comp_walk.run_inv) simp
qed

text \<open>The counted pass votes on a candidate include its supporters.\<close>

lemma comp_supporters_counted:
  "length (comp_supporters (compWalkCtx (poolCtx opts events rt)) sub) \<le>
     passVotesOn (poolCtx opts events rt) (sb_pinId sub) (sb_author sub)"
proof -
  let ?ctx = "poolCtx opts events rt"
  let ?on = "filter (\<lambda>v. is_pass v \<and> identityOk (rc_rootAuthor ?ctx) (sb_author sub) v) (votesOn ?ctx (sb_pinId sub))"
  have "set (comp_supporters (compWalkCtx ?ctx) sub) \<subseteq> vr_bot ` set ?on"
  proof
    fix bot assume "bot \<in> set (comp_supporters (compWalkCtx ?ctx) sub)"
    then obtain v where v: "v \<in> snd ` set (rc_lastVoteByPin ?ctx)" "is_pass v" "vr_target v = sb_pinId sub"
        "identityOk (rc_rootAuthor ?ctx) (sb_author sub) v" "bot = vr_bot v"
      by (auto simp: comp_supporters_def compWalkCtx_def identityOk_def)
    have "v \<in> set (votesOn ?ctx (sb_pinId sub))"
      using lastVoteByPin_value v(1,3) by (simp add: poolCtx_def rc_sel votesOn_replay)
    then show "bot \<in> vr_bot ` set ?on" using v by auto
  qed
  then have "card (set (comp_supporters (compWalkCtx ?ctx) sub)) \<le> card (vr_bot ` set ?on)" by (intro card_mono) auto
  also have "\<dots> \<le> length ?on" using card_length [of "map vr_bot ?on"] by (simp only: set_map length_map)
  finally show ?thesis
    by (simp add: passVotesOn_def comp_supporters_def distinct_card [symmetric] del: set_remdups)
qed

lemma comp_verified_quorum:
  assumes "jget (cw_subs (compWalked (poolCtx opts events rt))) pin = Some sub" "sb_verified sub"
  shows "\<not> sb_failed sub \<and> sb_verifiedVote sub \<noteq> None \<and>
    rc_quorum (poolCtx opts events rt) \<le> of_nat (passVotesOn (poolCtx opts events rt) (sb_pinId sub) (sb_author sub))"
proof -
  let ?w = "compWalkCtx (poolCtx opts events rt)"
  have ok: "sub_ok ?w pin sub" by (rule comp_inv_subD [OF comp_walked_inv assms(1)])
  have "length (sb_passVoters sub) = card (fst ` set (sb_passVoters sub))"
    using ok distinct_card [of "map fst (sb_passVoters sub)"] by (simp add: sub_ok_def)
  also have "\<dots> \<le> card (set (comp_supporters ?w sub))" using ok by (intro card_mono) (auto simp: sub_ok_def)
  also have "\<dots> \<le> length (comp_supporters ?w sub)" by (rule card_length)
  also have "\<dots> \<le> passVotesOn (poolCtx opts events rt) (sb_pinId sub) (sb_author sub)" by (rule comp_supporters_counted)
  finally have "(of_nat (length (sb_passVoters sub)) :: rat) \<le>
      of_nat (passVotesOn (poolCtx opts events rt) (sb_pinId sub) (sb_author sub))" by simp
  then show ?thesis using ok assms(2) by (auto simp: sub_ok_def compWalkCtx_def intro: order_trans)
qed

section \<open>Leaders\<close>

lemma leaderOf_foldl:
  assumes "foldl (\<lambda>best sub. if \<not> P sub then best
      else (case best of None \<Rightarrow> Some sub | Some b \<Rightarrow> if leaderLess sub b then Some sub else best)) best subs = Some l"
  shows "best = Some l \<or> (l \<in> set subs \<and> P l)"
  using assms
proof (induction subs arbitrary: best)
  case (Cons s subs)
  from Cons.IH [of "if \<not> P s then best
      else (case best of None \<Rightarrow> Some s | Some b \<Rightarrow> if leaderLess s b then Some s else best)"] Cons.prems
  show ?case by (auto split: if_splits option.splits)
qed simp

lemma leaderOf_Some:
  assumes "leaderOf cv node = Some l"
  shows "l \<in> set (cv_valid cv) \<and> sb_node l = node \<and> sb_verified l \<and> chainValidIn cv l"
  using leaderOf_foldl [of "\<lambda>sub. sb_verified sub \<and> chainValidIn cv sub" None "validOn cv node" l] assms
  by (auto simp: leaderOf_def validOn_def)

text \<open>The leader is the earliest in the leader order.\<close>

lemma leaderLess_key: "leaderLess a b \<longleftrightarrow> leaderKey a < leaderKey b"
  by (cases "leaderKey a"; cases "leaderKey b") (auto simp: leaderLess_def less_prod_def less_prod_def')

lemma leaderOf_least:
  assumes "leaderOf cv node = Some l" "sub \<in> set (validOn cv node)" "sb_verified sub" "chainValidIn cv sub"
  shows "leaderKey l \<le> leaderKey sub"
proof -
  let ?P = "\<lambda>sub. sb_verified sub \<and> chainValidIn cv sub"
  let ?f = "\<lambda>best sub. if \<not> ?P sub then best
      else (case best of None \<Rightarrow> Some sub | Some b \<Rightarrow> if leaderLess sub b then Some sub else best)"
  have "foldl ?f best subs = Some l \<Longrightarrow>
      (\<forall>b. best = Some b \<longrightarrow> leaderKey l \<le> leaderKey b) \<and> (\<forall>s \<in> set subs. ?P s \<longrightarrow> leaderKey l \<le> leaderKey s)" for best subs
  proof (induction subs arbitrary: best)
    case (Cons s subs)
    have "foldl ?f (?f best s) subs = Some l" using Cons.prems by simp
    from Cons.IH [OF this] show ?case
      by (cases "?P s"; cases best) (auto simp: leaderLess_key not_less split: if_splits)
  qed simp
  then show ?thesis using assms by (auto simp: leaderOf_def)
qed

lemma validateSubs_subset: "validateSubs tr subs ign = (ign', valid) \<Longrightarrow> set valid \<subseteq> snd ` set subs"
proof -
  have "set (snd (foldl (\<lambda>(ign, valid) (_, sub).
        if \<not> jhas tr (sb_node sub) then (markIgnored (sb_pinId sub) ''unknown_node'' ign, valid)
        else if \<not> compParentrefsValid sub tr subs
          then (markIgnored (sb_pinId sub) ''invalid_reference'' ign, valid)
        else (ign, valid @ [sub])) st l)) \<subseteq> set (snd st) \<union> snd ` set l" for st l
    by (induction l arbitrary: st) (fastforce split: if_splits prod.splits)+
  from this [of "(ign, [])" subs] show "validateSubs tr subs ign = (ign', valid) \<Longrightarrow> set valid \<subseteq> snd ` set subs"
    by (simp add: validateSubs_def)
qed

lemma compView_subs:
  assumes "compViewOf ctx = Some cv"
  shows "cv_subs cv = cw_subs (compWalked ctx)" "set (cv_valid cv) \<subseteq> snd ` set (cv_subs cv)"
proof -
  obtain folded where f: "foldCompetitiveAmends (compAmendCtx ctx (cw_subs (compWalked ctx)))
        (initialNodesOf (initialTreeBody ctx)) (taskAmends ctx) = Some folded"
    using assms by (auto simp: compViewOf_def Let_def split: option.splits)
  obtain ign valid where v: "validateSubs (fs_nodes folded) (cw_subs (compWalked ctx))
      (markClaims ctx (fs_nodes folded) (cw_ignored (compWalked ctx) @ fs_ignored folded)) = (ign, valid)" by fastforce
  have cv: "cv = \<lparr>cv_tree = fs_nodes folded, cv_head = fs_head folded, cv_subs = cw_subs (compWalked ctx),
      cv_valid = valid, cv_ignored = ign\<rparr>"
    using assms f v by (simp add: compViewOf_def Let_def)
  show "cv_subs cv = cw_subs (compWalked ctx)" by (simp add: cv)
  show "set (cv_valid cv) \<subseteq> snd ` set (cv_subs cv)" using validateSubs_subset [OF v] by (simp add: cv)
qed

lemma comp_valid_sub:
  assumes "compViewOf (poolCtx opts events rt) = Some cv" "sub \<in> set (cv_valid cv)"
  shows "jget (cv_subs cv) (sb_pinId sub) = Some sub"
proof -
  note cv = compView_subs [OF assms(1)]
  obtain pin where p: "(pin, sub) \<in> set (cv_subs cv)" using cv(2) assms(2) by auto
  have inv: "comp_inv (compWalkCtx (poolCtx opts events rt)) (compWalked (poolCtx opts events rt))" by (rule comp_walked_inv)
  have "distinct (map fst (cv_subs cv))" using inv cv(1) by (simp add: comp_inv_def)
  then have j: "jget (cv_subs cv) pin = Some sub" using p by (rule jget_in)
  then have "sb_pinId sub = pin" using comp_inv_subD [OF inv] cv(1) by (simp add: sub_ok_def)
  then show ?thesis using j by simp
qed

lemma comp_node_quorum:
  assumes cv: "compViewOf (poolCtx opts events rt) = Some cv" and st: "compStatus cv node = StVerified"
  shows "rc_quorum (poolCtx opts events rt) \<le> of_nat (np_passVotes (compNodeState (poolCtx opts events rt) cv disputed node))"
    "np_submission (compNodeState (poolCtx opts events rt) cv disputed node) \<noteq> None"
    "distinct (map vs_voter (np_votes (compNodeState (poolCtx opts events rt) cv disputed node)))"
proof -
  let ?ctx = "poolCtx opts events rt"
  obtain l where l: "leaderOf cv node = Some l"
    using st by (auto simp: compStatus_def split: option.splits if_splits)
  note ll = leaderOf_Some [OF l]
  have "jget (cw_subs (compWalked ?ctx)) (sb_pinId l) = Some l"
    using comp_valid_sub [OF cv] ll compView_subs(1) [OF cv] by simp
  from comp_verified_quorum [OF this] ll
  show "rc_quorum ?ctx \<le> of_nat (np_passVotes (compNodeState ?ctx cv disputed node))"
    by (simp add: compNodeState_def Let_def l)
  show "np_submission (compNodeState ?ctx cv disputed node) \<noteq> None"
    by (simp add: compNodeState_def Let_def l)
  have "map vs_voter (np_votes (compNodeState ?ctx cv disputed node)) = map vr_bot (votesOn ?ctx (sb_pinId l))"
    by (simp add: compNodeState_def Let_def l voteListOn_def toVoteSummary_def)
  then show "distinct (map vs_voter (np_votes (compNodeState ?ctx cv disputed node)))"
    using votesOn_distinct by (simp add: poolCtx_def)
qed

section \<open>The winning chain\<close>

text \<open>Chain-valid candidates: stored under their pin, and the memo search accepts them.\<close>

definition sound_sub :: "tree \<Rightarrow> comp_subs \<Rightarrow> comp_submission \<Rightarrow> bool" where
  "sound_sub tr subs sub \<longleftrightarrow> jget subs (sb_pinId sub) = Some sub \<and> chainValid tr subs (sb_pinId sub)"

definition keyed_subs :: "comp_subs \<Rightarrow> bool" where
  "keyed_subs subs \<longleftrightarrow> (\<forall>pin sub. jget subs pin = Some sub \<longrightarrow> sb_pinId sub = pin)"

lemma sound_sub_valid:
  assumes "sound_sub tr subs sub"
  shows "compParentrefsValid sub tr subs" "sb_verified sub" "\<not> sb_superseded sub"
proof -
  have "good (chain_ok tr subs) (chain_succs tr subs) (sb_pinId sub)"
    using assms by (simp add: sound_sub_def chainValid_good)
  then have "chain_ok tr subs (sb_pinId sub)" by (auto elim: good.cases)
  then show "compParentrefsValid sub tr subs" "sb_verified sub" "\<not> sb_superseded sub"
    using assms by (simp_all add: chain_ok_def sound_sub_def)
qed

text \<open>Every dep of a sound candidate's node has a sound parent candidate.\<close>

lemma sound_parent:
  assumes s: "sound_sub tr subs sub" and k: "keyed_subs subs" and d: "dep \<in> set (compDepsOf tr (sb_node sub))"
  obtains p where "jget subs (asStr (parentref sub dep) '''') = Some p" "sb_node p = dep" "sound_sub tr subs p"
proof -
  have ne: "compDepsOf tr (sb_node sub) \<noteq> []" using d by auto
  have "list_all (\<lambda>dep. case parentref sub dep of
      Some (JStr ref) \<Rightarrow> ref \<noteq> [] \<and> (case jget subs ref of None \<Rightarrow> False | Some target \<Rightarrow> sb_node target = dep)
    | _ \<Rightarrow> False) (compDepsOf tr (sb_node sub))"
    using sound_sub_valid(1) [OF s] ne unfolding compParentrefsValid_def Let_def parentref_def
    by (cases "sb_parentrefs sub") (simp_all split: if_splits)
  then have at: "case parentref sub dep of
      Some (JStr ref) \<Rightarrow> ref \<noteq> [] \<and> (case jget subs ref of None \<Rightarrow> False | Some target \<Rightarrow> sb_node target = dep)
    | _ \<Rightarrow> False"
    using d unfolding list_all_iff by blast
  then obtain ref p where r: "parentref sub dep = Some (JStr ref)" "jget subs ref = Some p" "sb_node p = dep"
    by (auto split: option.splits json.splits)
  have "Some ref \<in> set (chain_succs tr subs (sb_pinId sub))"
    using s d r by (auto simp: chain_succs_def sound_sub_def jhas_get Let_def asStr_def intro!: image_eqI [of _ _ dep])
  then have "good (chain_ok tr subs) (chain_succs tr subs) ref"
    using s good_succ [of _ _ "sb_pinId sub" ref] by (simp add: sound_sub_def chainValid_good succ_rel_def)
  moreover have "sb_pinId p = ref" using k r(2) by (simp add: keyed_subs_def)
  ultimately have "sound_sub tr subs p" using r(2) by (simp add: sound_sub_def chainValid_good)
  then show thesis using that [of p] r by (simp add: asStr_def)
qed

lemma parentSubs_sound:
  assumes "sound_sub tr subs sub" "keyed_subs subs" "p \<in> set (parentSubs tr subs sub)"
  shows "sound_sub tr subs p"
proof -
  obtain dep where d: "dep \<in> set (compDepsOf tr (sb_node sub))" "jget subs (asStr (parentref sub dep) '''') = Some p"
    using assms(3) by (auto simp: parentSubs_def split: option.splits)
  from sound_parent [OF assms(1,2) d(1)] d(2) show ?thesis by auto
qed

definition chain_sound :: "tree \<Rightarrow> comp_subs \<Rightarrow> chain_map \<Rightarrow> bool" where
  "chain_sound tr subs taken \<longleftrightarrow> (\<forall>(node, sub) \<in> set taken. sb_node sub = node \<and> sound_sub tr subs sub)"

lemma chainClosure_sound:
  "keyed_subs subs \<Longrightarrow> \<forall>s \<in> set stack. sound_sub tr subs s \<Longrightarrow> chain_sound tr subs taken \<Longrightarrow>
   chain_sound tr subs (chainClosure tr subs stack taken)"
proof (induction tr subs stack taken rule: chainClosure.induct)
  case (2 tr subs sub stack taken)
  show ?case
  proof (cases "jhas taken (sb_node sub)")
    case True
    then show ?thesis using 2 by (simp add: chainClosure.simps(2))
  next
    case False
    have "chain_sound tr subs (jset (sb_node sub) sub taken)"
      using "2.prems" by (auto simp: chain_sound_def dest!: in_set_jsetD)
    moreover have "\<forall>s \<in> set (rev (parentSubs tr subs sub) @ stack). sound_sub tr subs s"
      using "2.prems" parentSubs_sound by auto
    ultimately show ?thesis using "2.IH"(2) [OF False "2.prems"(1)] False by (simp add: chainClosure.simps(2))
  qed
qed simp

text \<open>Parents of a taken candidate are on the stack until their node is taken.\<close>

definition chain_pending :: "tree \<Rightarrow> comp_subs \<Rightarrow> comp_submission list \<Rightarrow> chain_map \<Rightarrow> bool" where
  "chain_pending tr subs stack taken \<longleftrightarrow>
     (\<forall>(node, sub) \<in> set taken. \<forall>p \<in> set (parentSubs tr subs sub). jhas taken (sb_node p) \<or> p \<in> set stack)"

lemma chainClosure_closed:
  "chain_pending tr subs stack taken \<Longrightarrow> chain_pending tr subs [] (chainClosure tr subs stack taken)"
proof (induction tr subs stack taken rule: chainClosure.induct)
  case (2 tr subs sub stack taken)
  show ?case
  proof (cases "jhas taken (sb_node sub)")
    case True
    then have "chain_pending tr subs stack taken"
      using "2.prems" by (auto simp: chain_pending_def)
    then show ?thesis using "2.IH"(1) [OF True] True by (simp add: chainClosure.simps(2))
  next
    case False
    have "chain_pending tr subs (rev (parentSubs tr subs sub) @ stack) (jset (sb_node sub) sub taken)"
      using "2.prems" by (fastforce simp: chain_pending_def dest!: in_set_jsetD)
    then show ?thesis using "2.IH"(2) [OF False] False by (simp add: chainClosure.simps(2))
  qed
qed simp

lemma chainClosure_start: "jhas taken n \<Longrightarrow> jhas (chainClosure tr subs stack taken) n"
proof (induction tr subs stack taken rule: chainClosure.induct)
  case (2 tr subs sub stack taken)
  then show ?case by (cases "jhas taken (sb_node sub)") (simp_all add: chainClosure.simps(2))
qed simp

theorem winningChain_sound:
  assumes cv: "compViewOf (poolCtx opts events rt) = Some cv" and win: "winnerOf (poolCtx opts events rt) cv = Some w"
  defines "chain \<equiv> winningChainByNode (poolCtx opts events rt) cv"
  shows "jget chain (sb_node w) = Some w"
    and "\<forall>(node, sub) \<in> set chain. sb_node sub = node \<and> sound_sub (cv_tree cv) (cv_subs cv) sub \<and>
           (\<forall>dep \<in> set (compDepsOf (cv_tree cv) node). jhas chain dep)"
proof -
  let ?tr = "cv_tree cv" and ?subs = "cv_subs cv"
  obtain f where "leaderOf cv f = Some w" using win by (auto simp: winnerOf_def split: option.splits)
  then have w: "w \<in> set (cv_valid cv)" "chainValidIn cv w" using leaderOf_Some by blast+
  have keyed: "keyed_subs ?subs"
    using comp_inv_subD [OF comp_walked_inv [of opts events rt]] compView_subs(1) [OF cv]
    by (auto simp: keyed_subs_def sub_ok_def)
  have sw: "sound_sub ?tr ?subs w" using comp_valid_sub [OF cv w(1)] w(2) by (simp add: sound_sub_def)
  have chain: "chain = chainClosure ?tr ?subs [w] []" by (simp add: chain_def winningChainByNode_def win)
  have step: "chain = chainClosure ?tr ?subs (rev (parentSubs ?tr ?subs w)) [(sb_node w, w)]"
    by (simp add: chain chainClosure.simps(2) jhas_def)
  have keep: "jget taken n = Some s \<Longrightarrow> jget (chainClosure tr subs stack taken) n = Some s" for tr subs stack taken n s
  proof (induction tr subs stack taken rule: chainClosure.induct)
    case (2 tr subs sub stack taken)
    then show ?case
      by (cases "jhas taken (sb_node sub)"; cases "n = sb_node sub") (simp_all add: chainClosure.simps(2) jhas_get)
  qed simp
  show "jget chain (sb_node w) = Some w" unfolding step by (rule keep) simp
  have sound: "chain_sound ?tr ?subs chain"
    unfolding chain by (rule chainClosure_sound [OF keyed]) (simp_all add: sw chain_sound_def)
  have closed: "chain_pending ?tr ?subs [] chain"
    unfolding chain by (rule chainClosure_closed) (simp add: chain_pending_def)
  show "\<forall>(node, sub) \<in> set chain. sb_node sub = node \<and> sound_sub ?tr ?subs sub \<and>
      (\<forall>dep \<in> set (compDepsOf ?tr node). jhas chain dep)"
  proof (clarify, intro conjI ballI)
    fix node sub assume e: "(node, sub) \<in> set chain"
    show n: "sb_node sub = node" and s: "sound_sub ?tr ?subs sub" using sound e by (auto simp: chain_sound_def)
    fix dep assume d: "dep \<in> set (compDepsOf ?tr node)"
    obtain p where p: "jget ?subs (asStr (parentref sub dep) '''') = Some p" "sb_node p = dep"
      using sound_parent [OF s keyed] d n by metis
    then have "p \<in> set (parentSubs ?tr ?subs sub)" using d n by (force simp: parentSubs_def)
    then show "jhas chain dep" using closed e p(2) by (auto simp: chain_pending_def)
  qed
qed

end
