(* ===== verification/Examples.thy ===== *)
theory Examples
  imports ReplayFacts
begin

text \<open>
  Small concrete tasks, on which the properties are applied and the findings are shown: chain
  events by path, a tree task with one node and with an aggregate, and a competitive task.
  The hash function is the identity, so a hash is the canonical text it stands for.
\<close>

definition ev :: "string \<Rightarrow> string \<Rightarrow> string \<Rightarrow> int \<Rightarrow> body \<Rightarrow> chain_event" where
  "ev pinId path author height body =
     \<lparr>ev_pinId = pinId, ev_path = path, ev_author = author, ev_height = height, ev_txIndex = 0,
      ev_timestampMs = height * 1000, ev_body = body\<rparr>"

definition node_json :: "string \<Rightarrow> json \<Rightarrow> rat \<Rightarrow> string list \<Rightarrow> json" where
  "node_json nid parent w deps =
     JObj [(''id'', JStr nid), (''parent'', parent), (''weight'', JNum w), (''deps'', JArr (map JStr deps))]"

definition task_ev :: "string \<Rightarrow> chain_event" where
  "task_ev mode = ev ''T'' ''task'' ''pub'' 191500
     [(''treeid'', JStr ''R''), (''title'', JStr ''demo''), (''policy'', JObj [(''mode'', JStr mode)])]"

definition tree_ev :: "json list \<Rightarrow> chain_event" where
  "tree_ev nodes = ev ''R'' ''tree'' ''pub'' 191501 [(''root'', JStr ''n1''), (''nodes'', JArr nodes)]"

definition claim_ev :: "string \<Rightarrow> string \<Rightarrow> string \<Rightarrow> int \<Rightarrow> chain_event" where
  "claim_ev pinId author node h = ev pinId ''claim'' author h [(''taskid'', JStr ''T''), (''node'', JStr node)]"

definition sub_ev :: "string \<Rightarrow> string \<Rightarrow> string \<Rightarrow> string \<Rightarrow> int \<Rightarrow> body \<Rightarrow> chain_event" where
  "sub_ev pinId author node claimId h extra = ev pinId ''submission'' author h
     ([(''taskid'', JStr ''T''), (''node'', JStr node), (''claimid'', JStr claimId)] @ extra)"

definition vote_ev :: "string \<Rightarrow> string \<Rightarrow> string \<Rightarrow> string \<Rightarrow> int \<Rightarrow> chain_event" where
  "vote_ev pinId author target verdict h = ev pinId ''verify'' author h
     [(''targetid'', JStr target), (''verdict'', JStr verdict), (''semantic_check'', JStr ''read''),
      (''failreason'', JStr ''why'')]"

definition tree_pool :: "chain_event list" where
  "tree_pool =
     [task_ev ''tree'', tree_ev [node_json ''n1'' JNull 10000 []],
      claim_ev ''C1'' ''ann'' ''n1'' 191502, sub_ev ''S1'' ''ann'' ''n1'' ''C1'' 191503 [],
      vote_ev ''V1'' ''bob'' ''S1'' ''pass'' 191504, vote_ev ''V2'' ''cat'' ''S1'' ''pass'' 191505]"

definition comp_pool :: "chain_event list" where
  "comp_pool =
     [task_ev ''competitive'',
      tree_ev [node_json ''n1'' JNull 6000 [''n2''], node_json ''n2'' (JStr ''n1'') 4000 []],
      sub_ev ''S2'' ''ann'' ''n2'' '''' 191502 [],
      sub_ev ''S1'' ''bob'' ''n1'' '''' 191503 [(''parentrefs'', JObj [(''n2'', JStr ''S2'')])],
      vote_ev ''V1'' ''cat'' ''S2'' ''pass'' 191504, vote_ev ''V2'' ''dan'' ''S2'' ''pass'' 191505,
      vote_ev ''V3'' ''cat'' ''S1'' ''pass'' 191506, vote_ev ''V4'' ''dan'' ''S1'' ''pass'' 191507]"

text \<open>What a replay settles, if it completes the task.\<close>

definition settled_shares :: "(replay_error + task_projection) option \<Rightarrow> (string \<times> int) list" where
  "settled_shares r =
     (case r of
        Some (Inr p) \<Rightarrow>
          (case tp_settlement p of None \<Rightarrow> [] | Some s \<Rightarrow> map (\<lambda>sh. (sh_metaId sh, sh_shareBP sh)) (se_shares s))
      | _ \<Rightarrow> [])"

definition tree_demo :: task_projection where
  "tree_demo = hd (projected (replayMetaTask id tree_pool defaultOptions))"

definition comp_demo :: task_projection where
  "comp_demo = hd (projected (replayMetaTask id comp_pool defaultOptions))"

lemma tree_demo_run: "replayMetaTask id tree_pool defaultOptions = Some (Inr tree_demo)"
  unfolding tree_demo_def by (rule projected_run) code_simp

lemma comp_demo_run: "replayMetaTask id comp_pool defaultOptions = Some (Inr comp_demo)"
  unfolding comp_demo_def by (rule projected_run) code_simp

definition node_at :: "task_projection \<Rightarrow> string \<Rightarrow> node_projection" where
  "node_at p n = the (jget (tp_nodeStates p) n)"

lemma node_at_in: "jhas (tp_nodeStates p) n \<Longrightarrow> (n, node_at p n) \<in> set (tp_nodeStates p)"
  by (auto simp: jhas_get node_at_def dest: map_of_SomeD)

end
