(* ===== verification/Estimate.thy ===== *)
theory Estimate
  imports TreeReplay
begin

text \<open>
  metatask/estimate.ts: the mid-task share estimate over a projection. The loop is the
  settlement's, fed from the projected node states (an object, so it is enumerated in own-key
  order) and the projected participants instead of the replay's own maps.
\<close>

section \<open>The estimate\<close>

record estimation =
  es_basis :: string
  es_shares :: "share list"

definition clampSubmitterShareBP :: "rat \<Rightarrow> rat" where
  "clampSubmitterShareBP v = min SUBMITTER_SHARE_BP_MAX (max SUBMITTER_SHARE_BP_MIN v)"

type_synonym review_record = "nat \<times> nat" \<comment> \<open>reviewCorrect and reviewTerminal\<close>

definition accuracyRecords :: "participant list \<Rightarrow> (string, review_record) jsmap" where
  "accuracyRecords participants =
     foldl (\<lambda>m stats. jset (pa_metaId stats) (pa_reviewCorrect stats, pa_reviewTerminal stats) m) [] participants"

definition accuracyOf :: "(string, review_record) jsmap \<Rightarrow> string \<Rightarrow> int" where
  "accuracyOf stats metaId =
     (case jget stats metaId of None \<Rightarrow> 5000 | Some (correct, terminal) \<Rightarrow> laplace correct terminal)"

text \<open>The weight table when the tree is weighted, \<open>None\<close> for the uniform fallback.\<close>

definition weightByNodeOf :: "json list \<Rightarrow> weights option" where
  "weightByNodeOf nodes =
     (if nodes = [] then None
      else (case tree_weights nodes [] 0 of
              None \<Rightarrow> None
            | Some (ws, acc) \<Rightarrow> if acc = 10000 then Some ws else None))"

definition estimateWeight :: "json list \<Rightarrow> string \<Rightarrow> int" where
  "estimateWeight nodes nodeId =
     (case weightByNodeOf nodes of
        Some ws \<Rightarrow> jget_or ws (Some (JStr nodeId)) 0
      | None \<Rightarrow> uniform_weight (length nodes))"

definition estimateReviewers :: "string \<Rightarrow> string \<Rightarrow> vote_summary list \<Rightarrow> string list" where
  "estimateReviewers publisher submitterId votes =
     map vs_voter (filter (\<lambda>vote. vs_verdict vote = ''pass'' \<and> vs_counted vote \<and>
       vs_voter vote \<noteq> submitterId \<and> vs_voter vote \<noteq> publisher) votes)"

definition estimateNode :: "task_projection \<Rightarrow> parts \<Rightarrow> string \<times> node_projection \<Rightarrow> parts" where
  "estimateNode p parts entry =
     (case entry of (nodeId, node) \<Rightarrow>
       (case np_submission node of
          None \<Rightarrow> parts
        | Some sub \<Rightarrow>
           if np_status node \<noteq> StVerified then parts
           else
             (let w = estimateWeight (tp_nodes p) nodeId in
              if w \<le> 0 then parts
              else pay_node (clampSubmitterShareBP (po_submitterShareBP (tp_policy p)))
                     (accuracyOf (accuracyRecords (tp_participants p))) w (sv_submitter sub)
                     (estimateReviewers (tp_publisher p) (sv_submitter sub) (np_votes node)) parts)))"

definition estimateMetaTaskShares :: "task_projection \<Rightarrow> estimation" where
  "estimateMetaTaskShares p =
     \<lparr>es_basis = (if weightByNodeOf (tp_nodes p) = None then ''uniform'' else ''weighted''),
      es_shares = sortShares (foldl (estimateNode p) [] (own_order (tp_nodeStates p)))\<rparr>"

section \<open>Payments as a list of additions\<close>

text \<open>What the loop over the nodes does to the share map is a sequence of additions; the share list
  it ends in depends only on the multiset of them.\<close>

type_synonym payment = "string \<times> int \<times> int" \<comment> \<open>payee, submitted, reviewed\<close>

definition add_payment :: "parts \<Rightarrow> payment \<Rightarrow> parts" where
  "add_payment parts pay =
     (case pay of (r, s, v) \<Rightarrow>
        let p = partsOf parts r in
        jset r (p\<lparr>sp_submittedBP := sp_submittedBP p + s, sp_reviewedBP := sp_reviewedBP p + v\<rparr>) parts)"

definition node_payments :: "rat \<Rightarrow> (string \<Rightarrow> int) \<Rightarrow> int \<Rightarrow> string \<Rightarrow> string list \<Rightarrow> payment list" where
  "node_payments sigma acc w author reviewers =
     (let subBP = submitter_cut w sigma; pool = w - subBP; accSum = foldl (\<lambda>s r. s + acc r) 0 reviewers in
      (author, subBP, 0) #
      (if reviewers = [] then [(author, pool, 0)]
       else map (\<lambda>r. (r, 0, (pool * acc r) div accSum)) reviewers))"

lemma add_submitted_payment: "add_submitted r bp parts = add_payment parts (r, bp, 0)"
  by (simp add: add_submitted_def add_payment_def)

lemma add_reviewed_payment: "add_reviewed r bp parts = add_payment parts (r, 0, bp)"
  by (simp add: add_reviewed_def add_payment_def)

lemma pay_node_payments:
  "pay_node sigma acc w author reviewers parts = foldl add_payment parts (node_payments sigma acc w author reviewers)"
proof -
  have "foldl (\<lambda>ps r. add_payment ps (f r)) ps rs = foldl add_payment ps (map f rs)" for f ps and rs :: "string list"
    by (induction rs arbitrary: ps) auto
  then show ?thesis
    by (simp add: pay_node_def node_payments_def pay_reviewers_def Let_def add_submitted_payment add_reviewed_payment)
qed

lemma node_payments_cong:
  assumes "\<And>r. r \<in> set reviewers \<Longrightarrow> acc r = acc' r"
  shows "node_payments sigma acc w author reviewers = node_payments sigma acc' w author reviewers"
proof -
  have "foldl (\<lambda>s r. s + acc r) 0 reviewers = foldl (\<lambda>s r. s + acc' r) 0 reviewers"
    by (rule foldl_cong) (simp_all add: assms)
  then show ?thesis by (simp add: node_payments_def Let_def assms)
qed

lemma payments_get:
  "jget (foldl add_payment parts pays) k =
     (if jget parts k = None \<and> k \<notin> fst ` set pays then None
      else Some \<lparr>sp_submittedBP = sp_submittedBP (partsOf parts k) + sum_list (map (\<lambda>(r, s, v). if r = k then s else 0) pays),
                 sp_reviewedBP = sp_reviewedBP (partsOf parts k) + sum_list (map (\<lambda>(r, s, v). if r = k then v else 0) pays)\<rparr>)"
proof (induction pays arbitrary: parts)
  case Nil
  then show ?case by (auto simp: partsOf_def jget_or_def split: option.splits)
next
  case (Cons pay pays)
  obtain r s v where p: "pay = (r, s, v)" by (cases pay)
  have g: "jget (add_payment parts (r, s, v)) k = (if k = r then Some ((partsOf parts r)\<lparr>sp_submittedBP := sp_submittedBP (partsOf parts r) + s,
      sp_reviewedBP := sp_reviewedBP (partsOf parts r) + v\<rparr>) else jget parts k)"
    and q: "partsOf (add_payment parts (r, s, v)) k = (if k = r then (partsOf parts r)\<lparr>sp_submittedBP := sp_submittedBP (partsOf parts r) + s,
      sp_reviewedBP := sp_reviewedBP (partsOf parts r) + v\<rparr> else partsOf parts k)"
    by (simp_all add: add_payment_def Let_def partsOf_def)
  show ?case using Cons.IH [of "add_payment parts (r, s, v)", unfolded g q] by (simp add: p ac_simps)
qed

lemma distinct_payments: "distinct (map fst parts) \<Longrightarrow> distinct (map fst (foldl add_payment parts pays))"
  by (rule foldl_invariant) (auto simp: add_payment_def Let_def intro: distinct_jset)

lemma sortShares_cong:
  assumes "distinct (map fst ps)" "distinct (map fst qs)" "\<And>k. jget ps k = jget qs k"
  shows "sortShares ps = sortShares qs"
proof -
  have "set ps = set qs"
    using map_of_inject_set [of ps qs] assms by (simp add: ext)
  moreover have "distinct ps" "distinct qs" using assms(1,2) by (simp_all add: distinct_map)
  ultimately have m: "mset ps = mset qs" by (simp add: set_eq_iff_mset_eq_distinct)
  have "inj_on (\<lambda>s. (- sh_shareBP s, sh_metaId s)) (set (map (\<lambda>(metaId, p). toShare metaId p) ps))"
    by (auto simp: inj_on_def toShare_def dest: eq_key_imp_eq_value [OF assms(1)])
  then show ?thesis unfolding sortShares_def by (rule sort_key_mset_cong) (simp add: m)
qed

lemma sortShares_payments:
  assumes "mset xs = mset ys"
  shows "sortShares (foldl add_payment [] xs) = sortShares (foldl add_payment [] ys)"
proof (rule sortShares_cong)
  have s: "set xs = set ys" using assms by (metis set_mset_mset)
  have "sum_list (map f xs) = sum_list (map f ys)" for f :: "payment \<Rightarrow> int"
    using assms by (metis mset_map sum_mset_sum_list)
  then show "jget (foldl add_payment [] xs) k = jget (foldl add_payment [] ys) k" for k
    by (simp add: payments_get s)
qed (simp_all add: distinct_payments)

lemma foldl_payments: "foldl (\<lambda>ps x. foldl add_payment ps (f x)) parts xs = foldl add_payment parts (concat (map f xs))"
  by (induction xs arbitrary: parts) auto

end
