(* ===== verification/TreeHome.thy ===== *)
theory TreeHome
  imports ReplayFacts
begin

text \<open>
  Where the cycles of the tree-mode walk live: a cycle is stored under its own node and claim, and
  its submissions are pins that name that node. So the effective submission of the current cycle
  of one node never is that of another.
\<close>

section \<open>The invariant\<close>

definition home_inv :: "(string \<Rightarrow> cycle_submission \<Rightarrow> bool) \<Rightarrow> walk_state \<Rightarrow> bool" where
  "home_inv R st \<longleftrightarrow>
     (\<forall>node h. jget (wk_holders st) node = Some h \<longrightarrow> space_free (ho_pinId h)) \<and>
     (\<forall>key c. jget (wk_cycles st) key = Some c \<longrightarrow>
        key = cycle_key (cy_node c) (cy_claimId c) \<and> space_free (cy_claimId c) \<and>
        (\<forall>s \<in> set (cy_submissions c). R (cy_node c) s))"

lemma cycle_key_inject:
  assumes "cycle_key n c = cycle_key n' c'" "space_free c" "space_free c'"
  shows "n = n' \<and> c = c'"
proof -
  have split: "rev (takeWhile (\<lambda>x. x \<noteq> CHR '' '') (rev (cycle_key a b))) = b" if "space_free b" for a b
  proof -
    have "takeWhile (\<lambda>x. x \<noteq> CHR '' '') (rev b @ CHR '' '' # rev a) = rev b"
      using that by (subst takeWhile_append2) (auto simp: space_free_def)
    then show ?thesis by (simp add: cycle_key_def)
  qed
  have "c = c'" using split [OF assms(2), of n] split [OF assms(3), of n'] assms(1) by simp
  then show ?thesis using assms(1) by (simp add: cycle_key_def)
qed

lemma home_inv_cong:
  "home_inv R st \<Longrightarrow> wk_holders st' = wk_holders st \<Longrightarrow> wk_cycles st' = wk_cycles st \<Longrightarrow> home_inv R st'"
  by (simp add: home_inv_def)

lemma home_inv_drop_lock [invs]: "home_inv R st \<Longrightarrow> home_inv R (drop_lock node st)"
  by (simp add: home_inv_def drop_lock_def)

lemma home_inv_set_cycle:
  assumes "home_inv R st" "key = cycle_key (cy_node c) (cy_claimId c)" "space_free (cy_claimId c)"
    "\<forall>s \<in> set (cy_submissions c). R (cy_node c) s"
    "wk_holders st' = wk_holders st" "wk_cycles st' = jset key c (wk_cycles st)"
  shows "home_inv R st'"
  using assms by (auto simp: home_inv_def split: if_splits)

lemma home_inv_cycleD:
  "home_inv R st \<Longrightarrow> jget (wk_cycles st) key = Some c \<Longrightarrow>
   key = cycle_key (cy_node c) (cy_claimId c) \<and> space_free (cy_claimId c) \<and> (\<forall>s \<in> set (cy_submissions c). R (cy_node c) s)"
  unfolding home_inv_def by blast

lemma home_inv_admit:
  assumes "home_inv R st" "key = cycle_key node claimId" "space_free claimId"
    "cy_node c = node" "cy_claimId c = claimId" "\<forall>s \<in> set (cy_submissions c). R node s" "R node sub"
  shows "home_inv R (admit_submission hAct2 key node c sub st)"
proof -
  have anchored: "home_inv R (anchor_submission key node (c\<lparr>cy_superseded := x\<rparr>) sub st)" for x
    by (rule home_inv_set_cycle [OF assms(1), where key = key]) (use assms in \<open>simp_all add: anchor_submission_def\<close>)
  have "home_inv R (anchor_submission key node c sub st)" using anchored [of "cy_superseded c"] by simp
  then show ?thesis using anchored home_inv_cong [OF assms(1)] by (simp add: admit_submission_def split: option.split)
qed

lemma home_inv_submission:
  assumes inv: "home_inv R st" and R: "R (body_str pin ''node'') (toCycleSubmission pin)"
  shows "home_inv R (step_submission ctx st pin)"
proof (cases "jget (wk_holders st) (body_str pin ''node'')")
  case None
  then show ?thesis using inv by (simp add: step_submission_def Let_def)
next
  case (Some h)
  define node where "node = body_str pin ''node''"
  define claimId where "claimId = body_str pin ''claimid''"
  define key where "key = cycle_key node claimId"
  define fresh where "fresh = \<lparr>cy_node = node, cy_claimId = claimId, cy_claimant = ho_claimant h,
     cy_submissions = [], cy_effective = None, cy_superseded = [], cy_outcome = Open\<rparr>"
  define c where "c = jget_or (wk_cycles st) key fresh"
  have step: "step_submission ctx st pin =
      (if node = [] \<or> claimId = [] \<or> ho_pinId h \<noteq> claimId then st
       else admit_submission (wc_hAct2 ctx) key node c (toCycleSubmission pin) (st\<lparr>wk_cycles := jset key c (wk_cycles st)\<rparr>))"
    using Some by (simp add: step_submission_def Let_def node_def claimId_def key_def fresh_def c_def)
  have "home_inv R (admit_submission (wc_hAct2 ctx) key node c (toCycleSubmission pin) (st\<lparr>wk_cycles := jset key c (wk_cycles st)\<rparr>))"
    if "ho_pinId h = claimId"
  proof -
    have free: "space_free claimId" using inv Some that unfolding home_inv_def by blast
    have c: "cy_node c = node \<and> cy_claimId c = claimId \<and> (\<forall>s \<in> set (cy_submissions c). R node s)"
    proof (cases "jget (wk_cycles st) key")
      case None
      then show ?thesis by (simp add: c_def jget_or_def fresh_def)
    next
      case (Some c')
      have d: "key = cycle_key (cy_node c') (cy_claimId c')" "space_free (cy_claimId c')" "\<forall>s \<in> set (cy_submissions c'). R (cy_node c') s"
        using home_inv_cycleD [OF inv Some] by blast+
      have "node = cy_node c' \<and> claimId = cy_claimId c'"
        using cycle_key_inject [OF _ free d(2)] d(1) unfolding key_def by blast
      then show ?thesis using Some d(3) by (simp add: c_def jget_or_def)
    qed
    have "home_inv R (st\<lparr>wk_cycles := jset key c (wk_cycles st)\<rparr>)"
      by (rule home_inv_set_cycle [OF inv, where key = key and c = c]) (use c free in \<open>simp_all add: key_def\<close>)
    then show ?thesis by (rule home_inv_admit [where claimId = claimId]) (use c free R in \<open>simp_all add: key_def node_def\<close>)
  qed
  then show ?thesis using inv by (simp add: step)
qed

lemma home_inv_verify:
  assumes "home_inv R st" shows "home_inv R (step_verify ctx st pin)"
proof -
  have set: "home_inv R st'" if "jget (wk_cycles st) key = Some c" "wk_holders st' = wk_holders st"
      "wk_cycles st' = jset key (c\<lparr>cy_outcome := x\<rparr>) (wk_cycles st)" for key c st' x
    by (rule home_inv_set_cycle [OF assms, where key = key and c = "c\<lparr>cy_outcome := x\<rparr>"])
       (use home_inv_cycleD [OF assms that(1)] that in simp_all)
  have "home_inv R (if is_fail vote then step_fail key node target c st
      else if is_pass vote then step_pass ctx key node target c vote st else st)"
    if "jget (wk_cycles st) key = Some c" for vote node key c target
    using set [OF that] home_inv_cong [OF assms] assms
    by (simp add: step_fail_def step_pass_def Let_def invs)
  then show ?thesis using assms by (simp add: step_verify_def Let_def split: option.split)
qed

lemma home_inv_step:
  assumes "home_inv R st"
    "space_free (ev_pinId pin) \<and> (ev_path pin = ''submission'' \<longrightarrow> R (body_str pin ''node'') (toCycleSubmission pin))"
  shows "home_inv R (walk_step ctx st pin)"
proof -
  have "home_inv R (step_claim st pin)"
    using assms by (auto simp: home_inv_def step_claim_def Let_def split: if_splits)
  moreover have "home_inv R (step_release st pin)"
    using assms(1) by (simp add: step_release_def Let_def invs split: option.split)
  ultimately show ?thesis
    using assms home_inv_submission home_inv_verify by (simp add: walk_step_def)
qed

interpretation tree_home: stepwise "walk_step ctx"
  "\<lambda>pin. space_free (ev_pinId pin) \<and> (ev_path pin = ''submission'' \<longrightarrow> R (body_str pin ''node'') (toCycleSubmission pin))"
  "home_inv R" for ctx R
  by unfold_locales (rule home_inv_step)

section \<open>Effective submissions of a replay\<close>

text \<open>The submission is a pin of the pool that names the node.\<close>

definition pool_home :: "chain_event list \<Rightarrow> string \<Rightarrow> cycle_submission \<Rightarrow> bool" where
  "pool_home events node s \<longleftrightarrow> (\<exists>e \<in> set events. s = toCycleSubmission e \<and> body_str e ''node'' = node)"

lemma walked_home:
  assumes "good_pool events"
  shows "home_inv (pool_home events) (treeWalked (poolCtx opts events rt))"
proof -
  let ?ctx = "poolCtx opts events rt"
  have "space_free (ev_pinId pin) \<and> (ev_path pin = ''submission'' \<longrightarrow> pool_home events (body_str pin ''node'') (toCycleSubmission pin))"
    if "pin \<in> set (treeTimeline (rc_byPath ?ctx) (rc_taskSet ?ctx) (rc_lastVoteByPin ?ctx))" for pin
  proof -
    have "pin \<in> set events" using timeline_events that unfolding poolCtx_def rc_sel by blast
    then show ?thesis using assms by (auto simp: good_pool_def list_all_iff pool_home_def)
  qed
  then show ?thesis unfolding treeWalked_def treeWalk_def
    by (intro tree_home.run_inv) (simp_all add: home_inv_def walk_init_def)
qed

lemma active_node:
  assumes "jget (activeCycleByNodeOf cycles) node = Some c" shows "cy_node c = node"
proof -
  have "\<forall>n c. jget (foldl (\<lambda>m c. jset (cy_node c) c m) [] cs) n = Some c \<longrightarrow> cy_node c = n" for cs :: "cycle_record list"
    by (rule foldl_invariant) auto
  then show ?thesis using assms unfolding activeCycleByNodeOf_def by blast
qed

lemma effective_pin_home:
  assumes "good_pool events" "treeViewOf (poolCtx opts events rt) = Some tv" "effectiveOf (tv_active tv) node = Some eff"
  obtains e where "e \<in> set events" "ev_pinId e = ef_pinId eff" "body_str e ''node'' = node" "ef_author eff = ev_author e"
proof -
  let ?st = "treeWalked (poolCtx opts events rt)"
  have act: "tv_active tv = activeCycleByNodeOf (wk_cycles ?st)"
    using assms(2) by (auto simp: treeViewOf_def Let_def split: option.splits)
  obtain c where c: "jget (activeCycleByNodeOf (wk_cycles ?st)) node = Some c" "cy_effective c = Some eff"
    using assms(3) unfolding act by (auto simp: effectiveOf_def split: option.splits)
  have node: "cy_node c = node" by (rule active_node [OF c(1)])
  obtain key where k: "(key, c) \<in> set (wk_cycles ?st)" using activeCycle_in [OF c(1)] by auto
  have "distinct (map fst (wk_cycles ?st))" using walked_subs [of events rt opts] by (simp add: subs_inv_def)
  then have g: "jget (wk_cycles ?st) key = Some c" using k by (rule jget_in)
  have "cycle_ok c" using walk_inv_cycleD [OF walked_inv [OF assms(1)] g] by simp
  then have "cy_submissions c \<noteq> []" "eff = toEffective (last (cy_submissions c))"
    using c(2) unfolding cycle_ok_def by (auto split: if_splits)
  moreover have "\<forall>s \<in> set (cy_submissions c). pool_home events node s"
    using home_inv_cycleD [OF walked_home [OF assms(1)] g] node by simp
  ultimately have "pool_home events node (last (cy_submissions c))" by simp
  then show thesis
    using that \<open>eff = _\<close> by (auto simp: pool_home_def toEffective_def toCycleSubmission_def)
qed

lemma effective_pin_inject:
  assumes "good_pool events" "treeViewOf (poolCtx opts events rt) = Some tv"
    "effectiveOf (tv_active tv) node = Some eff" "effectiveOf (tv_active tv) node' = Some eff'"
    "ef_pinId eff = ef_pinId eff'"
  shows "node = node'"
proof -
  obtain e where e: "e \<in> set events" "ev_pinId e = ef_pinId eff" "body_str e ''node'' = node"
    using effective_pin_home [OF assms(1,2,3)] by blast
  obtain e' where e': "e' \<in> set events" "ev_pinId e' = ef_pinId eff'" "body_str e' ''node'' = node'"
    using effective_pin_home [OF assms(1,2,4)] by blast
  have "inj_on ev_pinId (set events)" using assms(1) by (simp add: good_pool_def distinct_map)
  then have "e = e'" using e e' assms(5) by (simp add: inj_onD)
  then show ?thesis using e(3) e'(3) by simp
qed

text \<open>A node's effective pin is a final-verified one exactly when the node is final-verified.\<close>

lemma finalVerifiedPins_node:
  assumes "good_pool events" "treeViewOf (poolCtx opts events rt) = Some tv" "effectiveOf (tv_active tv) node = Some eff"
  shows "ef_pinId eff \<in> set (finalVerifiedPins tv) \<longleftrightarrow> node \<in> set (tv_finalVerified tv)"
proof
  assume "ef_pinId eff \<in> set (finalVerifiedPins tv)"
  then obtain n eff' where n: "n \<in> set (tv_finalVerified tv)" "effectiveOf (tv_active tv) n = Some eff'" "ef_pinId eff' = ef_pinId eff"
    unfolding finalVerifiedPins_def by (force split: option.splits if_splits)
  then have "n = node" using effective_pin_inject [OF assms(1,2) n(2) assms(3)] by simp
  then show "node \<in> set (tv_finalVerified tv)" using n(1) by simp
next
  assume node: "node \<in> set (tv_finalVerified tv)"
  obtain e where "e \<in> set events" "ev_pinId e = ef_pinId eff" using effective_pin_home [OF assms] by blast
  then have "ef_pinId eff \<noteq> ''''" using assms(1) by (auto simp: good_pool_def list_all_iff space_free_def)
  then show "ef_pinId eff \<in> set (finalVerifiedPins tv)"
    using node assms(3) by (force simp: finalVerifiedPins_def)
qed

end
