(* ===== verification/EstimateFacts.thy ===== *)
theory EstimateFacts
  imports Estimate TreeHome
begin

text \<open>
  The estimate against the settlement: on a settled tree-mode replay both loops make the same
  payments, up to the order of the nodes, so the two share lists are equal.
\<close>

section \<open>Maps built from a list\<close>

lemma built_map_get_in:
  assumes "distinct (map f xs)" "x \<in> set xs"
  shows "jget (foldl (\<lambda>m x. jset (f x) (g x) m) [] xs) (f x) = Some (g x)"
proof -
  have "jget (foldl (\<lambda>m x. jset (f x) (g x) m) m xs) (f x) = Some (g x)" for m
    using assms
  proof (induction xs rule: rev_induct)
    case (snoc a xs)
    then show ?case by (cases "x = a") (auto simp: image_iff)
  qed simp
  then show ?thesis .
qed

section \<open>Weights\<close>

lemma uniform_get:
  "k \<in> set ks \<Longrightarrow> jget (foldl (\<lambda>ws nid. jset (Some (JStr nid)) u ws) ws0 ks) (Some (JStr k)) = Some u"
proof (induction ks rule: rev_induct)
  case (snoc a ks)
  then show ?case by (cases "a = k") auto
qed simp

lemma estimateWeight_resolve:
  assumes "node \<in> fst ` set tr"
  shows "estimateWeight (map snd tr) node = jget_or (resolveNodeWeights tr) (Some (JStr node)) 0"
proof -
  have ne: "tr \<noteq> []" using assms by auto
  have "jget (foldl (\<lambda>ws nid. jset (Some (JStr nid)) (uniform_weight (length tr)) ws) [] (map fst tr)) (Some (JStr node)) =
      Some (uniform_weight (length tr))"
    by (rule uniform_get) (use assms in simp)
  then have u: "jget_or (foldl (\<lambda>ws nid. jset (Some (JStr nid)) (uniform_weight (length tr)) ws) [] (map fst tr)) (Some (JStr node)) 0 =
      uniform_weight (length tr)"
    by (simp only: jget_or_def option.case)
  show ?thesis
    using ne u by (simp add: estimateWeight_def weightByNodeOf_def resolveNodeWeights_def Let_def split: option.split)
qed

section \<open>Participants\<close>

definition own_keys :: "stats \<Rightarrow> bool" where
  "own_keys m \<longleftrightarrow> distinct (map fst m) \<and> (\<forall>k p. jget m k = Some p \<longrightarrow> pa_metaId p = k)"

lemma own_keys_bump [invs]: "own_keys m \<Longrightarrow> (\<And>s. pa_metaId (upd s) = pa_metaId s) \<Longrightarrow> own_keys (bump r upd m)"
  by (auto simp: own_keys_def bump_def jget_or_def newStats_def intro: distinct_jset split: option.splits)

lemma keys_bump [simp]: "fst ` set (bump r upd m) = insert r (fst ` set m)"
  by (simp add: bump_def keys_jset)

lemma own_keys_claims: "own_keys m \<Longrightarrow> own_keys (foldl (\<lambda>ps (author, n). bump author (\<lambda>s. s\<lparr>pa_effectiveClaims := n\<rparr>) ps) m cs)"
  by (rule foldl_invariant [where P = own_keys]) (auto simp: invs)

lemma own_keys_votes:
  assumes "own_keys m" "\<And>v s. pa_metaId (u v s) = pa_metaId s"
  shows "own_keys (foldl (\<lambda>ps v. if P v then bump (vr_bot v) (u v) ps else ps) m vs)"
  by (rule foldl_invariant [where P = own_keys]) (simp_all add: invs assms)

lemma own_keys_node: "own_keys m \<Longrightarrow> own_keys (treeNodeStats ctx tv m node)"
  by (simp add: treeNodeStats_def Let_def invs own_keys_votes split: option.split)

lemma own_keys_review: "own_keys m \<Longrightarrow> own_keys (treeReviewStats ctx tv m)"
  unfolding treeReviewStats_def bumpReview_def
  by (rule foldl_invariant [where P = own_keys]) (simp_all add: own_keys_votes split: option.split)

lemma own_keys_participants: "own_keys (treeParticipants ctx tv)"
proof -
  have "own_keys (bump (rc_rootAuthor ctx) id [])" by (rule own_keys_bump) (simp_all add: own_keys_def)
  then show ?thesis unfolding treeParticipants_def Let_def
    by (intro own_keys_review foldl_invariant [where P = own_keys] own_keys_node own_keys_claims)
qed

lemma keys_foldl_mono:
  "(\<And>m x. fst ` set m \<subseteq> fst ` set (f m x)) \<Longrightarrow> fst ` set m \<subseteq> fst ` set (foldl f m xs)"
  by (rule foldl_invariant [where P = "\<lambda>m'. fst ` set m \<subseteq> fst ` set m'"]) blast+

lemma keys_vote_step:
  "fst ` set m \<subseteq> fst ` set (foldl (\<lambda>ps v. if P v then bump (vr_bot v) (u v) ps else ps) m vs)"
  by (rule keys_foldl_mono) auto

lemma keys_voted:
  "v \<in> set vs \<Longrightarrow> P v \<Longrightarrow> vr_bot v \<in> fst ` set (foldl (\<lambda>ps v. if P v then bump (vr_bot v) (u v) ps else ps) m vs)"
proof (induction vs arbitrary: m)
  case (Cons a vs)
  have "vr_bot a \<in> fst ` set (foldl (\<lambda>ps v. if P v then bump (vr_bot v) (u v) ps else ps) (bump (vr_bot a) (u a) m) vs)"
    using keys_vote_step [where m = "bump (vr_bot a) (u a) m"] by auto
  then show ?case using Cons by auto
qed simp

lemma keys_node: "fst ` set m \<subseteq> fst ` set (treeNodeStats ctx tv m node)"
proof -
  have "fst ` set m \<subseteq> fst ` set (foldl (\<lambda>ps v. if identityOk r a v
      then bump (vr_bot v) (\<lambda>s. s\<lparr>pa_reviewVotes := pa_reviewVotes s + 1\<rparr>) ps else ps) m vs)" for r a vs
    by (rule keys_vote_step)
  then show ?thesis by (simp add: treeNodeStats_def Let_def subset_insertI2 split: option.split)
qed

lemma keys_review: "fst ` set m \<subseteq> fst ` set (treeReviewStats ctx tv m)"
  unfolding treeReviewStats_def bumpReview_def
  by (rule keys_foldl_mono) (simp add: keys_vote_step split: option.split)

lemma keys_node_voter:
  assumes "effectiveOf (tv_active tv) node = Some eff" "v \<in> set (votesOn ctx (ef_pinId eff))"
    "identityOk (rc_rootAuthor ctx) (ef_author eff) v"
  shows "vr_bot v \<in> fst ` set (treeNodeStats ctx tv m node)"
  using keys_voted [OF assms(2), of "identityOk (rc_rootAuthor ctx) (ef_author eff)",
      where u = "\<lambda>_ s. s\<lparr>pa_reviewVotes := pa_reviewVotes s + 1\<rparr>" and m = m] assms(1,3)
  by (simp add: treeNodeStats_def Let_def)

lemma participants_voter:
  assumes "node \<in> fst ` set (tv_tree tv)" "effectiveOf (tv_active tv) node = Some eff"
    "v \<in> set (votesOn ctx (ef_pinId eff))" "identityOk (rc_rootAuthor ctx) (ef_author eff) v"
  shows "vr_bot v \<in> fst ` set (treeParticipants ctx tv)"
proof -
  have "vr_bot v \<in> fst ` set (foldl (treeNodeStats ctx tv) m nodes)" if "node \<in> set nodes" for m nodes
    using that
  proof (induction nodes arbitrary: m)
    case (Cons n nodes)
    have "vr_bot v \<in> fst ` set (foldl (treeNodeStats ctx tv) (treeNodeStats ctx tv m node) nodes)"
      using keys_node_voter [OF assms(2-4)] keys_foldl_mono [of "treeNodeStats ctx tv", OF keys_node] by blast
    then show ?case using Cons by auto
  qed simp
  moreover have "node \<in> set (nodeSort (map fst (tv_tree tv)))" using assms(1) by (simp add: nodeSort_def)
  ultimately show ?thesis unfolding treeParticipants_def Let_def using keys_review by blast
qed

text \<open>Both readings of a recorded reviewer's accuracy agree.\<close>

lemma accuracy_agree:
  assumes "own_keys m" "r \<in> fst ` set m"
  shows "accuracyOf (accuracyRecords (sortParticipants m)) r =
     jget_or (reviewerAccuracy (map snd m)) r REVIEWER_ACCURACY_FLOOR_BP"
proof -
  obtain p where p: "(r, p) \<in> set m" using assms(2) by auto
  then have g: "jget m r = Some p" using assms(1) by (simp add: own_keys_def)
  then have id: "pa_metaId p = r" using assms(1) by (simp add: own_keys_def)
  have ids: "map pa_metaId (map snd m) = map fst m"
    using assms(1) unfolding own_keys_def by (auto simp: map_eq_conv dest!: jget_in)
  have d: "distinct (map pa_metaId (map snd m))" unfolding ids using assms(1) by (simp add: own_keys_def)
  have "mset (map pa_metaId (sortParticipants m)) = mset (map pa_metaId (map snd m))"
    by (simp add: sortParticipants_def image_mset.compositionality)
  then have d': "distinct (map pa_metaId (sortParticipants m))" using d by (metis mset_eq_imp_distinct_iff)
  have i: "p \<in> set (map snd m)" "p \<in> set (sortParticipants m)" using p by (force simp: sortParticipants_def)+
  have "jget (accuracyRecords (sortParticipants m)) r = Some (pa_reviewCorrect p, pa_reviewTerminal p)"
    using built_map_get_in [OF d' i(2), where g = "\<lambda>s. (pa_reviewCorrect s, pa_reviewTerminal s)"]
    by (simp add: accuracyRecords_def id)
  moreover have "jget (reviewerAccuracy (map snd m)) r = Some (laplace (pa_reviewCorrect p) (pa_reviewTerminal p))"
    using built_map_get_in [OF d i(1), where g = "\<lambda>s. laplace (pa_reviewCorrect s) (pa_reviewTerminal s)"]
    by (simp add: reviewerAccuracy_def id)
  ultimately show ?thesis by (simp add: accuracyOf_def jget_or_def)
qed

section \<open>The two loops\<close>

definition estimate_payments :: "task_projection \<Rightarrow> string \<times> node_projection \<Rightarrow> payment list" where
  "estimate_payments p entry =
     (case entry of (nodeId, node) \<Rightarrow>
       (case np_submission node of
          None \<Rightarrow> []
        | Some sub \<Rightarrow>
           (let w = estimateWeight (tp_nodes p) nodeId in
            if np_status node \<noteq> StVerified \<or> w \<le> 0 then []
            else node_payments (clampSubmitterShareBP (po_submitterShareBP (tp_policy p)))
                   (accuracyOf (accuracyRecords (tp_participants p))) w (sv_submitter sub)
                   (estimateReviewers (tp_publisher p) (sv_submitter sub) (np_votes node)))))"

definition settle_payments ::
  "replay_ctx \<Rightarrow> weights \<Rightarrow> (string, int) jsmap \<Rightarrow> string \<times> string \<times> string \<Rightarrow> payment list" where
  "settle_payments ctx weights accuracy entry =
     (case entry of (node, pinId, author) \<Rightarrow>
        let w = jget_or weights (Some (JStr node)) 0 in
        if w \<le> 0 then []
        else node_payments (rc_submitterShareBP ctx) (\<lambda>r. jget_or accuracy r REVIEWER_ACCURACY_FLOOR_BP) w author
               (reviewersOf ctx pinId author))"

lemma estimateNode_payments: "estimateNode p parts x = foldl add_payment parts (estimate_payments p x)"
  by (simp add: estimateNode_def estimate_payments_def Let_def pay_node_payments split: prod.split option.split)

lemma settleNode_payments: "settleNode ctx ws acc parts x = foldl add_payment parts (settle_payments ctx ws acc x)"
  by (simp add: settleNode_def settle_payments_def Let_def pay_node_payments split: prod.split)

lemma mset_concat_map: "mset xs = mset ys \<Longrightarrow> mset (concat (map f xs)) = mset (concat (map f ys))"
proof -
  have "mset (concat (map f xs)) = \<Sum>\<^sub># (image_mset (\<lambda>x. mset (f x)) (mset xs))" for xs
    by (induction xs) auto
  then show "mset xs = mset ys \<Longrightarrow> mset (concat (map f xs)) = mset (concat (map f ys))" by simp
qed

lemma concat_map_concat: "concat (map f (concat (map g xs))) = concat (map (\<lambda>x. concat (map f (g x))) xs)"
  by (induction xs) auto

lemma clamp_idem: "clampSubmitterShareBP (submitterShareOf split) = submitterShareOf split"
  using submitterShare_range [of split]
  by (simp add: clampSubmitterShareBP_def SUBMITTER_SHARE_BP_MAX_def SUBMITTER_SHARE_BP_MIN_def)

lemma estimateReviewers_voteList:
  "estimateReviewers (rc_rootAuthor ctx) author (voteListOn ctx pinId author) = reviewersOf ctx pinId author"
proof -
  have "(asStr (jget (vr_body v) ''verdict'') ''invalid'' = ''pass'') = is_pass v" for v
    by (simp add: is_pass_def asStr_def split: option.split json.split)
  then show ?thesis
    by (simp add: estimateReviewers_def voteListOn_def reviewersOf_def filter_map comp_def toVoteSummary_def identityOk_def conj_ac
          cong: filter_cong)
qed

section \<open>The estimate of a settled tree-mode task\<close>

text \<open>Per node of the tree, the two loops make the same payments.\<close>

lemma tree_node_payments:
  assumes good: "good_pool events" and tv: "treeViewOf (poolCtx opts events rt) = Some tv"
    and node: "node \<in> fst ` set (tv_tree tv)"
    and p: "p = treeProject sha (poolCtx opts events rt) tv"
  defines "paid \<equiv> case effectiveOf (tv_active tv) node of
      Some eff \<Rightarrow> if ef_pinId eff \<in> set (finalVerifiedPins tv) then [(node, ef_pinId eff, ef_author eff)] else []
    | None \<Rightarrow> []"
  shows "estimate_payments p (node, treeNodeState (poolCtx opts events rt) tv disputed node) =
    concat (map (settle_payments (poolCtx opts events rt) (resolveNodeWeights (tv_tree tv))
      (reviewerAccuracy (map snd (treeParticipants (poolCtx opts events rt) tv)))) paid)"
proof (cases "effectiveOf (tv_active tv) node")
  case None
  then show ?thesis by (simp add: estimate_payments_def treeNodeState_def nodeBase_def Let_def paid_def)
next
  case (Some eff)
  let ?ctx = "poolCtx opts events rt"
  let ?np = "treeNodeState ?ctx tv disputed node"
  have np: "np_submission ?np = Some (submissionView ?ctx (ef_pinId eff) (ef_author eff) (ef_atMs eff) None)"
    "np_votes ?np = voteListOn ?ctx (ef_pinId eff) (ef_author eff)"
    using Some by (simp_all add: treeNodeState_def Let_def)
  have st: "np_status ?np = StVerified \<longleftrightarrow> node \<in> set (tv_finalVerified tv)" by (simp add: treeStatus_verified)
  have sel: "tp_nodes p = map snd (tv_tree tv)" "tp_publisher p = rc_rootAuthor ?ctx"
    "tp_participants p = sortParticipants (treeParticipants ?ctx tv)"
    "po_submitterShareBP (tp_policy p) = rc_submitterShareBP ?ctx"
    by (simp_all add: p treeProject_def Let_def case_prod_unfold projectionOf_def policyView_def)
  have sigma: "clampSubmitterShareBP (rc_submitterShareBP ?ctx) = rc_submitterShareBP ?ctx"
    by (simp add: poolCtx_def rc_sel clamp_idem)
  have acc: "accuracyOf (accuracyRecords (sortParticipants (treeParticipants ?ctx tv))) r =
      jget_or (reviewerAccuracy (map snd (treeParticipants ?ctx tv))) r REVIEWER_ACCURACY_FLOOR_BP"
    if "r \<in> set (reviewersOf ?ctx (ef_pinId eff) (ef_author eff))" for r
  proof -
    obtain v where "v \<in> set (votesOn ?ctx (ef_pinId eff))" "identityOk (rc_rootAuthor ?ctx) (ef_author eff) v" "r = vr_bot v"
      using \<open>r \<in> _\<close> by (auto simp: reviewersOf_def)
    then have "r \<in> fst ` set (treeParticipants ?ctx tv)" using participants_voter [OF node Some] by simp
    then show ?thesis by (rule accuracy_agree [OF own_keys_participants])
  qed
  show ?thesis
    using finalVerifiedPins_node [OF good tv Some] st node_payments_cong [OF acc]
    by (simp add: estimate_payments_def settle_payments_def np sel sigma estimateWeight_resolve [OF node]
          estimateReviewers_voteList submissionView_def paid_def Some Let_def)
qed

lemma tree_estimate_shares:
  assumes good: "good_pool events" and tv: "treeViewOf (poolCtx opts events rt) = Some tv"
    and p: "p = treeProject sha (poolCtx opts events rt) tv" and s: "tp_settlement p = Some s"
  shows "es_shares (estimateMetaTaskShares p) = se_shares s"
proof -
  let ?ctx = "poolCtx opts events rt"
  let ?ws = "resolveNodeWeights (tv_tree tv)"
  let ?acc = "reviewerAccuracy (map snd (treeParticipants ?ctx tv))"
  let ?keys = "map fst (tv_tree tv)"
  define paid where "paid node = (case effectiveOf (tv_active tv) node of
      Some eff \<Rightarrow> if ef_pinId eff \<in> set (finalVerifiedPins tv) then [(node, ef_pinId eff, ef_author eff)] else []
    | None \<Rightarrow> [])" for node
  define disputed where "disputed = map (\<lambda>(_, oc). oc_node oc) (snd (treeChallenges ?ctx tv))"
  have ns: "tp_nodeStates p = map (\<lambda>node. (node, treeNodeState ?ctx tv disputed node)) (nodeSort ?keys)"
    by (simp add: p treeProject_def Let_def case_prod_unfold disputed_def)
  have se: "se_shares s = sortShares (settleNodes ?ctx ?ws ?acc (treePaid tv))"
    using s by (auto simp: p treeProject_def Let_def case_prod_unfold settleTask_def split: if_splits)
  have tp: "treePaid tv = concat (map paid ?keys)"
    unfolding treePaid_def paid_def [abs_def] by (rule refl)
  have settle: "settleNodes ?ctx ?ws ?acc (treePaid tv) =
      foldl add_payment [] (concat (map (\<lambda>node. concat (map (settle_payments ?ctx ?ws ?acc) (paid node))) ?keys))"
    by (simp add: settleNodes_def settleNode_payments [abs_def] foldl_payments tp concat_map_concat comp_def)
  have est: "foldl (estimateNode p) [] (own_order (tp_nodeStates p)) =
      foldl add_payment [] (concat (map (estimate_payments p) (own_order (tp_nodeStates p))))"
    by (simp add: estimateNode_payments [abs_def] foldl_payments)
  have "mset (concat (map (estimate_payments p) (own_order (tp_nodeStates p)))) =
      mset (concat (map (estimate_payments p) (map (\<lambda>node. (node, treeNodeState ?ctx tv disputed node)) ?keys)))"
    by (rule mset_concat_map) (simp only: mset_own_order ns nodeSort_def mset_map mset_sort)
  also have "concat (map (estimate_payments p) (map (\<lambda>node. (node, treeNodeState ?ctx tv disputed node)) ?keys)) =
      concat (map (\<lambda>node. concat (map (settle_payments ?ctx ?ws ?acc) (paid node))) ?keys)"
    using tree_node_payments [OF good tv _ p] by (auto simp: comp_def paid_def intro!: arg_cong [where f = concat])
  finally show ?thesis
    unfolding estimateMetaTaskShares_def se settle est estimation.select_convs by (rule sortShares_payments)
qed

end
