(* ===== verification/Deadlines.thy ===== *)
theory Deadlines
  imports Replay
begin

text \<open>
  metatask/deadlines.ts and the deadline check of metatask/refresher.ts: the earliest instant a
  clock of the replay can change a projection, and whether one is due since the last replay.
  The projection is one the engine wrote, so the defaults for fields an older row lacks do not
  occur.
\<close>

definition HOUR_MS :: rat where "HOUR_MS = 3600000"
definition DAY_MS :: rat where "DAY_MS = 86400000"

definition holderDeadlines :: "policy_view \<Rightarrow> node_projection \<Rightarrow> rat list" where
  "holderDeadlines po node =
     (case np_holder node of
        None \<Rightarrow> []
      | Some holder \<Rightarrow>
          if po_claimTtlHours po > 0 then [of_int (ho_sinceMs holder) + po_claimTtlHours po * HOUR_MS] else [])"

definition reviewDeadlines :: "policy_view \<Rightarrow> node_projection \<Rightarrow> rat list" where
  "reviewDeadlines po node =
     (case np_submission node of
        None \<Rightarrow> []
      | Some submission \<Rightarrow>
          if po_verifyWindowHours po > 0 \<and> of_nat (np_passVotes node) < max 1 (po_verifyQuorum po)
          then [of_int (sv_atMs submission) + po_verifyWindowHours po * HOUR_MS] else [])"

definition challengeDeadlines :: "policy_view \<Rightarrow> int list \<Rightarrow> rat list" where
  "challengeDeadlines po stamps = map (\<lambda>t. of_int t + po_challengeTtlDays po * DAY_MS) (filter (\<lambda>t. t > 0) stamps)"

definition deadlineCandidates :: "task_projection \<Rightarrow> int list \<Rightarrow> rat list" where
  "deadlineCandidates p challengeTimestampsMs =
     (let po = tp_policy p in
      (if po_mode po = ''competitive'' then []
       else concat (map (\<lambda>(_, node). holderDeadlines po node @ reviewDeadlines po node) (own_order (tp_nodeStates p)))) @
      challengeDeadlines po challengeTimestampsMs)"

definition nextTimeDeadlineMs :: "task_projection \<Rightarrow> int list \<Rightarrow> rat option" where
  "nextTimeDeadlineMs p challengeTimestampsMs =
     (case deadlineCandidates p challengeTimestampsMs of
        [] \<Rightarrow> None
      | c # cs \<Rightarrow> Some (foldl min c cs))"

definition deadlinePending :: "task_projection \<Rightarrow> task_event_set \<Rightarrow> int \<Rightarrow> bool" where
  "deadlinePending p ts nowMs =
     (case nextTimeDeadlineMs p
            (map ev_timestampMs (filter (\<lambda>pin. ev_path pin = ''challenge'') (map snd (ts_scopedByPin ts)))) of
        None \<Rightarrow> False
      | Some deadline \<Rightarrow>
          of_int (fr_evaluatedAtMs (tp_freshness p)) \<le> deadline \<and> deadline < of_int nowMs)"

lemma foldl_min:
  fixes a :: "'a :: linorder"
  shows "foldl min a xs \<in> insert a (set xs) \<and> (\<forall>y \<in> insert a (set xs). foldl min a xs \<le> y)"
proof (induction xs arbitrary: a)
  case (Cons x xs)
  have "min a x = a \<or> min a x = x" by (auto simp: min_def)
  moreover have "foldl min (min a x) xs \<le> a" "foldl min (min a x) xs \<le> x"
    using Cons [of "min a x"] by simp_all
  ultimately show ?case using Cons [of "min a x"] by auto
qed simp

lemma nextTimeDeadline_Some:
  "nextTimeDeadlineMs p ts = Some d \<longleftrightarrow>
     d \<in> set (deadlineCandidates p ts) \<and> (\<forall>c \<in> set (deadlineCandidates p ts). d \<le> c)"
proof (cases "deadlineCandidates p ts")
  case (Cons c cs)
  have "nextTimeDeadlineMs p ts = Some d \<longleftrightarrow> foldl min c cs = d" by (simp add: nextTimeDeadlineMs_def Cons)
  also have "\<dots> \<longleftrightarrow> d \<in> insert c (set cs) \<and> (\<forall>y \<in> insert c (set cs). d \<le> y)"
    using foldl_min [of c cs] by (metis order_antisym)
  finally show ?thesis by (simp add: Cons)
qed (simp add: nextTimeDeadlineMs_def)

end
