(* ===== verification/Store.thy ===== *)
theory Store
  imports Estimate
begin

text \<open>
  metatask/projectionStore.ts as a value: one map per table, keyed by the primary key. SQL text,
  transactions and JSON columns are representation: a column that holds the JSON of an event body
  or a projection is that body or projection, and a row whose JSON does not parse does not occur.
  Display identities, which no other part reads, and the wall-clock stamp columns are left out.
\<close>

section \<open>Tables\<close>

record projection_row =
  pw_dirtyKey :: string
  pw_projection :: task_projection

datatype alert_kind = ClaimTtlSoon | SubmissionChange | ClosingDrive

record alert =
  al_kind :: alert_kind
  al_rootPinId :: string
  al_node :: "string option"
  al_detail :: "string option"
  al_createdAtMs :: int

record refresh_state =
  rs_lastError :: "string option"
  rs_everOk :: bool
  rs_boundaryBlock :: int
  rs_refreshing :: bool
  rs_seq :: int

record mt_store =
  ms_events :: "(string, chain_event) jsmap"
  ms_rows :: "(string, projection_row) jsmap"
  ms_watch :: "(string \<times> string, string) jsmap"
  ms_alerts :: "alert list" \<comment> \<open>in id order\<close>
  ms_refresh :: refresh_state

definition store_init :: mt_store where
  "store_init = \<lparr>ms_events = [], ms_rows = [], ms_watch = [], ms_alerts = [],
     ms_refresh = \<lparr>rs_lastError = None, rs_everOk = False, rs_boundaryBlock = -1, rs_refreshing = False, rs_seq = 0\<rparr>\<rparr>"

section \<open>Event cache\<close>

text \<open>Anti-downgrade: an empty body never overwrites a stored one.\<close>

definition upsertEvent :: "(string, chain_event) jsmap \<Rightarrow> chain_event \<Rightarrow> (string, chain_event) jsmap" where
  "upsertEvent m event =
     jset (ev_pinId event)
       (case jget m (ev_pinId event) of
          Some old \<Rightarrow> if ev_body event = [] \<and> ev_body old \<noteq> [] then event\<lparr>ev_body := ev_body old\<rparr> else event
        | None \<Rightarrow> event) m"

definition upsertEvents :: "chain_event list \<Rightarrow> mt_store \<Rightarrow> mt_store" where
  "upsertEvents events s = s\<lparr>ms_events := foldl upsertEvent (ms_events s) events\<rparr>"

definition loadEvents :: "mt_store \<Rightarrow> chain_event list" where
  "loadEvents s = map snd (ms_events s)"

section \<open>Projections\<close>

definition saveProjections ::
  "task_projection list \<Rightarrow> string list \<Rightarrow> (string, string) jsmap \<Rightarrow> mt_store \<Rightarrow> mt_store" where
  "saveProjections projections liveRootIds dirtyKeys s =
     s\<lparr>ms_rows := filter (\<lambda>(root, _). root \<in> set liveRootIds)
         (foldl (\<lambda>m p. jset (tp_rootPinId p)
             \<lparr>pw_dirtyKey = jget_or dirtyKeys (tp_rootPinId p) '''', pw_projection = p\<rparr> m)
           (ms_rows s) projections)\<rparr>"

definition getProjection :: "mt_store \<Rightarrow> string \<Rightarrow> task_projection option" where
  "getProjection s rootPinId = map_option pw_projection (jget (ms_rows s) rootPinId)"

section \<open>Board\<close>

record my_stats =
  my_claimed :: nat
  my_submitted :: nat
  my_verified :: nat
  my_reviewVotes :: nat
  my_shareBP :: int
  my_estShareBP :: int

datatype my_role = RolePublisher | RoleParticipant

record board_task =
  bt_rootPinId :: string
  bt_title :: string
  bt_brief :: string
  bt_publisher :: string
  bt_tags :: "string list"
  bt_mode :: string
  bt_taskComplete :: bool
  bt_progress :: progress
  bt_participantCount :: nat
  bt_lastActivityMs :: int
  bt_boundaryBlock :: int
  bt_evaluatedAtMs :: int
  bt_eventCount :: nat
  bt_myRoles :: "my_role list"
  bt_myStats :: "my_stats option"
  bt_settlementFinalized :: bool

record mt_board =
  bd_localRosterMetaIds :: "string list"
  bd_tasks :: "board_task list"
  bd_alerts :: "alert list"
  bd_hAct2 :: "int option"
  bd_hAct3 :: "int option"
  bd_refresh :: refresh_state

definition activeParticipant :: "participant \<Rightarrow> bool" where
  "activeParticipant p \<longleftrightarrow>
     pa_effectiveClaims p + pa_submissions p + pa_verifiedContrib p + pa_reviewVotes p > 0"

definition minedBy :: "string list \<Rightarrow> task_projection \<Rightarrow> participant list" where
  "minedBy roster p = filter (\<lambda>q. pa_metaId q \<in> set roster \<and> activeParticipant q) (tp_participants p)"

definition rosterShare :: "string list \<Rightarrow> share list \<Rightarrow> int" where
  "rosterShare roster shares =
     foldl (\<lambda>acc sh. acc + sh_shareBP sh) 0 (filter (\<lambda>sh. sh_metaId sh \<in> set roster) shares)"

definition sum_on :: "(participant \<Rightarrow> nat) \<Rightarrow> participant list \<Rightarrow> nat" where
  "sum_on f ps = foldl (\<lambda>acc p. acc + f p) 0 ps"

definition myRolesOf :: "string list \<Rightarrow> task_projection \<Rightarrow> my_role list" where
  "myRolesOf roster p =
     (if tp_publisher p \<in> set roster then [RolePublisher] else []) @
     (if minedBy roster p \<noteq> [] then [RoleParticipant] else [])"

definition myStatsOf :: "string list \<Rightarrow> task_projection \<Rightarrow> my_stats option" where
  "myStatsOf roster p =
     (let mine = minedBy roster p in
      if mine = [] then None
      else Some
        \<lparr>my_claimed = sum_on pa_effectiveClaims mine, my_submitted = sum_on pa_submissions mine,
         my_verified = sum_on pa_verifiedContrib mine, my_reviewVotes = sum_on pa_reviewVotes mine,
         my_shareBP = (case tp_settlement p of None \<Rightarrow> 0 | Some s \<Rightarrow> rosterShare roster (se_shares s)),
         my_estShareBP = rosterShare roster (es_shares (estimateMetaTaskShares p))\<rparr>)"

definition boardTask :: "string list \<Rightarrow> task_projection \<Rightarrow> board_task" where
  "boardTask roster p =
     \<lparr>bt_rootPinId = tp_rootPinId p, bt_title = tp_title p, bt_brief = tp_brief p,
      bt_publisher = tp_publisher p, bt_tags = tp_tags p,
      bt_mode = (if po_mode (tp_policy p) = ''competitive'' then ''competitive'' else ''tree''),
      bt_taskComplete = tp_taskComplete p, bt_progress = tp_progress p,
      bt_participantCount = length (tp_participants p),
      bt_lastActivityMs = tp_lastActivityMs p,
      bt_boundaryBlock = fr_boundaryBlock (tp_freshness p),
      bt_evaluatedAtMs = fr_evaluatedAtMs (tp_freshness p),
      bt_eventCount = fr_eventCount (tp_freshness p),
      bt_myRoles = myRolesOf roster p, bt_myStats = myStatsOf roster p,
      bt_settlementFinalized = (tp_settlement p \<noteq> None)\<rparr>"

text \<open>Alerts are listed latest first, up to a limit.\<close>

definition listAlerts :: "nat \<Rightarrow> mt_store \<Rightarrow> alert list" where
  "listAlerts limit s = take limit (rev (ms_alerts s))"

definition board :: "string list \<Rightarrow> mt_store \<Rightarrow> mt_board" where
  "board localRosterMetaIds s =
     (let roster = filter (\<lambda>m. m \<noteq> '''') localRosterMetaIds;
          rows = sort_key (\<lambda>(root, row). (- tp_lastActivityMs (pw_projection row), root)) (ms_rows s)
      in \<lparr>bd_localRosterMetaIds = roster,
          bd_tasks = map (\<lambda>(_, row). boardTask roster (pw_projection row)) rows,
          bd_alerts = listAlerts 30 s, bd_hAct2 = H_ACT2, bd_hAct3 = H_ACT3, bd_refresh = ms_refresh s\<rparr>)"

section \<open>Watch state, alerts and refresh state\<close>

definition setWatchStatuses :: "((string \<times> string) \<times> string) list \<Rightarrow> mt_store \<Rightarrow> mt_store" where
  "setWatchStatuses entries s = s\<lparr>ms_watch := foldl (\<lambda>m (k, status). jset k status m) (ms_watch s) entries\<rparr>"

definition appendAlerts :: "alert list \<Rightarrow> mt_store \<Rightarrow> mt_store" where
  "appendAlerts alerts s = s\<lparr>ms_alerts := ms_alerts s @ alerts\<rparr>"

definition pruneAlerts :: "int \<Rightarrow> int \<Rightarrow> mt_store \<Rightarrow> mt_store" where
  "pruneAlerts olderThanMs nowMs s =
     s\<lparr>ms_alerts := filter (\<lambda>al. \<not> al_createdAtMs al < nowMs - olderThanMs) (ms_alerts s)\<rparr>"

definition setRefreshing :: "bool \<Rightarrow> mt_store \<Rightarrow> mt_store" where
  "setRefreshing refreshing s = s\<lparr>ms_refresh := (ms_refresh s)\<lparr>rs_refreshing := refreshing\<rparr>\<rparr>"

definition markRefreshDone :: "bool \<Rightarrow> string option \<Rightarrow> int \<Rightarrow> mt_store \<Rightarrow> mt_store" where
  "markRefreshDone ok error boundaryBlock s =
     s\<lparr>ms_refresh := (ms_refresh s)\<lparr>rs_everOk := (ok \<or> rs_everOk (ms_refresh s)), rs_lastError := error,
        rs_boundaryBlock := boundaryBlock, rs_refreshing := False\<rparr>\<rparr>"

definition bumpSeq :: "mt_store \<Rightarrow> mt_store" where
  "bumpSeq s = s\<lparr>ms_refresh := (ms_refresh s)\<lparr>rs_seq := rs_seq (ms_refresh s) + 1\<rparr>\<rparr>"

section \<open>Invariant of the event cache\<close>

definition events_ok :: "(string, chain_event) jsmap \<Rightarrow> bool" where
  "events_ok m \<longleftrightarrow> distinct (map fst m) \<and> (\<forall>(k, e) \<in> set m. ev_pinId e = k)"

lemma events_ok_upsert [invs]: "events_ok m \<Longrightarrow> events_ok (upsertEvent m e)"
  unfolding events_ok_def upsertEvent_def
  by (auto intro: distinct_jset dest!: in_set_jsetD split: option.splits if_splits)

lemma events_ok_foldl: "events_ok m \<Longrightarrow> events_ok (foldl upsertEvent m es)"
  by (rule foldl_invariant [where P = events_ok]) (simp_all add: invs)

lemma events_ok_distinct: "events_ok m \<Longrightarrow> distinct (map ev_pinId (map snd m))"
proof -
  assume ok: "events_ok m"
  then have "map ev_pinId (map snd m) = map fst m" by (auto simp: events_ok_def)
  then show ?thesis using ok by (simp add: events_ok_def del: map_map)
qed

text \<open>A body once known is never lost, and the other columns are those of the latest sweep.\<close>

lemma upsert_get:
  "jget (upsertEvent m e) k =
     (if k \<noteq> ev_pinId e then jget m k
      else Some (case jget m k of
         Some old \<Rightarrow> if ev_body e = [] \<and> ev_body old \<noteq> [] then e\<lparr>ev_body := ev_body old\<rparr> else e
       | None \<Rightarrow> e))"
  by (simp add: upsertEvent_def)

lemma known_body_step:
  "jget m k = Some old \<Longrightarrow> ev_body old \<noteq> [] \<Longrightarrow> \<exists>e'. jget (upsertEvent m e) k = Some e' \<and> ev_body e' \<noteq> []"
  by (auto simp: upsert_get split: if_splits)

lemma known_body_foldl:
  "jget m k = Some old \<Longrightarrow> ev_body old \<noteq> [] \<Longrightarrow> \<exists>e'. jget (foldl upsertEvent m es) k = Some e' \<and> ev_body e' \<noteq> []"
proof (induction es arbitrary: m old)
  case (Cons e es)
  from known_body_step [OF Cons.prems] obtain e' where "jget (upsertEvent m e) k = Some e'" "ev_body e' \<noteq> []" by blast
  from Cons.IH [OF this] show ?case by simp
qed auto

end
