(* ===== verification/Sweep.thy ===== *)
theory Sweep
  imports Deadlines Store
begin

text \<open>
  The sweep of metatask/refresher.ts (\<open>runRefresh\<close>): cache the collected events, replay the dirty
  roots, persist. What the collector brings from the network is an argument: an error, or the
  events and, per pool, whether its walk failed. A replay that throws leaves the root's row as it
  is; one that does not return hangs the sweep (\<open>None\<close>).
\<close>

section \<open>One root\<close>

definition rosterPinsFromEvents :: "chain_event list \<Rightarrow> body" where
  "rosterPinsFromEvents events =
     foldl (\<lambda>m e. if ev_path e = METATASK_ROSTER_SEGMENT then jset (ev_pinId e) (JObj (ev_body e)) m else m) [] events"

record sweep_state =
  sw_projections :: "task_projection list"
  sw_dirtyKeys :: "(string, string) jsmap"

definition sweepOptions :: "int \<Rightarrow> body \<Rightarrow> string \<Rightarrow> replay_options" where
  "sweepOptions nowMs rosterPins rootPinId =
     \<lparr>ro_rootPinId = Some rootPinId, ro_now = Some nowMs, ro_hAct = None, ro_hAct2 = None,
      ro_evaluatedAtMs = nowMs, ro_rosterPins = Some rosterPins\<rparr>"

text \<open>The persisted row still says what a replay would: same dirty key and no clock due.\<close>

definition rowFresh :: "(string, projection_row) jsmap \<Rightarrow> string \<Rightarrow> task_event_set \<Rightarrow> string \<Rightarrow> int \<Rightarrow> bool" where
  "rowFresh persisted rootPinId ts dirtyKey nowMs =
     (case jget persisted rootPinId of
        None \<Rightarrow> False
      | Some previous \<Rightarrow> pw_dirtyKey previous = dirtyKey \<and> \<not> deadlinePending (pw_projection previous) ts nowMs)"

definition sweepRoot ::
  "(string \<Rightarrow> string) \<Rightarrow> chain_event list \<Rightarrow> (string, projection_row) jsmap \<Rightarrow> int \<Rightarrow> sweep_state \<Rightarrow> string \<Rightarrow>
   sweep_state option" where
  "sweepRoot sha allEvents persisted nowMs sw rootPinId =
     (let rosterPins = rosterPinsFromEvents allEvents in
      case taskEventSet (byPathOf allEvents) (Some rootPinId) of
        Inl _ \<Rightarrow> Some sw
      | Inr ts \<Rightarrow>
         (let dirtyKey = taskDirtyKey sha ts rosterPins;
              sw = sw\<lparr>sw_dirtyKeys := jset rootPinId dirtyKey (sw_dirtyKeys sw)\<rparr>
          in if rowFresh persisted rootPinId ts dirtyKey nowMs then Some sw
             else (case replayMetaTask sha allEvents (sweepOptions nowMs rosterPins rootPinId) of
                     None \<Rightarrow> None
                   | Some (Inl _) \<Rightarrow> Some sw
                   | Some (Inr p) \<Rightarrow> Some (sw\<lparr>sw_projections := sw_projections sw @ [p]\<rparr>))))"

fun sweepRoots ::
  "(string \<Rightarrow> string) \<Rightarrow> chain_event list \<Rightarrow> (string, projection_row) jsmap \<Rightarrow> int \<Rightarrow> sweep_state \<Rightarrow> string list \<Rightarrow>
   sweep_state option" where
  "sweepRoots sha allEvents persisted nowMs sw [] = Some sw"
| "sweepRoots sha allEvents persisted nowMs sw (r # rs) =
     (case sweepRoot sha allEvents persisted nowMs sw r of
        None \<Rightarrow> None
      | Some sw' \<Rightarrow> sweepRoots sha allEvents persisted nowMs sw' rs)"

section \<open>The sweep\<close>

record collected =
  co_events :: "chain_event list"
  co_failed :: "bool list" \<comment> \<open>per pool: the walk failed\<close>

datatype sweep_result = SweepOk bool | SweepError string \<comment> \<open>a total walk failure; the error\<close>

definition rootIdsOf :: "chain_event list \<Rightarrow> string list" where
  "rootIdsOf events = map ev_pinId (filter (\<lambda>e. ev_path e = ''task'') events)"

definition sweptBoundary :: "task_projection list \<Rightarrow> int" where
  "sweptBoundary ps = foldl (\<lambda>m p. max m (fr_boundaryBlock (tp_freshness p))) (-1) ps"

definition runRefresh ::
  "(string \<Rightarrow> string) \<Rightarrow> string + collected \<Rightarrow> int \<Rightarrow> mt_store \<Rightarrow> (sweep_result \<times> mt_store) option" where
  "runRefresh sha net nowMs store =
     (let store = setRefreshing True store in
      case net of
        Inl message \<Rightarrow> Some (SweepError message, markRefreshDone False (Some message) (-1) store)
      | Inr c \<Rightarrow>
         (let store = upsertEvents (co_events c) store;
              allEvents = loadEvents store;
              roots = rootIdsOf allEvents
          in case sweepRoots sha allEvents (ms_rows store) nowMs \<lparr>sw_projections = [], sw_dirtyKeys = []\<rparr> roots of
               None \<Rightarrow> None
             | Some sw \<Rightarrow>
                 Some (SweepOk (co_failed c \<noteq> [] \<and> list_all id (co_failed c)),
                   bumpSeq (markRefreshDone True None (sweptBoundary (sw_projections sw))
                     (saveProjections (sw_projections sw) roots (sw_dirtyKeys sw) store)))))"

end
