(* ===== verification/SweepFacts.thy ===== *)
theory SweepFacts
  imports Sweep ReplayFacts
begin

text \<open>
  What a sweep leaves in the store, row by row: \<open>wanted\<close> is the specification of a root's row, and
  the loop over the roots followed by the batched save implements it.
\<close>

section \<open>Specification of a row\<close>

definition sweep_key :: "(string \<Rightarrow> string) \<Rightarrow> chain_event list \<Rightarrow> string \<Rightarrow> string option" where
  "sweep_key sha es r =
     (case taskEventSet (byPathOf es) (Some r) of
        Inl _ \<Rightarrow> None | Inr ts \<Rightarrow> Some (taskDirtyKey sha ts (rosterPinsFromEvents es)))"

definition sweep_replays ::
  "(string \<Rightarrow> string) \<Rightarrow> chain_event list \<Rightarrow> (string, projection_row) jsmap \<Rightarrow> int \<Rightarrow> string \<Rightarrow> task_projection list" where
  "sweep_replays sha es persisted nowMs r =
     (case taskEventSet (byPathOf es) (Some r) of
        Inl _ \<Rightarrow> []
      | Inr ts \<Rightarrow>
          if rowFresh persisted r ts (taskDirtyKey sha ts (rosterPinsFromEvents es)) nowMs then []
          else projected (replayMetaTask sha es (sweepOptions nowMs (rosterPinsFromEvents es) r)))"

text \<open>The row of a live root: a fresh replay under the current dirty key, or the row as it was.\<close>

definition wanted_row ::
  "(string \<Rightarrow> string) \<Rightarrow> chain_event list \<Rightarrow> (string, projection_row) jsmap \<Rightarrow> int \<Rightarrow> string \<Rightarrow> projection_row option" where
  "wanted_row sha es persisted nowMs r =
     (case sweep_replays sha es persisted nowMs r of
        [] \<Rightarrow> jget persisted r
      | p # _ \<Rightarrow> Some \<lparr>pw_dirtyKey = the (sweep_key sha es r), pw_projection = p\<rparr>)"

section \<open>The loop over the roots\<close>

lemma sweepRoot_run:
  assumes "sweepRoot sha es persisted nowMs sw r = Some sw'"
  shows "sw_projections sw' = sw_projections sw @ sweep_replays sha es persisted nowMs r"
    "jget (sw_dirtyKeys sw') k =
      (if k = r \<and> sweep_key sha es k \<noteq> None then sweep_key sha es k else jget (sw_dirtyKeys sw) k)"
  using assms
  by (auto simp: sweepRoot_def sweep_replays_def sweep_key_def projected_def Let_def
      split: sum.splits option.splits if_splits)

lemma sweepRoots_run:
  "sweepRoots sha es persisted nowMs sw rs = Some sw' \<Longrightarrow>
   sw_projections sw' = sw_projections sw @ concat (map (sweep_replays sha es persisted nowMs) rs) \<and>
   (\<forall>k. jget (sw_dirtyKeys sw') k =
      (if k \<in> set rs \<and> sweep_key sha es k \<noteq> None then sweep_key sha es k else jget (sw_dirtyKeys sw) k))"
proof (induction rs arbitrary: sw)
  case (Cons r rs)
  obtain sw1 where s: "sweepRoot sha es persisted nowMs sw r = Some sw1" "sweepRoots sha es persisted nowMs sw1 rs = Some sw'"
    using Cons.prems by (auto split: option.splits)
  note a = sweepRoot_run [OF s(1)]
  note b = Cons.IH [OF s(2)]
  show ?case using a b by auto
qed simp

lemma replay_rootPinId:
  assumes "replayMetaTask sha es opts = Some (Inr p)" "ro_rootPinId opts = Some r" "r \<noteq> ''''"
  shows "tp_rootPinId p = r"
proof -
  obtain rt where rt: "rootPinOf (byPathOf es) (Some r) = Some rt"
    "compReplay sha (poolCtx opts es rt) = Some p \<or> treeReplay sha (poolCtx opts es rt) = Some p"
    using assms(1,2) by (auto simp: replay_run split: option.splits if_splits)
  have "ev_pinId rt = r" using rt(1) assms(3) by (auto simp: rootPinOf_def find_pin_def find_Some_iff)
  moreover have "rc_rootPinId (poolCtx opts es rt) = ev_pinId rt"
    by (simp add: poolCtx_def rc_sel buildEventSet_def Let_def)
  ultimately show ?thesis using rt(2)
    by (auto simp: compReplay_def treeReplay_def compProject_def treeProject_def projectionOf_def Let_def case_prod_unfold)
qed

lemma sweep_replays_root:
  "p \<in> set (sweep_replays sha es persisted nowMs r) \<Longrightarrow> r \<noteq> '''' \<Longrightarrow> tp_rootPinId p = r"
  by (auto simp: sweep_replays_def projected_def sweepOptions_def intro: replay_rootPinId
      split: sum.splits option.splits if_splits)

lemma filter_concat_key:
  assumes "distinct rs" "\<And>r p. r \<in> set rs \<Longrightarrow> p \<in> set (f r) \<Longrightarrow> g p = r"
  shows "filter (\<lambda>p. g p = k) (concat (map f rs)) = (if k \<in> set rs then f k else [])"
  using assms
proof (induction rs)
  case (Cons r rs)
  have "filter (\<lambda>p. g p = k) (f r) = (if k = r then f r else [])"
    using Cons.prems(2) [of r] by (auto simp: filter_id_conv filter_empty_conv)
  then show ?case using Cons by auto
qed simp

section \<open>The batched save\<close>

lemma save_get:
  "jget (foldl (\<lambda>m p. jset (tp_rootPinId p) (h p) m) m ps) k =
     (case rev (filter (\<lambda>p. tp_rootPinId p = k) ps) of [] \<Rightarrow> jget m k | p # _ \<Rightarrow> Some (h p))"
  by (induction ps rule: rev_induct) auto

lemma filter_keys_get: "jget (filter (\<lambda>(k, _). k \<in> A) m) k = (if k \<in> A then jget m k else None)"
  by (induction m) auto

lemma sweep_replays_short: "length (sweep_replays sha es persisted nowMs r) \<le> 1"
  by (auto simp: sweep_replays_def projected_def split: sum.splits option.splits)

lemma sweep_rows:
  assumes run: "runRefresh sha (Inr c) nowMs store = Some (res, store')"
    and es: "es = loadEvents (upsertEvents (co_events c) store)"
    and roots: "distinct (rootIdsOf es)" "'''' \<notin> set (rootIdsOf es)"
  shows "jget (ms_rows store') r =
    (if r \<in> set (rootIdsOf es) then wanted_row sha es (ms_rows store) nowMs r else None)"
proof -
  have rows: "ms_rows (upsertEvents (co_events c) (setRefreshing True store)) = ms_rows store"
    "loadEvents (upsertEvents (co_events c) (setRefreshing True store)) = es"
    by (simp_all add: upsertEvents_def setRefreshing_def loadEvents_def es)
  obtain sw where sw: "sweepRoots sha es (ms_rows store) nowMs \<lparr>sw_projections = [], sw_dirtyKeys = []\<rparr> (rootIdsOf es) = Some sw"
    "store' = bumpSeq (markRefreshDone True None (sweptBoundary (sw_projections sw))
       (saveProjections (sw_projections sw) (rootIdsOf es) (sw_dirtyKeys sw)
         (upsertEvents (co_events c) (setRefreshing True store))))"
    using run unfolding runRefresh_def Let_def sum.case rows by (auto split: option.splits)
  note ran = sweepRoots_run [OF sw(1)]
  let ?f = "sweep_replays sha es (ms_rows store) nowMs"
  have ps: "sw_projections sw = concat (map ?f (rootIdsOf es))" using ran by simp
  have flt: "filter (\<lambda>p. tp_rootPinId p = r) (sw_projections sw) = (if r \<in> set (rootIdsOf es) then ?f r else [])"
    unfolding ps by (rule filter_concat_key [OF roots(1)]) (use roots(2) sweep_replays_root in blast)
  have get: "jget (ms_rows store') r = (if r \<in> set (rootIdsOf es) then
      (case rev (if r \<in> set (rootIdsOf es) then ?f r else []) of [] \<Rightarrow> jget (ms_rows store) r
       | p # _ \<Rightarrow> Some \<lparr>pw_dirtyKey = jget_or (sw_dirtyKeys sw) (tp_rootPinId p) '''', pw_projection = p\<rparr>) else None)"
    by (simp add: sw(2) bumpSeq_def markRefreshDone_def saveProjections_def filter_keys_get save_get flt rows del: set_rev)
  show ?thesis
  proof (cases "r \<in> set (rootIdsOf es)")
    case True
    show ?thesis
    proof (cases "?f r")
      case Nil
      then show ?thesis by (simp add: get True wanted_row_def)
    next
      case (Cons p ps')
      then have "ps' = []" using sweep_replays_short [of sha es "ms_rows store" nowMs r] by simp
      have "tp_rootPinId p = r" using sweep_replays_root [of p sha es "ms_rows store" nowMs r] Cons True roots(2) by auto
      moreover have "sweep_key sha es r \<noteq> None"
        using Cons by (auto simp: sweep_replays_def sweep_key_def split: sum.splits)
      then have "jget_or (sw_dirtyKeys sw) r '''' = the (sweep_key sha es r)"
        using ran True by (auto simp: jget_or_def)
      ultimately show ?thesis using Cons \<open>ps' = []\<close> by (simp add: get True wanted_row_def)
    qed
  qed (simp add: get)
qed

end
