(* ===== verification/Coalesce.thy ===== *)
theory Coalesce
  imports Steps
begin

text \<open>
  The scheduling half of metatask/refresher.ts: requests share the sweep in flight, requests
  inside the minimum interval share one trailing sweep, the heartbeat bypasses the interval. The
  event loop is a step relation over the object's fields; a ghost counter holds the sweeps that
  are running and a ghost list the instants they started at.
\<close>

section \<open>The fields and the methods\<close>

record refresher =
  rf_inFlight :: bool \<comment> \<open>the promise field is not null\<close>
  rf_lastStartedAtMs :: "int option"
  rf_trailing :: "int option" \<comment> \<open>instant the pending timer is due\<close>
  rf_running :: nat
  rf_starts :: "int list" \<comment> \<open>latest first\<close>
  rf_clock :: int

definition refresher_init :: refresher where
  "refresher_init = \<lparr>rf_inFlight = False, rf_lastStartedAtMs = None, rf_trailing = None, rf_running = 0,
     rf_starts = [], rf_clock = 0\<rparr>"

definition start_sweep :: "int \<Rightarrow> refresher \<Rightarrow> refresher" where
  "start_sweep now st =
     st\<lparr>rf_lastStartedAtMs := Some now, rf_inFlight := True, rf_running := rf_running st + 1,
        rf_starts := now # rf_starts st\<rparr>"

definition scheduleTrailing :: "int \<Rightarrow> int \<Rightarrow> refresher \<Rightarrow> refresher" where
  "scheduleTrailing minIntervalMs now st =
     (case rf_trailing st of
        Some _ \<Rightarrow> st
      | None \<Rightarrow>
          (let waitMs = max 0 ((case rf_lastStartedAtMs st of None \<Rightarrow> now | Some t \<Rightarrow> t) + minIntervalMs - now)
           in st\<lparr>rf_trailing := Some (now + waitMs)\<rparr>))"

definition refreshOnce :: "int \<Rightarrow> bool \<Rightarrow> int \<Rightarrow> refresher \<Rightarrow> refresher" where
  "refreshOnce minIntervalMs bypassMinInterval now st =
     (if rf_inFlight st then st
      else if \<not> bypassMinInterval \<and> minIntervalMs > 0 \<and>
              (case rf_lastStartedAtMs st of None \<Rightarrow> False | Some t \<Rightarrow> now - t < minIntervalMs)
      then scheduleTrailing minIntervalMs now st
      else start_sweep now st)"

text \<open>The timer callback; the \<open>finally\<close> of a sweep; \<open>dispose\<close>.\<close>

definition trailing_fires :: "int \<Rightarrow> refresher \<Rightarrow> refresher" where
  "trailing_fires now st = start_sweep now (st\<lparr>rf_trailing := None\<rparr>)"

definition sweep_ends :: "refresher \<Rightarrow> refresher" where
  "sweep_ends st = st\<lparr>rf_inFlight := False, rf_running := rf_running st - 1\<rparr>"

definition dispose :: "refresher \<Rightarrow> refresher" where
  "dispose st = st\<lparr>rf_trailing := None\<rparr>"

section \<open>The event loop\<close>

text \<open>\<open>bypassing\<close>: heartbeat requests may happen. \<open>prompt\<close>: a due timer fires before any later request
  is served.\<close>

inductive loop_step :: "int \<Rightarrow> bool \<Rightarrow> bool \<Rightarrow> refresher \<Rightarrow> refresher \<Rightarrow> bool" for m bypassing prompt where
  request: "rf_clock st \<le> now \<Longrightarrow> (bypass \<Longrightarrow> bypassing) \<Longrightarrow>
     (\<And>due. prompt \<Longrightarrow> rf_trailing st = Some due \<Longrightarrow> now < due) \<Longrightarrow>
     loop_step m bypassing prompt st (refreshOnce m bypass now (st\<lparr>rf_clock := now\<rparr>))"
| timer: "rf_trailing st = Some due \<Longrightarrow> rf_clock st \<le> now \<Longrightarrow> due \<le> now \<Longrightarrow>
     loop_step m bypassing prompt st (trailing_fires now (st\<lparr>rf_clock := now\<rparr>))"
| ends: "0 < rf_running st \<Longrightarrow> loop_step m bypassing prompt st (sweep_ends st)"
| disposed: "loop_step m bypassing prompt st (dispose st)"

inductive_cases loop_stepE: "loop_step m b p st st'"

section \<open>Coalescing without the heartbeat\<close>

definition coalesced :: "int \<Rightarrow> refresher \<Rightarrow> bool" where
  "coalesced m st \<longleftrightarrow>
     rf_running st = (if rf_inFlight st then 1 else 0) \<and>
     (rf_trailing st \<noteq> None \<longrightarrow> \<not> rf_inFlight st) \<and>
     rf_lastStartedAtMs st = (case rf_starts st of [] \<Rightarrow> None | t # _ \<Rightarrow> Some t) \<and>
     (\<forall>due. rf_trailing st = Some due \<longrightarrow> (\<exists>t. rf_lastStartedAtMs st = Some t \<and> due = t + m)) \<and>
     sorted_wrt (\<lambda>later earlier. earlier + m \<le> later) (rf_starts st)"

lemma coalesced_init: "coalesced m refresher_init"
  by (simp add: coalesced_def refresher_init_def)

lemma spaced_Cons:
  assumes "0 \<le> m" "sorted_wrt (\<lambda>later earlier. earlier + m \<le> later) starts" "\<And>t ts. starts = t # ts \<Longrightarrow> t + m \<le> (now :: int)"
  shows "sorted_wrt (\<lambda>later earlier. earlier + m \<le> later) (now # starts)"
  using assms by (cases starts) force+

lemma coalesced_start:
  assumes "0 \<le> m" "coalesced m st" "\<not> rf_inFlight st" "rf_trailing st = None"
    "\<And>t. rf_lastStartedAtMs st = Some t \<Longrightarrow> t + m \<le> now"
  shows "coalesced m (start_sweep now st)"
proof -
  have "sorted_wrt (\<lambda>later earlier. earlier + m \<le> later) (now # rf_starts st)"
    by (rule spaced_Cons) (use assms in \<open>auto simp: coalesced_def\<close>)
  then show ?thesis using assms(2-4) by (simp add: coalesced_def start_sweep_def)
qed

lemma coalesced_clock: "coalesced m (st\<lparr>rf_clock := now\<rparr>) = coalesced m st"
  by (simp add: coalesced_def)

lemma coalesced_request:
  assumes "0 < m" "coalesced m st" "\<And>due. rf_trailing st = Some due \<Longrightarrow> now < due"
  shows "coalesced m (refreshOnce m False now st)"
proof (cases "rf_inFlight st")
  case True
  then show ?thesis using assms(2) by (simp add: refreshOnce_def)
next
  case False
  show ?thesis
  proof (cases "m > 0 \<and> (case rf_lastStartedAtMs st of None \<Rightarrow> False | Some t \<Rightarrow> now - t < m)")
    case True
    then show ?thesis using assms(2) False
      by (auto simp: refreshOnce_def scheduleTrailing_def Let_def coalesced_def split: option.splits)
  next
    case far: False
    have last: "t + m \<le> now" if "rf_lastStartedAtMs st = Some t" for t
      using far that assms(1) by simp
    have "rf_trailing st = None"
    proof (rule ccontr)
      assume "rf_trailing st \<noteq> None"
      then obtain due t where "rf_trailing st = Some due" "rf_lastStartedAtMs st = Some t" "due = t + m"
        using assms(2) unfolding coalesced_def by blast
      then show False using last assms(3) by force
    qed
    then show ?thesis using coalesced_start [OF less_imp_le [OF assms(1)] assms(2) False _ last] far False
      by (auto simp: refreshOnce_def)
  qed
qed

lemma coalesced_step:
  assumes "0 < m" "loop_step m False True st st'" "coalesced m st"
  shows "coalesced m st'"
  using assms(2)
proof cases
  case (request now bypass)
  then show ?thesis
    using coalesced_request [of m "st\<lparr>rf_clock := now\<rparr>" now] assms(1,3) by (cases bypass) (simp_all add: coalesced_clock)
next
  case (timer due now)
  have "coalesced m (start_sweep now (st\<lparr>rf_clock := now, rf_trailing := None\<rparr>))"
    by (rule coalesced_start) (use timer assms in \<open>auto simp: coalesced_def\<close>)
  then show ?thesis by (simp add: timer(1) trailing_fires_def)
next
  case ends
  then show ?thesis using assms(3) by (auto simp: coalesced_def sweep_ends_def split: if_splits)
next
  case disposed
  then show ?thesis using assms(3) by (auto simp: coalesced_def dispose_def)
qed

lemma coalesced_reachable:
  assumes "0 < m" "(loop_step m False True)\<^sup>*\<^sup>* refresher_init st" shows "coalesced m st"
  using assms(2) by (induction rule: rtranclp_induct) (auto simp: coalesced_init intro: coalesced_step [OF assms(1)])

end
