(* ===== verification/Backoff.thy ===== *)
theory Backoff
  imports Steps JsValue
begin

text \<open>
  services/pollBackoffController.ts: the retry ladder and circuit breaker of the background
  pollers. The clock and the random source are arguments of each call; times are integers of
  milliseconds, the factor, jitter and random draw exact rationals. Log lines are kept as text.
\<close>

section \<open>State and options\<close>

datatype circuit = Closed | CircuitOpen | HalfOpen

record backoff_options =
  bo_name :: "string option"
  bo_baseMs :: rat
  bo_factor :: "rat option"
  bo_maxTierMs :: "rat option"
  bo_jitterRatio :: "rat option"
  bo_openAfterFailures :: "rat option"
  bo_cooldownMs :: "rat option"

record backoff_config =
  bc_name :: string
  bc_baseMs :: int
  bc_factor :: rat
  bc_maxTierMs :: int
  bc_jitterRatio :: rat
  bc_openAfterFailures :: int
  bc_cooldownMs :: int

record backoff =
  bk_consecutiveFailures :: int
  bk_circuit :: circuit
  bk_nextAttemptAllowedAtMs :: int
  bk_openedAtMs :: "int option"
  bk_log :: "string list"

definition DEFAULT_FACTOR :: rat where "DEFAULT_FACTOR = 2"
definition DEFAULT_JITTER_RATIO :: rat where "DEFAULT_JITTER_RATIO = 1 / 5"
definition DEFAULT_OPEN_AFTER_FAILURES :: rat where "DEFAULT_OPEN_AFTER_FAILURES = 5"
definition DEFAULT_COOLDOWN_MS :: rat where "DEFAULT_COOLDOWN_MS = 600000"
definition DEFAULT_MAX_TIER_MULTIPLIER :: int where "DEFAULT_MAX_TIER_MULTIPLIER = 16"

definition given :: "'a option \<Rightarrow> 'a \<Rightarrow> 'a" where
  "given o1 d = (case o1 of None \<Rightarrow> d | Some v \<Rightarrow> v)"

definition backoffConfig :: "backoff_options \<Rightarrow> backoff_config" where
  "backoffConfig opts =
     (let name = js_trim (given (bo_name opts) ''''); base = max 1 (js_trunc (bo_baseMs opts)) in
      \<lparr>bc_name = (if name = '''' then ''unnamed-poll'' else name),
       bc_baseMs = base,
       bc_factor = max (11 / 10) (given (bo_factor opts) DEFAULT_FACTOR),
       bc_maxTierMs = max base (js_trunc (given (bo_maxTierMs opts) (of_int (base * DEFAULT_MAX_TIER_MULTIPLIER)))),
       bc_jitterRatio = min (9 / 10) (max 0 (given (bo_jitterRatio opts) DEFAULT_JITTER_RATIO)),
       bc_openAfterFailures = max 1 (js_trunc (given (bo_openAfterFailures opts) DEFAULT_OPEN_AFTER_FAILURES)),
       bc_cooldownMs = max 0 (js_trunc (given (bo_cooldownMs opts) DEFAULT_COOLDOWN_MS))\<rparr>)"

definition backoff_init :: backoff where
  "backoff_init = \<lparr>bk_consecutiveFailures = 0, bk_circuit = Closed, bk_nextAttemptAllowedAtMs = 0,
     bk_openedAtMs = None, bk_log = []\<rparr>"

section \<open>Operations\<close>

definition formatDuration :: "int \<Rightarrow> string" where
  "formatDuration ms =
     (let totalSeconds = max 1 (js_round (of_int ms / 1000)) in
      if totalSeconds < 90 then int_string totalSeconds @ ''s''
      else
        (let minutes = totalSeconds div 60 in
         if minutes < 90 then
           (let seconds = totalSeconds mod 60 in
            if seconds > 0 then int_string minutes @ ''m '' @ int_string seconds @ ''s''
            else int_string minutes @ ''m'')
         else
           (let hours = minutes div 60; remMinutes = minutes mod 60 in
            if remMinutes > 0 then int_string hours @ ''h '' @ int_string remMinutes @ ''m''
            else int_string hours @ ''h'')))"

definition emitLog :: "backoff_config \<Rightarrow> string \<Rightarrow> backoff \<Rightarrow> backoff" where
  "emitLog c line st = st\<lparr>bk_log := bk_log st @ [''[PollBackoff:'' @ bc_name c @ ''] '' @ line]\<rparr>"

definition openCircuit :: "backoff_config \<Rightarrow> int \<Rightarrow> string \<Rightarrow> backoff \<Rightarrow> backoff" where
  "openCircuit c now reason st =
     emitLog c (''circuit OPEN ('' @ reason @ '') - pausing attempts for '' @ formatDuration (bc_cooldownMs c))
       (st\<lparr>bk_circuit := CircuitOpen, bk_openedAtMs := Some now,
           bk_nextAttemptAllowedAtMs := now + bc_cooldownMs c\<rparr>)"

text \<open>The tier delay of the \<open>n\<close>-th consecutive failure; \<open>rnd\<close> is the draw of \<open>random()\<close>.\<close>

definition delayForTier :: "backoff_config \<Rightarrow> rat \<Rightarrow> int \<Rightarrow> int" where
  "delayForTier c rnd n =
     (let rawMs = min (of_int (bc_maxTierMs c)) (of_int (bc_baseMs c) * bc_factor c ^ nat n);
          jitter = 1 + (rnd * 2 - 1) * bc_jitterRatio c
      in max 1 (js_round (rawMs * jitter)))"

definition ready :: "backoff_config \<Rightarrow> int \<Rightarrow> backoff \<Rightarrow> bool \<times> backoff" where
  "ready c now st =
     (case bk_circuit st of
        CircuitOpen \<Rightarrow>
          (let openedAtMs = given (bk_openedAtMs st) now in
           if now < openedAtMs + bc_cooldownMs c then (False, st)
           else (True, emitLog c ''half-open probe after cooldown - one attempt allowed'' (st\<lparr>bk_circuit := HalfOpen\<rparr>)))
      | HalfOpen \<Rightarrow> (True, st)
      | Closed \<Rightarrow> (now \<ge> bk_nextAttemptAllowedAtMs st, st))"

definition recordFailure :: "backoff_config \<Rightarrow> int \<Rightarrow> rat \<Rightarrow> backoff \<Rightarrow> backoff" where
  "recordFailure c now rnd st =
     (let st = st\<lparr>bk_consecutiveFailures := bk_consecutiveFailures st + 1\<rparr>; n = bk_consecutiveFailures st in
      case bk_circuit st of
        HalfOpen \<Rightarrow> openCircuit c now (''probe failed (failure #'' @ int_string n @ '')'') st
      | CircuitOpen \<Rightarrow> st\<lparr>bk_openedAtMs := Some now, bk_nextAttemptAllowedAtMs := now + bc_cooldownMs c\<rparr>
      | Closed \<Rightarrow>
          if n \<ge> bc_openAfterFailures c then
            openCircuit c now (''after '' @ int_string n @ '' consecutive failures'') st
          else
            (let delayMs = delayForTier c rnd n in
             emitLog c (''backing off after failure #'' @ int_string n @ '' - next attempt in ~'' @ formatDuration delayMs)
               (st\<lparr>bk_nextAttemptAllowedAtMs := now + delayMs\<rparr>)))"

definition recordSuccess :: "backoff_config \<Rightarrow> int \<Rightarrow> backoff \<Rightarrow> backoff" where
  "recordSuccess c now st =
     (let wasDegraded = bk_consecutiveFailures st > 0 \<or> bk_circuit st \<noteq> Closed;
          st' = st\<lparr>bk_consecutiveFailures := 0, bk_circuit := Closed, bk_openedAtMs := None,
                   bk_nextAttemptAllowedAtMs := now\<rparr>
      in if wasDegraded then emitLog c ''recovered - resuming normal cadence'' st' else st')"

definition nextDelayMs :: "backoff_config \<Rightarrow> int \<Rightarrow> backoff \<Rightarrow> int" where
  "nextDelayMs c now st =
     (let waitMs = bk_nextAttemptAllowedAtMs st - now in if waitMs > 0 then waitMs else bc_baseMs c)"

section \<open>The controller as a state machine\<close>

datatype backoff_event = AskReady int | Failed int rat | Succeeded int

fun backoff_step :: "backoff_config \<Rightarrow> backoff \<Rightarrow> backoff_event \<Rightarrow> backoff" where
  "backoff_step c st (AskReady now) = snd (ready c now st)"
| "backoff_step c st (Failed now rnd) = recordFailure c now rnd st"
| "backoff_step c st (Succeeded now) = recordSuccess c now st"

definition backoff_ok :: "backoff_config \<Rightarrow> backoff \<Rightarrow> bool" where
  "backoff_ok c st \<longleftrightarrow>
     0 \<le> bk_consecutiveFailures st \<and>
     (case bk_circuit st of
        Closed \<Rightarrow> bk_openedAtMs st = None \<and> bk_consecutiveFailures st < bc_openAfterFailures c
      | _ \<Rightarrow> bk_consecutiveFailures st \<ge> bc_openAfterFailures c \<and>
          (\<exists>t. bk_openedAtMs st = Some t \<and> bk_nextAttemptAllowedAtMs st = t + bc_cooldownMs c))"

lemma emitLog_sel [simp]:
  "bk_consecutiveFailures (emitLog c l st) = bk_consecutiveFailures st"
  "bk_circuit (emitLog c l st) = bk_circuit st"
  "bk_nextAttemptAllowedAtMs (emitLog c l st) = bk_nextAttemptAllowedAtMs st"
  "bk_openedAtMs (emitLog c l st) = bk_openedAtMs st"
  "length (bk_log (emitLog c l st)) = Suc (length (bk_log st))"
  by (simp_all add: emitLog_def)

lemma backoff_ok_init: "1 \<le> bc_openAfterFailures c \<Longrightarrow> backoff_ok c backoff_init"
  by (simp add: backoff_ok_def backoff_init_def)

lemma backoff_ok_step: "1 \<le> bc_openAfterFailures c \<Longrightarrow> backoff_ok c st \<Longrightarrow> backoff_ok c (backoff_step c st e)"
  by (cases e; cases "bk_circuit st")
     (auto simp: backoff_ok_def ready_def recordFailure_def recordSuccess_def openCircuit_def Let_def given_def)

interpretation controller: stepwise "backoff_step (backoffConfig opts)" "\<lambda>_. True" "backoff_ok (backoffConfig opts)" for opts
  by unfold_locales (simp add: backoff_ok_step backoffConfig_def Let_def)

lemma backoff_reachable_ok: "backoff_ok (backoffConfig opts) (foldl (backoff_step (backoffConfig opts)) backoff_init es)"
  by (rule controller.run_inv) (simp_all add: backoff_ok_init backoffConfig_def Let_def)

section \<open>Bounds of the ladder\<close>

lemma floor_mono_half: "q \<le> r \<Longrightarrow> js_round q \<le> js_round r"
  by (simp add: js_round_def floor_mono)

lemma delay_bounds:
  assumes "c = backoffConfig opts" "0 \<le> rnd" "rnd \<le> 1"
  shows "1 \<le> delayForTier c rnd n" "delayForTier c rnd n \<le> js_round (of_int (bc_maxTierMs c) * (1 + bc_jitterRatio c))"
proof -
  define raw where "raw = min (of_int (bc_maxTierMs c)) (of_int (bc_baseMs c) * bc_factor c ^ nat n)"
  define jitter where "jitter = 1 + (rnd * 2 - 1) * bc_jitterRatio c"
  have c: "1 \<le> bc_baseMs c" "bc_baseMs c \<le> bc_maxTierMs c" "0 < bc_factor c" "0 \<le> bc_jitterRatio c" "bc_jitterRatio c \<le> 9 / 10"
    by (simp_all add: assms(1) backoffConfig_def Let_def)
  have raw: "0 \<le> raw" "raw \<le> of_int (bc_maxTierMs c)" using c by (simp_all add: raw_def)
  have "(rnd * 2 - 1) * bc_jitterRatio c \<le> 1 * bc_jitterRatio c"
    using assms(3) c(4) by (intro mult_right_mono) auto
  moreover have "- 1 * bc_jitterRatio c \<le> (rnd * 2 - 1) * bc_jitterRatio c"
    using assms(2) c(4) by (intro mult_right_mono) auto
  ultimately have j: "0 \<le> jitter" "jitter \<le> 1 + bc_jitterRatio c" using c(5) by (simp_all add: jitter_def)
  have "raw * jitter \<le> of_int (bc_maxTierMs c) * (1 + bc_jitterRatio c)"
    using raw j c by (intro mult_mono) auto
  moreover have "1 \<le> of_int (bc_maxTierMs c) * (1 + bc_jitterRatio c)"
  proof -
    have "1 * 1 \<le> of_int (bc_maxTierMs c) * (1 + bc_jitterRatio c)" using c by (intro mult_mono) auto
    then show ?thesis by simp
  qed
  ultimately show "delayForTier c rnd n \<le> js_round (of_int (bc_maxTierMs c) * (1 + bc_jitterRatio c))"
    using floor_mono_half [of 1] floor_mono_half [of "raw * jitter"]
    by (simp add: delayForTier_def Let_def raw_def jitter_def js_round_def)
  show "1 \<le> delayForTier c rnd n" by (simp add: delayForTier_def Let_def)
qed

end
