(* ===== verification/RefreshProps.thy ===== *)
theory RefreshProps
  imports SweepFacts Coalesce Backoff Examples
begin

text \<open>
  Properties of the read path around the replay: the sweep and its store, the deadline check, the
  coalescing of requests and the retry ladder, with the concrete runs that show where the code
  departs from its comments.
\<close>

section \<open>Concrete sweeps\<close>

text \<open>A stand-in for SHA-256: the length of the text.\<close>

definition length_hash :: "string \<Rightarrow> string" where
  "length_hash s = nat_string (int (length s))"

definition first_sweep :: "(sweep_result \<times> mt_store) option" where
  "first_sweep = runRefresh length_hash (Inr \<lparr>co_events = tree_pool, co_failed = [False]\<rparr>) 191600000 store_init"

definition swept_store :: mt_store where
  "swept_store = snd (the first_sweep)"

definition second_sweep :: "(sweep_result \<times> mt_store) option" where
  "second_sweep = runRefresh length_hash (Inr \<lparr>co_events = tree_pool, co_failed = [False]\<rparr>) 191700000 swept_store"

text \<open>A task with a claim TTL of one hour and a review window of ten, whose claim was answered by a
  submission in time.\<close>

definition window_task_ev :: chain_event where
  "window_task_ev = ev ''T'' ''task'' ''pub'' 191500
     [(''treeid'', JStr ''R''),
      (''policy'', JObj [(''claim_ttl_hours'', JNum 1), (''verify_window_hours'', JNum 10)])]"

definition window_pool :: "chain_event list" where
  "window_pool = [window_task_ev, tree_ev [node_json ''n1'' JNull 10000 []],
     claim_ev ''C1'' ''ann'' ''n1'' 191502, sub_ev ''S1'' ''ann'' ''n1'' ''C1'' 191503 []]"

definition window_at :: "int \<Rightarrow> (replay_error + task_projection) option" where
  "window_at now = replayMetaTask id window_pool (sweepOptions now [] ''T'')"

definition window_set :: task_event_set where
  "window_set = buildEventSet (byPathOf window_pool) window_task_ev"

definition two_hours_later :: int where "two_hours_later = 191503000 + 7200000"
definition eleven_hours_later :: int where "eleven_hours_later = 191503000 + 39600000"

section \<open>The sweep\<close>

text \<open>C32. After a sweep that returns, every task root of the cache has exactly the row its
  specification asks for: the replay of the cached events under the current dirty key when the
  row was dirty, absent or had a clock due, else the row it had; rows of other roots are gone.\<close>

lemma sweep_meets_row_spec:
  assumes "runRefresh sha (Inr c) nowMs store = Some (res, store')"
    "es = loadEvents (upsertEvents (co_events c) store)"
    "distinct (rootIdsOf es)" "'''' \<notin> set (rootIdsOf es)"
  shows "jget (ms_rows store') r =
    (if r \<in> set (rootIdsOf es) then wanted_row sha es (ms_rows store) nowMs r else None)"
  using assms by (rule sweep_rows)

lemma sweep_meets_row_spec_witness:
  "jget (ms_rows swept_store) ''T'' = wanted_row length_hash tree_pool [] 191600000 ''T''"
proof -
  have run: "runRefresh length_hash (Inr \<lparr>co_events = tree_pool, co_failed = [False]\<rparr>) 191600000 store_init =
      Some (fst (the first_sweep), swept_store)"
  proof -
    have "first_sweep \<noteq> None" by code_simp
    then show ?thesis by (auto simp: swept_store_def first_sweep_def)
  qed
  have es: "loadEvents (upsertEvents (co_events \<lparr>co_events = tree_pool, co_failed = [False]\<rparr>) store_init) = tree_pool"
    by code_simp
  have "distinct (rootIdsOf tree_pool)" "'''' \<notin> set (rootIdsOf tree_pool)" "''T'' \<in> set (rootIdsOf tree_pool)"
    by code_simp+
  then show ?thesis
    using sweep_meets_row_spec [OF run es [symmetric]] by (simp add: store_init_def)
qed

text \<open>A sweep that finds every root clean records boundary block -1, although the store holds a
  projection with a boundary: the recorded boundary is the maximum over the projections replayed
  in this sweep only.\<close>

lemma clean_sweep_forgets_boundary:
  "rs_boundaryBlock (ms_refresh swept_store) = 191505 \<and>
   map_option (\<lambda>(r, s). (r, rs_boundaryBlock (ms_refresh s), map fst (ms_rows s))) second_sweep =
     Some (SweepOk False, -1, [''T''])"
  by code_simp

text \<open>C33. Bodies survive degraded sweeps: once the cache holds a non-empty body for a pin, no later
  sweep empties it; and the cache never holds a pin id twice.\<close>

lemma cached_body_survives:
  assumes "events_ok (ms_events s)" "jget (ms_events s) k = Some old" "ev_body old \<noteq> []"
  shows "events_ok (ms_events (upsertEvents es s)) \<and>
    (\<exists>e'. jget (ms_events (upsertEvents es s)) k = Some e' \<and> ev_body e' \<noteq> [])"
  using events_ok_foldl [OF assms(1)] known_body_foldl [OF assms(2,3)] by (simp add: upsertEvents_def)

lemma cached_body_survives_witness:
  "\<exists>e'. jget (ms_events (upsertEvents [(claim_ev ''C1'' ''ann'' ''n1'' 191502)\<lparr>ev_body := []\<rparr>]
      (upsertEvents tree_pool store_init))) ''C1'' = Some e' \<and> ev_body e' \<noteq> []"
proof -
  have ok: "events_ok (ms_events (upsertEvents tree_pool store_init))"
    unfolding upsertEvents_def by (simp add: store_init_def events_ok_foldl [of "[]", unfolded events_ok_def [of "[]"], simplified])
  have g: "jget (ms_events (upsertEvents tree_pool store_init)) ''C1'' =
      Some (the (jget (ms_events (upsertEvents tree_pool store_init)) ''C1''))"
    by (rule option.collapse [symmetric]) code_simp
  have b: "ev_body (the (jget (ms_events (upsertEvents tree_pool store_init)) ''C1'')) \<noteq> []" by code_simp
  show ?thesis using cached_body_survives [OF ok g b] by blast
qed

section \<open>Deadlines\<close>

text \<open>The deadline check misses a review window: on a held node whose submission came in time,
  the claim clock, which no longer applies, lies before the last replay and is the least
  candidate; the row is kept although a replay now would reopen the node.\<close>

lemma spent_claim_clock_masks_review_window:
  "map (\<lambda>p. (np_status (node_at p ''n1''), deadlinePending p window_set eleven_hours_later))
      (projected (window_at two_hours_later)) = [(StClaimed, False)] \<and>
   map (\<lambda>p. np_status (node_at p ''n1'')) (projected (window_at eleven_hours_later)) = [StOpen]"
  by code_simp

section \<open>Coalescing\<close>


lemma loop_one: "loop_step m b p s s' \<Longrightarrow> (loop_step m b p)\<^sup>*\<^sup>* refresher_init s \<Longrightarrow> (loop_step m b p)\<^sup>*\<^sup>* refresher_init s'"
  by (rule rtranclp.rtrancl_into_rtrancl)

text \<open>One sweep, a request inside the interval, and the trailing sweep when its timer is due.\<close>

definition after_request :: "bool \<Rightarrow> int \<Rightarrow> refresher \<Rightarrow> refresher" where
  "after_request bypass now st = refreshOnce 60000 bypass now (st\<lparr>rf_clock := now\<rparr>)"

definition waiting :: refresher where
  "waiting = after_request False 10000 (sweep_ends (after_request False 0 refresher_init))"

lemma waiting_reached: "(loop_step 60000 b True)\<^sup>*\<^sup>* refresher_init waiting"
proof -
  have "loop_step 60000 b True refresher_init (after_request False 0 refresher_init)"
    unfolding after_request_def by (rule loop_step.request) (auto simp: refresher_init_def)
  moreover have "loop_step 60000 b True (after_request False 0 refresher_init) (sweep_ends (after_request False 0 refresher_init))"
    by (rule loop_step.ends) code_simp
  moreover have "loop_step 60000 b True (sweep_ends (after_request False 0 refresher_init)) waiting"
    unfolding waiting_def after_request_def
    by (rule loop_step.request)
       (auto simp: sweep_ends_def refreshOnce_def start_sweep_def refresher_init_def)
  ultimately show ?thesis by (meson converse_rtranclp_into_rtranclp rtranclp.rtrancl_refl)
qed



text \<open>The heartbeat breaks it: a bypassing sweep in flight when the trailing timer fires gives
  two sweeps at once, because the timer starts a sweep without looking at the one in flight.\<close>

lemma heartbeat_overlaps_trailing_sweep:
  "\<exists>st. (loop_step 60000 True True)\<^sup>*\<^sup>* refresher_init st \<and> rf_running st = 2 \<and> rf_starts st = [60000, 58000, 0]"
proof -
  let ?beat = "after_request True 58000 waiting"
  have "loop_step 60000 True True waiting ?beat"
    unfolding after_request_def
    by (rule loop_step.request) (code_simp, simp, auto simp: waiting_def after_request_def refresher_init_def
        sweep_ends_def refreshOnce_def start_sweep_def scheduleTrailing_def)
  then have "(loop_step 60000 True True)\<^sup>*\<^sup>* refresher_init ?beat" using waiting_reached by (rule loop_one)
  moreover have "loop_step 60000 True True ?beat (trailing_fires 60000 (?beat\<lparr>rf_clock := 60000\<rparr>))"
    by (rule loop_step.timer [where due = 60000]) code_simp+
  ultimately have "(loop_step 60000 True True)\<^sup>*\<^sup>* refresher_init (trailing_fires 60000 (?beat\<lparr>rf_clock := 60000\<rparr>))"
    using loop_one by blast
  moreover have "rf_running (trailing_fires 60000 (?beat\<lparr>rf_clock := 60000\<rparr>)) = 2 \<and>
      rf_starts (trailing_fires 60000 (?beat\<lparr>rf_clock := 60000\<rparr>)) = [60000, 58000, 0]" by code_simp
  ultimately show ?thesis by blast
qed

section \<open>Retry ladder\<close>

text \<open>C35. After a failure the controller keeps the loop waiting, and not for ever: attempts are
  refused exactly until an instant between now and the larger of the cooldown and the jittered
  tier cap; the circuit is open exactly from the configured number of consecutive failures on.\<close>

lemma failure_gates_attempts:
  fixes opts es t rnd
  defines "c \<equiv> backoffConfig opts"
  defines "st \<equiv> recordFailure c t rnd (foldl (backoff_step c) backoff_init es)"
  assumes "0 \<le> rnd" "rnd \<le> 1"
  shows "(\<forall>now. fst (ready c now st) \<longleftrightarrow> bk_nextAttemptAllowedAtMs st \<le> now) \<and>
    t \<le> bk_nextAttemptAllowedAtMs st \<and>
    bk_nextAttemptAllowedAtMs st \<le> t + max (bc_cooldownMs c) (js_round (of_int (bc_maxTierMs c) * (1 + bc_jitterRatio c))) \<and>
    (bk_circuit st = CircuitOpen \<longleftrightarrow> bk_consecutiveFailures st \<ge> bc_openAfterFailures c)"
proof -
  have ok: "backoff_ok c (foldl (backoff_step c) backoff_init es)" unfolding c_def by (rule backoff_reachable_ok)
  have cd: "0 \<le> bc_cooldownMs c" by (simp add: c_def backoffConfig_def Let_def)
  have d: "1 \<le> delayForTier c rnd n" "delayForTier c rnd n \<le> js_round (of_int (bc_maxTierMs c) * (1 + bc_jitterRatio c))" for n
    using delay_bounds [of c opts rnd n] assms(3,4) by (simp_all add: c_def)
  show ?thesis
    using ok cd d
    by (cases "bk_circuit (foldl (backoff_step c) backoff_init es)")
       (auto simp: st_def recordFailure_def openCircuit_def ready_def Let_def given_def backoff_ok_def
          le_max_iff_disj intro: order_trans [of 0 1])
qed

definition plain_backoff :: backoff_options where
  "plain_backoff = \<lparr>bo_name = None, bo_baseMs = 1000, bo_factor = None, bo_maxTierMs = None,
     bo_jitterRatio = None, bo_openAfterFailures = None, bo_cooldownMs = None\<rparr>"

lemma failure_gates_attempts_witness:
  "bk_nextAttemptAllowedAtMs (recordFailure (backoffConfig plain_backoff) 5000 (1/2) backoff_init) = 7000 \<and>
   (\<forall>now. fst (ready (backoffConfig plain_backoff) now (recordFailure (backoffConfig plain_backoff) 5000 (1/2) backoff_init)) \<longleftrightarrow>
      7000 \<le> now)"
proof -
  have n: "bk_nextAttemptAllowedAtMs (recordFailure (backoffConfig plain_backoff) 5000 (1/2) backoff_init) = 7000"
    by code_simp
  show ?thesis using failure_gates_attempts [where opts = plain_backoff and es = "[]" and t = 5000 and rnd = "1/2"] n
    by simp
qed

text \<open>What is worth a line: a change of the circuit, a failure of a closed circuit, a recovery.\<close>

definition notable :: "backoff_config \<Rightarrow> backoff \<Rightarrow> backoff_event \<Rightarrow> bool" where
  "notable c st e \<longleftrightarrow>
     bk_circuit (backoff_step c st e) \<noteq> bk_circuit st \<or>
     (bk_circuit st = Closed \<and> (case e of Failed _ _ \<Rightarrow> True | Succeeded _ \<Rightarrow> bk_consecutiveFailures st > 0 | AskReady _ \<Rightarrow> False))"

text \<open>One log line per transition: every call logs at most one line, and it logs one exactly when
  the circuit changes, a closed circuit backs off, or a degraded ladder recovers.\<close>

lemma one_log_line_per_transition:
  "length (bk_log (backoff_step c st e)) = length (bk_log st) + (if notable c st e then 1 else 0)"
  by (cases e; cases "bk_circuit st")
     (auto simp: notable_def ready_def recordFailure_def recordSuccess_def openCircuit_def Let_def)

definition five_failures :: backoff where
  "five_failures = foldl (backoff_step (backoffConfig plain_backoff)) backoff_init
     (map (\<lambda>k. Failed (k * 100000) (1/2)) [1, 2, 3, 4, 5])"

text \<open>The half-open circuit does not limit attempts to one: after five failures and the cooldown,
  the first question is granted as the probe, and so is every further one until an outcome is
  recorded.\<close>

lemma half_open_admits_every_caller:
  "(bk_circuit five_failures, bk_openedAtMs five_failures) = (CircuitOpen, Some 500000) \<and>
   fst (ready (backoffConfig plain_backoff) 1099999 five_failures) = False \<and>
   (case ready (backoffConfig plain_backoff) 1100000 five_failures of (granted, probing) \<Rightarrow>
      granted \<and> bk_circuit probing = HalfOpen \<and> fst (ready (backoffConfig plain_backoff) t probing))"
proof -
  have run: "(case ready (backoffConfig plain_backoff) 1100000 five_failures of (granted, probing) \<Rightarrow>
      granted \<and> bk_circuit probing = HalfOpen)" by code_simp
  have "(bk_circuit five_failures, bk_openedAtMs five_failures) = (CircuitOpen, Some 500000) \<and>
      fst (ready (backoffConfig plain_backoff) 1099999 five_failures) = False" by code_simp
  moreover have "fst (ready c t q)" if "bk_circuit q = HalfOpen" for c q using that by (simp add: ready_def)
  ultimately show ?thesis using run by (auto split: prod.splits)
qed

end
