(* ===== verification/PrefSchemas.thy ===== *)
theory PrefSchemas
  imports MtTypes
begin

text \<open>
  The preference protocol's bodies and their parsers: preference/types.ts, preference/constants.ts
  and preference/schemas.ts. A parser returns the reason of the first check that fails (\<open>Inl\<close>) or
  the value; regular expressions are recognisers on character lists. \<open>undefined\<close> is an absent key.
\<close>

section \<open>Constants and recognisers\<close>

definition FINALITY_GRACE_SEC :: int where "FINALITY_GRACE_SEC = 7200"
definition MIN_WINDOW_SEC :: int where "MIN_WINDOW_SEC = 3600"
definition MAX_CANDIDATES :: nat where "MAX_CANDIDATES = 8"
definition MAX_JUDGES :: nat where "MAX_JUDGES = 32"
definition MAX_PAIRS :: nat where "MAX_PAIRS = 28"

definition PREFERENCE_TALLY_ENGINE :: string where
  "PREFERENCE_TALLY_ENGINE = ''idbots-preference-tally/1.0.0''"

definition lower :: "char \<Rightarrow> bool" where
  "lower c \<longleftrightarrow> 97 \<le> (of_char c :: int) \<and> (of_char c :: int) \<le> 122"

definition hex_char :: "char \<Rightarrow> bool" where
  "hex_char c \<longleftrightarrow> is_digit_char c \<or> (97 \<le> (of_char c :: int) \<and> (of_char c :: int) \<le> 102)"

lemma lower_bits [code]:
  "lower (Char b0 b1 b2 b3 b4 b5 b6 b7) \<longleftrightarrow>
     \<not> b7 \<and> b6 \<and> b5 \<and> (b4 \<or> b3 \<or> b2 \<or> b1 \<or> b0) \<and> \<not> (b4 \<and> b3 \<and> (b2 \<or> (b1 \<and> b0)))"
  by (cases b0; cases b1; cases b2; cases b3; cases b4; cases b5; cases b6; cases b7) (simp_all add: lower_def of_char_Char)

lemma hex_char_bits [code]:
  "hex_char (Char b0 b1 b2 b3 b4 b5 b6 b7) \<longleftrightarrow>
     is_digit_char (Char b0 b1 b2 b3 b4 b5 b6 b7) \<or>
     (\<not> b7 \<and> b6 \<and> b5 \<and> \<not> b4 \<and> \<not> b3 \<and> (b2 \<or> b1 \<or> b0) \<and> \<not> (b2 \<and> b1 \<and> b0))"
  by (cases b0; cases b1; cases b2; cases b3; cases b4; cases b5; cases b6; cases b7) (simp_all add: hex_char_def of_char_Char)

definition alnum :: "char \<Rightarrow> bool" where
  "alnum c \<longleftrightarrow> is_digit_char c \<or> lower c"

definition tag_char :: "char \<Rightarrow> bool" where
  "tag_char c \<longleftrightarrow> alnum c \<or> c = CHR ''-''"

definition HEX64_RE :: "string \<Rightarrow> bool" where
  "HEX64_RE s \<longleftrightarrow> length s = 64 \<and> list_all hex_char s"

definition PIN_ID_RE :: "string \<Rightarrow> bool" where
  "PIN_ID_RE s \<longleftrightarrow>
     HEX64_RE (take 64 s) \<and>
     (case drop 64 s of [] \<Rightarrow> False | c # ds \<Rightarrow> c = CHR ''i'' \<and> ds \<noteq> [] \<and> list_all is_digit_char ds)"

definition GLOBAL_META_ID_RE :: "string \<Rightarrow> bool" where
  "GLOBAL_META_ID_RE s \<longleftrightarrow>
     take 4 s = ''idq1'' \<and> 20 \<le> length (drop 4 s) \<and> length (drop 4 s) \<le> 80 \<and> list_all alnum (drop 4 s)"

definition CANDIDATE_ID_RE :: "string \<Rightarrow> bool" where
  "CANDIDATE_ID_RE s \<longleftrightarrow> 1 \<le> length s \<and> length s \<le> 8 \<and> list_all alnum s"

definition DIMENSION_ID_RE :: "string \<Rightarrow> bool" where
  "DIMENSION_ID_RE s \<longleftrightarrow>
     (case s of [] \<Rightarrow> False
      | c # cs \<Rightarrow> lower c \<and> length cs \<le> 23 \<and> list_all (\<lambda>x. alnum x \<or> x = CHR ''_'') cs)"

definition CATEGORY_TAG_RE :: "string \<Rightarrow> bool" where
  "CATEGORY_TAG_RE s \<longleftrightarrow>
     takeWhile tag_char s \<noteq> [] \<and>
     (case dropWhile tag_char s of
        [] \<Rightarrow> True
      | c # rest \<Rightarrow> c = CHR '':'' \<and> rest \<noteq> [] \<and> list_all tag_char rest)"

definition after_prefix :: "string \<Rightarrow> string \<Rightarrow> bool" where
  "after_prefix p s \<longleftrightarrow>
     take (length p) s = p \<and> drop (length p) s \<noteq> [] \<and> list_all (\<lambda>c. \<not> js_space c) (drop (length p) s)"

definition ARTIFACT_RE :: "string \<Rightarrow> bool" where
  "ARTIFACT_RE s \<longleftrightarrow> after_prefix ''metaapp://'' s \<or> after_prefix ''pin://'' s \<or> after_prefix ''metafile://'' s"

section \<open>Bodies\<close>

datatype judge_kind = Human | Ai
datatype judge_class = Deciding | Shadow | Public
datatype pair_pick = PickA | PickB | PickTie

record round_candidate =
  cd_id :: string
  cd_ref :: string
  cd_artifact :: string
  cd_author :: string

record round_judge =
  jd_id :: string
  jd_kind :: judge_kind

record round_dimension =
  dm_id :: string
  dm_label :: string

record round_body =
  rd_title :: string
  rd_brief :: "string option"
  rd_category :: "string list"
  rd_subject :: "(string \<times> string) option" \<comment> \<open>taskid and node\<close>
  rd_candidates :: "round_candidate list"
  rd_judges :: "round_judge list"
  rd_kinds :: "judge_kind list"
  rd_minBallots :: int
  rd_dimensions :: "round_dimension list"
  rd_tasks :: "string list"
  rd_commitCloseAt :: int
  rd_revealCloseAt :: int

record ballot_pair =
  bp_a :: string
  bp_b :: string
  bp_pick :: pair_pick
  bp_reason :: string
  bp_dims :: "(string, pair_pick) jsmap option"

record pref_ballot =
  bl_pairs :: "ballot_pair list"
  bl_note :: "string option"

record commit_body =
  cb_round :: string
  cb_hash :: string

record reveal_envelope =
  rv_round :: string
  rv_commit :: string
  rv_salt :: string
  rv_ballot :: body

record lesson_principle =
  lp_text :: string
  lp_conditions :: string
  lp_uncertainty :: string
  lp_evidence :: "string list"

record lesson_body =
  le_round :: string
  le_category :: "string list"
  le_summary :: string
  le_principles :: "lesson_principle list"
  le_preferred :: string
  le_rejected :: "string list"
  le_tallyHash :: string

type_synonym 'a parsed = "string + 'a"

section \<open>Field checks\<close>

definition isText :: "json option \<Rightarrow> nat \<Rightarrow> nat \<Rightarrow> string option" where
  "isText v lo hi =
     (case v of
        Some (JStr s) \<Rightarrow> if length (js_trim s) \<ge> lo \<and> length s \<le> hi then Some s else None
      | _ \<Rightarrow> None)"

definition isInt :: "json option \<Rightarrow> int option" where
  "isInt v = (case v of Some (JNum q) \<Rightarrow> if is_integer q then Some \<lfloor>q\<rfloor> else None | _ \<Rightarrow> None)"

definition re_match :: "json option \<Rightarrow> (string \<Rightarrow> bool) \<Rightarrow> string option" where
  "re_match v re = (case v of Some (JStr s) \<Rightarrow> if re s then Some s else None | _ \<Rightarrow> None)"

definition isJudgeKind :: "json option \<Rightarrow> judge_kind option" where
  "isJudgeKind v =
     (if v = Some (JStr ''human'') then Some Human else if v = Some (JStr ''ai'') then Some Ai else None)"

definition isPairPick :: "json option \<Rightarrow> pair_pick option" where
  "isPairPick v =
     (if v = Some (JStr ''a'') then Some PickA else if v = Some (JStr ''b'') then Some PickB
      else if v = Some (JStr ''tie'') then Some PickTie else None)"

definition record_of :: "json option \<Rightarrow> body option" where
  "record_of v = (case v of Some (JObj kv) \<Rightarrow> Some kv | _ \<Rightarrow> None)"

definition array_of :: "json option \<Rightarrow> json list option" where
  "array_of v = (case v of Some (JArr xs) \<Rightarrow> Some xs | _ \<Rightarrow> None)"

text \<open>A loop that stops at the first item that is refused; \<open>item\<close> sees what was accepted so far.\<close>

fun parse_items :: "('a list \<Rightarrow> json \<Rightarrow> 'a parsed) \<Rightarrow> 'a list \<Rightarrow> json list \<Rightarrow> 'a list parsed" where
  "parse_items item acc [] = Inr acc"
| "parse_items item acc (x # xs) =
     (case item acc x of Inl reason \<Rightarrow> Inl reason | Inr v \<Rightarrow> parse_items item (acc @ [v]) xs)"

section \<open>Rounds\<close>

definition category_item :: "string list \<Rightarrow> json \<Rightarrow> string parsed" where
  "category_item tags tag =
     (case re_match (Some tag) CATEGORY_TAG_RE of
        None \<Rightarrow> Inl ''category''
      | Some t \<Rightarrow> if length t > 64 \<or> t \<in> set tags then Inl ''category'' else Inr t)"

definition parseCategory :: "json option \<Rightarrow> string list option" where
  "parseCategory v =
     (case array_of v of
        None \<Rightarrow> None
      | Some xs \<Rightarrow>
          if length xs < 1 \<or> length xs > 8 then None
          else (case parse_items category_item [] xs of Inl _ \<Rightarrow> None | Inr tags \<Rightarrow> Some tags))"

definition parseSubject :: "json option \<Rightarrow> (string \<times> string) option parsed" where
  "parseSubject v =
     (case v of
        None \<Rightarrow> Inr None
      | Some _ \<Rightarrow>
         (case record_of v of
            None \<Rightarrow> Inl ''round:subject''
          | Some kv \<Rightarrow>
             (case (re_match (jget kv ''taskid'') PIN_ID_RE, isText (jget kv ''node'') 1 64) of
                (Some taskid, Some node) \<Rightarrow> Inr (Some (taskid, node))
              | _ \<Rightarrow> Inl ''round:subject'')))"

definition candidate_item :: "round_candidate list \<Rightarrow> json \<Rightarrow> round_candidate parsed" where
  "candidate_item candidates v =
     (case record_of (Some v) of
        None \<Rightarrow> Inl ''round:candidate-shape''
      | Some kv \<Rightarrow>
         (case (re_match (jget kv ''id'') CANDIDATE_ID_RE, re_match (jget kv ''ref'') PIN_ID_RE,
                re_match (jget kv ''artifact'') ARTIFACT_RE, re_match (jget kv ''author'') GLOBAL_META_ID_RE) of
            (Some cid, Some ref, Some artifact, Some author) \<Rightarrow>
              if list_ex (\<lambda>c. cd_id c = cid \<or> cd_ref c = ref) candidates then Inl ''round:candidate-duplicate''
              else Inr \<lparr>cd_id = cid, cd_ref = ref, cd_artifact = artifact, cd_author = author\<rparr>
          | _ \<Rightarrow> Inl ''round:candidate-shape''))"

definition judge_item :: "round_judge list \<Rightarrow> json \<Rightarrow> round_judge parsed" where
  "judge_item judges v =
     (case record_of (Some v) of
        None \<Rightarrow> Inl ''round:judge-shape''
      | Some kv \<Rightarrow>
         (case (re_match (jget kv ''id'') GLOBAL_META_ID_RE, isJudgeKind (jget kv ''kind'')) of
            (Some jid, Some kind) \<Rightarrow>
              if list_ex (\<lambda>j. jd_id j = jid) judges then Inl ''round:judge-duplicate''
              else Inr \<lparr>jd_id = jid, jd_kind = kind\<rparr>
          | _ \<Rightarrow> Inl ''round:judge-shape''))"

definition kind_item :: "judge_kind list \<Rightarrow> json \<Rightarrow> judge_kind parsed" where
  "kind_item kinds v =
     (case isJudgeKind (Some v) of
        None \<Rightarrow> Inl ''round:decision''
      | Some k \<Rightarrow> if k \<in> set kinds then Inl ''round:decision'' else Inr k)"

definition parseDecision :: "json option \<Rightarrow> (judge_kind list \<times> int) parsed" where
  "parseDecision v =
     (case record_of v of
        None \<Rightarrow> Inl ''round:decision''
      | Some kv \<Rightarrow>
         (case array_of (jget kv ''kinds'') of
            None \<Rightarrow> Inl ''round:decision''
          | Some ks \<Rightarrow>
              if length ks < 1 then Inl ''round:decision''
              else (case parse_items kind_item [] ks of
                      Inl reason \<Rightarrow> Inl reason
                    | Inr kinds \<Rightarrow>
                       (case isInt (jget kv ''minBallots'') of
                          None \<Rightarrow> Inl ''round:decision''
                        | Some n \<Rightarrow> if n < 1 \<or> n > int MAX_JUDGES then Inl ''round:decision'' else Inr (kinds, n)))))"

definition dimension_item :: "round_dimension list \<Rightarrow> json \<Rightarrow> round_dimension parsed" where
  "dimension_item dimensions v =
     (case record_of (Some v) of
        None \<Rightarrow> Inl ''round:dimensions''
      | Some kv \<Rightarrow>
         (case (re_match (jget kv ''id'') DIMENSION_ID_RE, isText (jget kv ''label'') 1 48) of
            (Some did, Some label) \<Rightarrow>
              if list_ex (\<lambda>d. dm_id d = did) dimensions then Inl ''round:dimensions''
              else Inr \<lparr>dm_id = did, dm_label = label\<rparr>
          | _ \<Rightarrow> Inl ''round:dimensions''))"

definition task_item :: "string list \<Rightarrow> json \<Rightarrow> string parsed" where
  "task_item tasks v = (case isText (Some v) 1 300 of None \<Rightarrow> Inl ''round:tasks'' | Some t \<Rightarrow> Inr t)"

text \<open>An optional array of at most \<open>hi\<close> items.\<close>

definition parseList :: "string \<Rightarrow> nat \<Rightarrow> ('a list \<Rightarrow> json \<Rightarrow> 'a parsed) \<Rightarrow> json option \<Rightarrow> 'a list parsed" where
  "parseList reason hi item v =
     (case v of
        None \<Rightarrow> Inr []
      | Some _ \<Rightarrow>
         (case array_of v of
            None \<Rightarrow> Inl reason
          | Some xs \<Rightarrow> if length xs > hi then Inl reason else parse_items item [] xs))"

text \<open>A mandatory array of \<open>lo\<close> to \<open>hi\<close> items.\<close>

definition parseArray :: "string \<Rightarrow> nat \<Rightarrow> nat \<Rightarrow> ('a list \<Rightarrow> json \<Rightarrow> 'a parsed) \<Rightarrow> json option \<Rightarrow> 'a list parsed" where
  "parseArray reason lo hi item v =
     (case array_of v of
        None \<Rightarrow> Inl reason
      | Some xs \<Rightarrow> if length xs < lo \<or> length xs > hi then Inl reason else parse_items item [] xs)"

definition parseWindows :: "body \<Rightarrow> int \<Rightarrow> (int \<times> int) parsed" where
  "parseWindows kv roundTimestampSec =
     (case (isInt (jget kv ''commitCloseAt''), isInt (jget kv ''revealCloseAt'')) of
        (Some commitCloseAt, Some revealCloseAt) \<Rightarrow>
          if commitCloseAt < roundTimestampSec + MIN_WINDOW_SEC \<or> revealCloseAt < commitCloseAt + MIN_WINDOW_SEC
          then Inl ''round:windows'' else Inr (commitCloseAt, revealCloseAt)
      | _ \<Rightarrow> Inl ''round:windows'')"

definition parsed_bind :: "'a parsed \<Rightarrow> ('a \<Rightarrow> 'b parsed) \<Rightarrow> 'b parsed" where
  "parsed_bind r f = (case r of Inl reason \<Rightarrow> Inl reason | Inr v \<Rightarrow> f v)"

definition require :: "string \<Rightarrow> 'a option \<Rightarrow> 'a parsed" where
  "require reason v = (case v of None \<Rightarrow> Inl reason | Some x \<Rightarrow> Inr x)"

definition optionalText :: "string \<Rightarrow> nat \<Rightarrow> json option \<Rightarrow> string option parsed" where
  "optionalText reason hi v =
     (case v of None \<Rightarrow> Inr None
      | Some _ \<Rightarrow> (case isText v 0 hi of None \<Rightarrow> Inl reason | Some s \<Rightarrow> Inr (Some s)))"

definition parseRound :: "json \<Rightarrow> int \<Rightarrow> round_body parsed" where
  "parseRound v roundTimestampSec =
     parsed_bind (require ''round:not-object'' (record_of (Some v))) (\<lambda>kv.
     parsed_bind (require ''round:title'' (isText (jget kv ''title'') 1 200)) (\<lambda>title.
     parsed_bind (optionalText ''round:brief'' 4000 (jget kv ''brief'')) (\<lambda>brief.
     parsed_bind (require ''round:category'' (parseCategory (jget kv ''category''))) (\<lambda>category.
     parsed_bind (parseSubject (jget kv ''subject'')) (\<lambda>subject.
     parsed_bind (parseArray ''round:candidates'' 2 MAX_CANDIDATES candidate_item (jget kv ''candidates'')) (\<lambda>candidates.
     parsed_bind (parseArray ''round:judges'' 1 MAX_JUDGES judge_item (jget kv ''judges'')) (\<lambda>judges.
     parsed_bind (parseDecision (jget kv ''decision'')) (\<lambda>(kinds, minBallots).
     parsed_bind (parseList ''round:dimensions'' 6 dimension_item (jget kv ''dimensions'')) (\<lambda>dimensions.
     parsed_bind (parseList ''round:tasks'' 5 task_item (jget kv ''tasks'')) (\<lambda>tasks.
     parsed_bind (parseWindows kv roundTimestampSec) (\<lambda>(commitCloseAt, revealCloseAt).
       Inr \<lparr>rd_title = title, rd_brief = brief, rd_category = category, rd_subject = subject,
            rd_candidates = candidates, rd_judges = judges, rd_kinds = kinds, rd_minBallots = minBallots,
            rd_dimensions = dimensions, rd_tasks = tasks, rd_commitCloseAt = commitCloseAt,
            rd_revealCloseAt = revealCloseAt\<rparr>)))))))))))"

section \<open>Commits and reveals\<close>

definition parseCommit :: "json \<Rightarrow> commit_body parsed" where
  "parseCommit v =
     parsed_bind (require ''commit:not-object'' (record_of (Some v))) (\<lambda>kv.
     parsed_bind (require ''commit:shape'' (re_match (jget kv ''round'') PIN_ID_RE)) (\<lambda>rnd.
     parsed_bind (require ''commit:shape'' (re_match (jget kv ''hash'') HEX64_RE)) (\<lambda>hash.
       Inr \<lparr>cb_round = rnd, cb_hash = hash\<rparr>)))"

definition parseRevealEnvelope :: "json \<Rightarrow> reveal_envelope parsed" where
  "parseRevealEnvelope v =
     parsed_bind (require ''reveal:not-object'' (record_of (Some v))) (\<lambda>kv.
     parsed_bind (require ''reveal:shape'' (re_match (jget kv ''round'') PIN_ID_RE)) (\<lambda>rnd.
     parsed_bind (require ''reveal:shape'' (re_match (jget kv ''commit'') PIN_ID_RE)) (\<lambda>commit.
     parsed_bind (require ''reveal:shape'' (re_match (jget kv ''salt'') HEX64_RE)) (\<lambda>salt.
     parsed_bind (require ''reveal:shape'' (record_of (jget kv ''ballot''))) (\<lambda>ballot.
       Inr \<lparr>rv_round = rnd, rv_commit = commit, rv_salt = salt, rv_ballot = ballot\<rparr>)))))"

section \<open>Ballots\<close>

definition pair_key :: "string \<Rightarrow> string \<Rightarrow> string" where
  "pair_key a b = (if a < b then a @ ''|'' @ b else b @ ''|'' @ a)"

fun parse_dims :: "string list \<Rightarrow> (string, pair_pick) jsmap \<Rightarrow> (string \<times> json) list \<Rightarrow> (string, pair_pick) jsmap parsed" where
  "parse_dims dimensionIds dims [] = Inr dims"
| "parse_dims dimensionIds dims ((did, v) # rest) =
     (case isPairPick (Some v) of
        None \<Rightarrow> Inl ''ballot:dims''
      | Some pick \<Rightarrow>
          if did \<notin> set dimensionIds then Inl ''ballot:dims''
          else parse_dims dimensionIds (jset did pick dims) rest)"

definition parseDims :: "string list \<Rightarrow> json option \<Rightarrow> (string, pair_pick) jsmap option parsed" where
  "parseDims dimensionIds v =
     (case v of
        None \<Rightarrow> Inr None
      | Some _ \<Rightarrow>
         parsed_bind (require ''ballot:dims'' (record_of v)) (\<lambda>kv.
         parsed_bind (parse_dims dimensionIds [] (own_order kv)) (\<lambda>dims. Inr (Some dims))))"

definition pairCandidates :: "string list \<Rightarrow> body \<Rightarrow> (string \<times> string) option" where
  "pairCandidates candidateIds kv =
     (case (jget kv ''a'', jget kv ''b'') of
        (Some (JStr a), Some (JStr b)) \<Rightarrow>
          if a = b \<or> a \<notin> set candidateIds \<or> b \<notin> set candidateIds then None else Some (a, b)
      | _ \<Rightarrow> None)"

text \<open>The pairs seen so far are the accepted ones, so the code's set of keys is read off them.\<close>

definition pair_item :: "string list \<Rightarrow> string list \<Rightarrow> ballot_pair list \<Rightarrow> json \<Rightarrow> ballot_pair parsed" where
  "pair_item candidateIds dimensionIds pairs v =
     parsed_bind (require ''ballot:pair-shape'' (record_of (Some v))) (\<lambda>kv.
     parsed_bind (require ''ballot:pair-candidates'' (pairCandidates candidateIds kv)) (\<lambda>(a, b).
       if pair_key a b \<in> set (map (\<lambda>p. pair_key (bp_a p) (bp_b p)) pairs) then Inl ''ballot:pair-duplicate''
       else
     parsed_bind (require ''ballot:pick'' (isPairPick (jget kv ''pick''))) (\<lambda>pick.
     parsed_bind (require ''ballot:reason'' (isText (jget kv ''reason'') 1 1000)) (\<lambda>reason.
     parsed_bind (parseDims dimensionIds (jget kv ''dims'')) (\<lambda>dims.
       Inr \<lparr>bp_a = a, bp_b = b, bp_pick = pick, bp_reason = reason, bp_dims = dims\<rparr>)))))"

definition checkBallot :: "json \<Rightarrow> round_body \<Rightarrow> pref_ballot parsed" where
  "checkBallot v rnd =
     parsed_bind (require ''ballot:not-object'' (record_of (Some v))) (\<lambda>kv.
     parsed_bind (require ''ballot:pairs'' (array_of (jget kv ''pairs''))) (\<lambda>raws.
       if length raws < 1 \<or> length raws > MAX_PAIRS then Inl ''ballot:pairs''
       else
     parsed_bind (optionalText ''ballot:note'' 2000 (jget kv ''note'')) (\<lambda>note.
     parsed_bind (parse_items (pair_item (map cd_id (rd_candidates rnd)) (map dm_id (rd_dimensions rnd))) [] raws) (\<lambda>pairs.
       Inr \<lparr>bl_pairs = pairs, bl_note = note\<rparr>))))"

section \<open>Lessons\<close>

definition evidence_item :: "string list \<Rightarrow> json \<Rightarrow> string parsed" where
  "evidence_item cited v =
     (case re_match (Some v) PIN_ID_RE of
        None \<Rightarrow> Inl ''lesson:evidence''
      | Some p \<Rightarrow> if p \<in> set cited then Inl ''lesson:evidence'' else Inr p)"

definition principle_item :: "lesson_principle list \<Rightarrow> json \<Rightarrow> lesson_principle parsed" where
  "principle_item principles v =
     parsed_bind (require ''lesson:principle-shape'' (record_of (Some v))) (\<lambda>kv.
     parsed_bind (require ''lesson:principle-shape'' (isText (jget kv ''text'') 10 400)) (\<lambda>txt.
     parsed_bind (require ''lesson:principle-shape'' (isText (jget kv ''conditions'') 1 300)) (\<lambda>conditions.
     parsed_bind (require ''lesson:principle-shape'' (isText (jget kv ''uncertainty'') 0 300)) (\<lambda>uncertainty.
     parsed_bind (parseArray ''lesson:evidence'' 1 20 evidence_item (jget kv ''evidence'')) (\<lambda>evidence.
       Inr \<lparr>lp_text = txt, lp_conditions = conditions, lp_uncertainty = uncertainty, lp_evidence = evidence\<rparr>)))))"

definition rejected_item :: "string \<Rightarrow> string list \<Rightarrow> json \<Rightarrow> string parsed" where
  "rejected_item preferred rejected v =
     (case re_match (Some v) CANDIDATE_ID_RE of
        None \<Rightarrow> Inl ''lesson:exemplars''
      | Some i \<Rightarrow> if i = preferred \<or> i \<in> set rejected then Inl ''lesson:exemplars'' else Inr i)"

definition parseExemplars :: "json option \<Rightarrow> (string \<times> string list) parsed" where
  "parseExemplars v =
     parsed_bind (require ''lesson:exemplars'' (record_of v)) (\<lambda>kv.
     parsed_bind (require ''lesson:exemplars'' (re_match (jget kv ''preferred'') CANDIDATE_ID_RE)) (\<lambda>preferred.
     parsed_bind (parseArray ''lesson:exemplars'' 0 (MAX_CANDIDATES - 1) (rejected_item preferred) (jget kv ''rejected'')) (\<lambda>rejected.
       Inr (preferred, rejected))))"

definition parseLesson :: "json \<Rightarrow> lesson_body parsed" where
  "parseLesson v =
     parsed_bind (require ''lesson:not-object'' (record_of (Some v))) (\<lambda>kv.
     parsed_bind (require ''lesson:round'' (re_match (jget kv ''round'') PIN_ID_RE)) (\<lambda>rnd.
     parsed_bind (require ''lesson:category'' (parseCategory (jget kv ''category''))) (\<lambda>category.
     parsed_bind (require ''lesson:summary'' (isText (jget kv ''summary'') 1 1200)) (\<lambda>summary.
     parsed_bind (parseArray ''lesson:principles'' 1 12 principle_item (jget kv ''principles'')) (\<lambda>principles.
     parsed_bind (parseExemplars (jget kv ''exemplars'')) (\<lambda>(preferred, rejected).
     parsed_bind (require ''lesson:tallyHash'' (re_match (jget kv ''tallyHash'') HEX64_RE)) (\<lambda>tallyHash.
       Inr \<lparr>le_round = rnd, le_category = category, le_summary = summary, le_principles = principles,
            le_preferred = preferred, le_rejected = rejected, le_tallyHash = tallyHash\<rparr>)))))))"

end
