(* ===== verification/PrefEngine.thy ===== *)
theory PrefEngine
  imports PrefSchemas EventSet
begin

text \<open>
  The preference tally of preference/engine.ts with the sealing hash of preference/sealing.ts: a
  round is settled from the pool of events alone. \<open>sha\<close> is \<open>sha256Hex\<close>. Events are the chain events
  of the MetaTask model, whose fields are the same; the point matrices, objects keyed by candidate
  ids, are association lists of association lists.
\<close>

section \<open>Order, time and sealing\<close>

definition pref_key :: "chain_event \<Rightarrow> order_key" where
  "pref_key e = (ev_height e, ev_txIndex e, ev_timestampMs e, ev_pinId e)"

definition compareOrderKey :: "chain_event \<Rightarrow> chain_event \<Rightarrow> int" where
  "compareOrderKey a b =
     (let d1 = ev_height a - ev_height b; d2 = ev_txIndex a - ev_txIndex b; d3 = ev_timestampMs a - ev_timestampMs b
      in if d1 \<noteq> 0 then d1 else if d2 \<noteq> 0 then d2 else if d3 \<noteq> 0 then d3
         else if ev_pinId a < ev_pinId b then -1 else if ev_pinId a > ev_pinId b then 1 else 0)"

definition toSec :: "int \<Rightarrow> int" where
  "toSec ms = ms div 1000"

definition isConfirmed :: "chain_event \<Rightarrow> bool" where
  "isConfirmed e \<longleftrightarrow> ev_height e \<ge> 0"

definition ballotCommitHash :: "(string \<Rightarrow> string) \<Rightarrow> string \<Rightarrow> string \<Rightarrow> string \<Rightarrow> json \<Rightarrow> string" where
  "ballotCommitHash sha rnd judge salt ballot =
     sha (canonJ (JObj [(''round'', JStr rnd), (''judge'', JStr judge), (''salt'', JStr salt), (''ballot'', ballot)]))"

definition resolveRound :: "chain_event list \<Rightarrow> string \<Rightarrow> string + chain_event \<times> round_body" where
  "resolveRound events roundPinId =
     (case find (\<lambda>c. ev_path c = ''round'' \<and> ev_pinId c = roundPinId) events of
        None \<Rightarrow> Inl ''round:not-found''
      | Some event \<Rightarrow>
          if \<not> isConfirmed event then Inl ''round:unconfirmed''
          else parsed_bind (parseRound (JObj (ev_body event)) (toSec (ev_timestampMs event))) (\<lambda>rnd. Inr (event, rnd)))"

datatype tally_status = Collecting | Revealing | Settling | Decided | NoDecision

definition statusAt :: "round_body \<Rightarrow> int \<Rightarrow> nat \<Rightarrow> tally_status" where
  "statusAt rnd nowSec decidingBallots =
     (if nowSec \<le> rd_commitCloseAt rnd then Collecting
      else if nowSec \<le> rd_revealCloseAt rnd then Revealing
      else if nowSec \<le> rd_revealCloseAt rnd + FINALITY_GRACE_SEC then Settling
      else if int decidingBallots \<ge> rd_minBallots rnd then Decided else NoDecision)"

section \<open>Commits and reveals\<close>

definition relatedEvents :: "chain_event list \<Rightarrow> string \<Rightarrow> chain_event list" where
  "relatedEvents events roundPinId =
     sort_key pref_key (filter (\<lambda>e. (ev_path e = ''commit'' \<or> ev_path e = ''reveal'') \<and>
       jget (ev_body e) ''round'' = Some (JStr roundPinId)) events)"

type_synonym commits = "(string, string \<times> string) jsmap" \<comment> \<open>author to pin and hash\<close>

text \<open>Why a commit is skipped, in the order of the checks.\<close>

definition commitRefusal :: "chain_event \<Rightarrow> round_body \<Rightarrow> chain_event \<Rightarrow> string option" where
  "commitRefusal roundEvent rnd event =
     (if \<not> isConfirmed event then Some ''commit:unconfirmed''
      else (case parseCommit (JObj (ev_body event)) of
        Inl reason \<Rightarrow> Some reason
      | Inr _ \<Rightarrow>
          if compareOrderKey event roundEvent \<le> 0 then Some ''commit:before-round''
          else if toSec (ev_timestampMs event) > rd_commitCloseAt rnd then Some ''commit:after-close''
          else if ev_author event = '''' then Some ''commit:no-author''
          else None))"

definition commit_hash_of :: "chain_event \<Rightarrow> string" where
  "commit_hash_of event = (case parseCommit (JObj (ev_body event)) of Inl _ \<Rightarrow> '''' | Inr c \<Rightarrow> cb_hash c)"

definition commit_step ::
  "chain_event \<Rightarrow> round_body \<Rightarrow> ignored \<times> commits \<Rightarrow> chain_event \<Rightarrow> ignored \<times> commits" where
  "commit_step roundEvent rnd st event =
     (case st of (ign, cs) \<Rightarrow>
        if ev_path event \<noteq> ''commit'' then st
        else (case commitRefusal roundEvent rnd event of
          Some reason \<Rightarrow> (ign @ [(ev_pinId event, reason)], cs)
        | None \<Rightarrow>
            ((case jget cs (ev_author event) of
                None \<Rightarrow> ign | Some (pin, _) \<Rightarrow> ign @ [(pin, ''commit:superseded'')]),
             jset (ev_author event) (ev_pinId event, commit_hash_of event) cs)))"

definition effectiveCommits :: "chain_event \<Rightarrow> round_body \<Rightarrow> chain_event list \<Rightarrow> ignored \<times> commits" where
  "effectiveCommits roundEvent rnd related = foldl (commit_step roundEvent rnd) ([], []) related"

record counted_ballot =
  ct_author :: string
  ct_commitPinId :: string
  ct_revealPinId :: string
  ct_class :: judge_class
  ct_kind :: "judge_kind option" \<comment> \<open>\<open>None\<close>: public\<close>
  ct_pairs :: "ballot_pair list"

record reveal_state =
  rl_ignored :: ignored
  rl_ballots :: "counted_ballot list"
  rl_revealed :: "string list"

definition judgeKindOf :: "round_body \<Rightarrow> string \<Rightarrow> judge_kind option" where
  "judgeKindOf rnd author =
     jget (foldl (\<lambda>m j. jset (jd_id j) (jd_kind j) m) [] (rd_judges rnd)) author"

definition candidateAuthor :: "round_body \<Rightarrow> string \<Rightarrow> string option" where
  "candidateAuthor rnd cid =
     jget (foldl (\<lambda>m c. jset (cd_id c) (cd_author c) m) [] (rd_candidates rnd)) cid"

definition classOf :: "round_body \<Rightarrow> string \<Rightarrow> judge_class" where
  "classOf rnd author =
     (case judgeKindOf rnd author of
        None \<Rightarrow> Public
      | Some kind \<Rightarrow> if kind \<in> set (rd_kinds rnd) then Deciding else Shadow)"

text \<open>A judge's pairs without those that involve a candidate of their own.\<close>

definition foreignPairs :: "round_body \<Rightarrow> string \<Rightarrow> ballot_pair list \<Rightarrow> ballot_pair list" where
  "foreignPairs rnd author pairs =
     filter (\<lambda>p. candidateAuthor rnd (bp_a p) \<noteq> Some author \<and> candidateAuthor rnd (bp_b p) \<noteq> Some author) pairs"

text \<open>The checks on a reveal, with the commit it opens and the ballot it carries when they pass.\<close>

definition checkReveal ::
  "(string \<Rightarrow> string) \<Rightarrow> string \<Rightarrow> round_body \<Rightarrow> commits \<Rightarrow> string list \<Rightarrow> chain_event \<Rightarrow> (string \<times> pref_ballot) parsed" where
  "checkReveal sha roundPinId rnd cs revealed event =
     (if \<not> isConfirmed event then Inl ''reveal:unconfirmed''
      else
        (case parseRevealEnvelope (JObj (ev_body event)) of
           Inl reason \<Rightarrow> Inl reason
         | Inr env \<Rightarrow>
            (let sec = toSec (ev_timestampMs event) in
             if sec \<le> rd_commitCloseAt rnd then Inl ''reveal:before-commit-close''
             else if sec > rd_revealCloseAt rnd then Inl ''reveal:after-close''
             else (case jget cs (ev_author event) of
               None \<Rightarrow> Inl ''reveal:not-effective-commit''
             | Some (commitPin, commitHash) \<Rightarrow>
                 if commitPin \<noteq> rv_commit env then Inl ''reveal:not-effective-commit''
                 else if ev_author event \<in> set revealed then Inl ''reveal:duplicate''
                 else if ballotCommitHash sha roundPinId (ev_author event) (rv_salt env) (JObj (rv_ballot env)) \<noteq> commitHash
                   then Inl ''reveal:hash-mismatch''
                 else (case checkBallot (JObj (rv_ballot env)) rnd of
                         Inl reason \<Rightarrow> Inl reason
                       | Inr ballot \<Rightarrow> Inr (commitPin, ballot))))))"

definition reveal_step ::
  "(string \<Rightarrow> string) \<Rightarrow> string \<Rightarrow> round_body \<Rightarrow> commits \<Rightarrow> reveal_state \<Rightarrow> chain_event \<Rightarrow> reveal_state" where
  "reveal_step sha roundPinId rnd cs st event =
     (if ev_path event \<noteq> ''reveal'' then st
      else (case checkReveal sha roundPinId rnd cs (rl_revealed st) event of
        Inl reason \<Rightarrow> st\<lparr>rl_ignored := rl_ignored st @ [(ev_pinId event, reason)]\<rparr>
      | Inr (commitPin, ballot) \<Rightarrow>
          st\<lparr>rl_revealed := set_add (ev_author event) (rl_revealed st),
             rl_ballots := rl_ballots st @
               [\<lparr>ct_author = ev_author event, ct_commitPinId = commitPin, ct_revealPinId = ev_pinId event,
                 ct_class = classOf rnd (ev_author event), ct_kind = judgeKindOf rnd (ev_author event),
                 ct_pairs = foreignPairs rnd (ev_author event) (bl_pairs ballot)\<rparr>]\<rparr>))"

definition countBallots ::
  "(string \<Rightarrow> string) \<Rightarrow> string \<Rightarrow> round_body \<Rightarrow> commits \<Rightarrow> ignored \<Rightarrow> chain_event list \<Rightarrow> reveal_state" where
  "countBallots sha roundPinId rnd cs ign related =
     foldl (reveal_step sha roundPinId rnd cs) \<lparr>rl_ignored = ign, rl_ballots = [], rl_revealed = []\<rparr> related"

section \<open>Point matrices\<close>

type_synonym points = "(string, int) jsmap"
type_synonym point_matrix = "(string, points) jsmap"

definition cell :: "point_matrix \<Rightarrow> string \<Rightarrow> string \<Rightarrow> int" where
  "cell m x y = jget_or (jget_or m x []) y 0"

definition zeroMatrix :: "string list \<Rightarrow> point_matrix" where
  "zeroMatrix ids = map (\<lambda>i. (i, map (\<lambda>j. (j, 0)) (filter (\<lambda>j. j \<noteq> i) ids))) ids"

text \<open>\<open>matrix[x][y] += n\<close>.\<close>

definition add_cell :: "string \<Rightarrow> string \<Rightarrow> int \<Rightarrow> point_matrix \<Rightarrow> point_matrix" where
  "add_cell x y n m = jset x (jset y (cell m x y + n) (jget_or m x [])) m"

definition addPick :: "point_matrix \<Rightarrow> string \<Rightarrow> string \<Rightarrow> pair_pick \<Rightarrow> point_matrix" where
  "addPick m a b pick =
     (case pick of
        PickA \<Rightarrow> add_cell a b 2 m
      | PickB \<Rightarrow> add_cell b a 2 m
      | PickTie \<Rightarrow> add_cell b a 1 (add_cell a b 1 m))"

definition addPairs :: "point_matrix \<Rightarrow> ballot_pair list \<Rightarrow> point_matrix" where
  "addPairs m ps = foldl (\<lambda>m p. addPick m (bp_a p) (bp_b p) (bp_pick p)) m ps"

definition subtractMatrix :: "point_matrix \<Rightarrow> point_matrix option \<Rightarrow> point_matrix" where
  "subtractMatrix tot part =
     (case part of
        None \<Rightarrow> tot
      | Some q \<Rightarrow> map (\<lambda>(i, row). (i, map (\<lambda>(j, n). (j, n - cell q i j)) row)) tot)"

definition strictWinner :: "point_matrix \<Rightarrow> string \<Rightarrow> string \<Rightarrow> string option" where
  "strictWinner m x y = (if cell m x y > cell m y x then Some x else if cell m x y < cell m y x then Some y else None)"

definition pickedId :: "ballot_pair \<Rightarrow> string option" where
  "pickedId p = (case bp_pick p of PickA \<Rightarrow> Some (bp_a p) | PickB \<Rightarrow> Some (bp_b p) | PickTie \<Rightarrow> None)"

section \<open>The tally\<close>

record ranking_entry =
  rk_id :: string
  rk_ref :: string
  rk_copeland :: int
  rk_points :: int
  rk_wins :: int
  rk_losses :: int
  rk_ties :: int

record judge_entry =
  je_id :: string
  je_kind :: "judge_kind option"
  je_class :: judge_class
  je_commit :: string
  je_reveal :: string
  je_pairs :: nat
  je_agreeN :: int
  je_agreeHits :: int
  je_agreementBP :: int

record tally_output =
  to_engine :: string
  to_round :: string
  to_status :: tally_status
  to_winner :: "string option"
  to_ranking :: "ranking_entry list"
  to_deciding :: nat
  to_shadow :: nat
  to_public :: nat
  to_judges :: "judge_entry list"
  to_dimensions :: "(string, points) jsmap"
  to_evidence :: "string list"

record tally_result =
  tr_output :: tally_output
  tr_tallyHash :: "string option"
  tr_ignored :: ignored
  tr_evaluatedAt :: int

definition decidingBallots :: "counted_ballot list \<Rightarrow> counted_ballot list" where
  "decidingBallots ballots = filter (\<lambda>ct. ct_class ct = Deciding) ballots"

definition decidingMatrix :: "string list \<Rightarrow> counted_ballot list \<Rightarrow> point_matrix" where
  "decidingMatrix ids ballots = foldl (\<lambda>m ct. addPairs m (ct_pairs ct)) (zeroMatrix ids) (decidingBallots ballots)"

definition ownContribution :: "string list \<Rightarrow> counted_ballot list \<Rightarrow> (string, point_matrix) jsmap" where
  "ownContribution ids ballots =
     foldl (\<lambda>m ct. jset (ct_author ct) (addPairs (zeroMatrix ids) (ct_pairs ct)) m) [] (decidingBallots ballots)"

definition countClass :: "counted_ballot list \<Rightarrow> judge_class \<Rightarrow> nat" where
  "countClass ballots c = length (filter (\<lambda>ct. ct_class ct = c \<and> ct_pairs ct \<noteq> []) ballots)"

definition count_if :: "('a \<Rightarrow> bool) \<Rightarrow> 'a list \<Rightarrow> int" where
  "count_if P xs = foldl (\<lambda>n x. if P x then n + 1 else n) 0 xs"

definition rankingEntry :: "string list \<Rightarrow> point_matrix \<Rightarrow> round_candidate \<Rightarrow> ranking_entry" where
  "rankingEntry ids m c =
     (let others = filter (\<lambda>o1. o1 \<noteq> cd_id c) ids;
          wins = count_if (\<lambda>o1. cell m (cd_id c) o1 > cell m o1 (cd_id c)) others;
          losses = count_if (\<lambda>o1. cell m (cd_id c) o1 < cell m o1 (cd_id c)) others;
          ties = count_if (\<lambda>o1. cell m (cd_id c) o1 = cell m o1 (cd_id c)) others
      in \<lparr>rk_id = cd_id c, rk_ref = cd_ref c, rk_copeland = 2 * wins + ties,
          rk_points = foldl (\<lambda>n o1. n + cell m (cd_id c) o1) 0 others,
          rk_wins = wins, rk_losses = losses, rk_ties = ties\<rparr>)"

definition rankingOf :: "round_body \<Rightarrow> point_matrix \<Rightarrow> ranking_entry list" where
  "rankingOf rnd m =
     sort_key (\<lambda>e. (- rk_copeland e, - rk_points e, rk_ref e))
       (map (rankingEntry (map cd_id (rd_candidates rnd)) m) (rd_candidates rnd))"

definition judgeEntry :: "point_matrix \<Rightarrow> (string, point_matrix) jsmap \<Rightarrow> counted_ballot \<Rightarrow> judge_entry" where
  "judgeEntry deciding own ct =
     (let ref = (if ct_class ct = Deciding then subtractMatrix deciding (jget own (ct_author ct)) else deciding);
          judged = filter (\<lambda>p. strictWinner ref (bp_a p) (bp_b p) \<noteq> None) (ct_pairs ct);
          agreeN = int (length judged);
          agreeHits = count_if (\<lambda>p. pickedId p = strictWinner ref (bp_a p) (bp_b p)) judged
      in \<lparr>je_id = ct_author ct, je_kind = ct_kind ct, je_class = ct_class ct, je_commit = ct_commitPinId ct,
          je_reveal = ct_revealPinId ct, je_pairs = length (ct_pairs ct), je_agreeN = agreeN,
          je_agreeHits = agreeHits, je_agreementBP = (10000 * (agreeHits + 1)) div (agreeN + 2)\<rparr>)"

definition add_point :: "string \<Rightarrow> int \<Rightarrow> points \<Rightarrow> points" where
  "add_point i n ps = jset i (jget_or ps i 0 + n) ps"

definition dimensionStep :: "string \<Rightarrow> points \<Rightarrow> ballot_pair \<Rightarrow> points" where
  "dimensionStep did ps p =
     (case (case bp_dims p of None \<Rightarrow> None | Some dims \<Rightarrow> jget dims did) of
        None \<Rightarrow> ps
      | Some PickA \<Rightarrow> add_point (bp_a p) 2 ps
      | Some PickB \<Rightarrow> add_point (bp_b p) 2 ps
      | Some PickTie \<Rightarrow> add_point (bp_b p) 1 (add_point (bp_a p) 1 ps))"

definition dimensionsOf :: "round_body \<Rightarrow> counted_ballot list \<Rightarrow> (string, points) jsmap" where
  "dimensionsOf rnd ballots =
     foldl (\<lambda>out d. jset (dm_id d)
        (foldl (\<lambda>ps ct. foldl (dimensionStep (dm_id d)) ps (ct_pairs ct))
           (map (\<lambda>c. (cd_id c, 0)) (rd_candidates rnd)) (decidingBallots ballots)) out)
       [] (rd_dimensions rnd)"

definition evidenceOf :: "counted_ballot list \<Rightarrow> string list" where
  "evidenceOf ballots = sort (map ct_revealPinId (filter (\<lambda>ct. ct_class ct \<noteq> Public \<and> ct_pairs ct \<noteq> []) ballots))"

definition tallyOutputOf :: "string \<Rightarrow> round_body \<Rightarrow> counted_ballot list \<Rightarrow> int \<Rightarrow> tally_output" where
  "tallyOutputOf roundPinId rnd ballots nowSec =
     (let ids = map cd_id (rd_candidates rnd);
          deciding = decidingMatrix ids ballots;
          ranking = rankingOf rnd deciding;
          status = statusAt rnd nowSec (countClass ballots Deciding)
      in \<lparr>to_engine = PREFERENCE_TALLY_ENGINE, to_round = roundPinId, to_status = status,
          to_winner = (if status = Decided then Some (rk_id (hd ranking)) else None),
          to_ranking = ranking,
          to_deciding = countClass ballots Deciding, to_shadow = countClass ballots Shadow,
          to_public = countClass ballots Public,
          to_judges = sort_key je_id (map (judgeEntry deciding (ownContribution ids ballots)) ballots),
          to_dimensions = dimensionsOf rnd ballots,
          to_evidence = evidenceOf ballots\<rparr>)"

section \<open>The hashed output\<close>

definition int_json :: "int \<Rightarrow> json" where "int_json n = JNum (of_int n)"

definition kind_json :: "judge_kind option \<Rightarrow> json" where
  "kind_json k = JStr (case k of None \<Rightarrow> ''public'' | Some Human \<Rightarrow> ''human'' | Some Ai \<Rightarrow> ''ai'')"

definition class_json :: "judge_class \<Rightarrow> json" where
  "class_json c = JStr (case c of Deciding \<Rightarrow> ''deciding'' | Shadow \<Rightarrow> ''shadow'' | Public \<Rightarrow> ''public'')"

definition status_json :: "tally_status \<Rightarrow> json" where
  "status_json s = JStr (case s of Collecting \<Rightarrow> ''collecting'' | Revealing \<Rightarrow> ''revealing'' | Settling \<Rightarrow> ''settling''
     | Decided \<Rightarrow> ''decided'' | NoDecision \<Rightarrow> ''no_decision'')"

definition ranking_json :: "ranking_entry \<Rightarrow> json" where
  "ranking_json e = JObj [(''id'', JStr (rk_id e)), (''ref'', JStr (rk_ref e)), (''copeland'', int_json (rk_copeland e)),
     (''points'', int_json (rk_points e)), (''wins'', int_json (rk_wins e)), (''losses'', int_json (rk_losses e)),
     (''ties'', int_json (rk_ties e))]"

definition judge_json :: "judge_entry \<Rightarrow> json" where
  "judge_json j = JObj [(''id'', JStr (je_id j)), (''kind'', kind_json (je_kind j)), (''class'', class_json (je_class j)),
     (''commit'', JStr (je_commit j)), (''reveal'', JStr (je_reveal j)), (''pairs'', int_json (int (je_pairs j))),
     (''agreeN'', int_json (je_agreeN j)), (''agreeHits'', int_json (je_agreeHits j)),
     (''agreementBP'', int_json (je_agreementBP j))]"

definition output_json :: "tally_output \<Rightarrow> json" where
  "output_json t = JObj
     [(''engine'', JStr (to_engine t)), (''round'', JStr (to_round t)), (''status'', status_json (to_status t)),
      (''winner'', case to_winner t of None \<Rightarrow> JNull | Some w \<Rightarrow> JStr w),
      (''ranking'', JArr (map ranking_json (to_ranking t))),
      (''ballots'', JObj [(''deciding'', int_json (int (to_deciding t))), (''shadow'', int_json (int (to_shadow t))),
         (''public'', int_json (int (to_public t)))]),
      (''judges'', JArr (map judge_json (to_judges t))),
      (''dimensions'', JObj (map (\<lambda>(d, ps). (d, JObj (map (\<lambda>(i, n). (i, int_json n)) ps))) (to_dimensions t))),
      (''evidence'', JArr (map JStr (to_evidence t)))]"

definition is_final :: "tally_status \<Rightarrow> bool" where
  "is_final s \<longleftrightarrow> s = Decided \<or> s = NoDecision"

definition tallyResultOf :: "(string \<Rightarrow> string) \<Rightarrow> int \<Rightarrow> ignored \<Rightarrow> tally_output \<Rightarrow> tally_result" where
  "tallyResultOf sha nowSec ign out =
     \<lparr>tr_output = out,
      tr_tallyHash = (if is_final (to_status out) then Some (sha (canonJ (output_json out))) else None),
      tr_ignored = ign, tr_evaluatedAt = nowSec\<rparr>"

text \<open>The part of \<open>tallyRound\<close> after the reveal loop, and after the related events are sorted.\<close>

definition tallyCounted ::
  "(string \<Rightarrow> string) \<Rightarrow> string \<Rightarrow> round_body \<Rightarrow> int \<Rightarrow> reveal_state \<Rightarrow> tally_result" where
  "tallyCounted sha roundPinId rnd nowSec counted =
     tallyResultOf sha nowSec (rl_ignored counted) (tallyOutputOf roundPinId rnd (rl_ballots counted) nowSec)"

definition tallyRelated ::
  "(string \<Rightarrow> string) \<Rightarrow> string \<Rightarrow> chain_event \<Rightarrow> round_body \<Rightarrow> int \<Rightarrow> chain_event list \<Rightarrow> tally_result" where
  "tallyRelated sha roundPinId roundEvent rnd nowSec related =
     (case effectiveCommits roundEvent rnd related of
        (ign, cs) \<Rightarrow> tallyCounted sha roundPinId rnd nowSec (countBallots sha roundPinId rnd cs ign related))"

definition tallyRound :: "(string \<Rightarrow> string) \<Rightarrow> chain_event list \<Rightarrow> string \<Rightarrow> int \<Rightarrow> string + tally_result" where
  "tallyRound sha events roundPinId nowSec =
     (case resolveRound events roundPinId of
        Inl reason \<Rightarrow> Inl reason
      | Inr (roundEvent, rnd) \<Rightarrow>
          Inr (tallyRelated sha roundPinId roundEvent rnd nowSec (relatedEvents events roundPinId)))"

end
