(* ===== verification/PrefLesson.thy ===== *)
theory PrefLesson
  imports PrefEngine
begin

text \<open>
  preference/lesson.ts: what a published lesson may claim about a tally, and which round is the
  canonical one for a subject.
\<close>

definition checkLesson :: "json \<Rightarrow> tally_result \<Rightarrow> string + lesson_body" where
  "checkLesson v tally =
     parsed_bind (parseLesson v) (\<lambda>lesson.
       let out = tr_output tally in
       if le_round lesson \<noteq> to_round out then Inl ''lesson:round-mismatch''
       else if to_status out \<noteq> Decided \<or> tr_tallyHash tally = None then Inl ''lesson:round-not-decided''
       else if Some (le_tallyHash lesson) \<noteq> tr_tallyHash tally then Inl ''lesson:tally-hash-mismatch''
       else if Some (le_preferred lesson) \<noteq> to_winner out then Inl ''lesson:preferred-not-winner''
       else if \<not> list_all (\<lambda>i. i \<in> set (map rk_id (to_ranking out))) (le_rejected lesson) then Inl ''lesson:unknown-rejected''
       else if \<not> list_all (\<lambda>pr. list_all (\<lambda>p. p \<in> set (to_evidence out)) (lp_evidence pr)) (le_principles lesson)
         then Inl ''lesson:evidence-not-in-tally''
       else Inr lesson)"

definition verifyLessonPin :: "(string \<Rightarrow> string) \<Rightarrow> chain_event list \<Rightarrow> string \<Rightarrow> int \<Rightarrow> string + lesson_body" where
  "verifyLessonPin sha events lessonPinId nowSec =
     (case find (\<lambda>c. ev_path c = ''lesson'' \<and> ev_pinId c = lessonPinId) events of
        None \<Rightarrow> Inl ''lesson:not-found''
      | Some event \<Rightarrow>
          parsed_bind (tallyRound sha events (asStr (jget (ev_body event) ''round'') '''') nowSec)
            (checkLesson (JObj (ev_body event))))"

datatype canonical_round = CanonDecided string tally_result | CanonPending string | CanonNone

definition subjectMatches :: "round_body \<Rightarrow> string \<Rightarrow> string \<Rightarrow> bool" where
  "subjectMatches rnd taskid node \<longleftrightarrow> rd_subject rnd = Some (taskid, node)"

fun canonicalRound ::
  "(string \<Rightarrow> string) \<Rightarrow> chain_event list \<Rightarrow> string \<Rightarrow> string \<Rightarrow> int \<Rightarrow> chain_event list \<Rightarrow> canonical_round" where
  "canonicalRound sha events taskid node nowSec [] = CanonNone"
| "canonicalRound sha events taskid node nowSec (event # rest) =
     (let next1 = canonicalRound sha events taskid node nowSec rest in
      case resolveRound events (ev_pinId event) of
        Inl _ \<Rightarrow> next1
      | Inr (_, rnd) \<Rightarrow>
          if \<not> subjectMatches rnd taskid node then next1
          else (case tallyRound sha events (ev_pinId event) nowSec of
                  Inl _ \<Rightarrow> next1
                | Inr result \<Rightarrow>
                    if to_status (tr_output result) = NoDecision then next1
                    else if to_status (tr_output result) = Decided then CanonDecided (ev_pinId event) result
                    else CanonPending (ev_pinId event)))"

definition canonicalRoundForSubject ::
  "(string \<Rightarrow> string) \<Rightarrow> chain_event list \<Rightarrow> string \<Rightarrow> string \<Rightarrow> string \<Rightarrow> int \<Rightarrow> canonical_round" where
  "canonicalRoundForSubject sha events taskid node rootAuthor nowSec =
     canonicalRound sha events taskid node nowSec
       (sort_key pref_key (filter (\<lambda>e. ev_path e = ''round'' \<and> ev_author e = rootAuthor) events))"

end
