(* ===== verification/PrefFacts.thy ===== *)
theory PrefFacts
  imports PrefLesson Steps
begin

text \<open>
  Facts about the preference protocol: what the parsers accept, the order of events, the commit and
  reveal folds, the arithmetic of the point matrix.
\<close>

named_theorems parsing \<open>when a parser or a field check accepts\<close>

section \<open>Parsers\<close>

lemma parsed_bind_Inr [parsing]: "parsed_bind r f = Inr v \<longleftrightarrow> (\<exists>x. r = Inr x \<and> f x = Inr v)"
  by (simp add: parsed_bind_def split: sum.splits)

lemma parsed_bind_eval [simp]: "parsed_bind (Inr x) f = f x" "parsed_bind (Inl e) f = Inl e"
  by (simp_all add: parsed_bind_def)

lemma require_Inr [parsing]: "require reason v = Inr x \<longleftrightarrow> v = Some x"
  by (simp add: require_def split: option.splits)

lemma re_match_Some [parsing]: "re_match v re = Some s \<longleftrightarrow> v = Some (JStr s) \<and> re s"
  by (auto simp: re_match_def split: option.splits json.splits)

lemma isText_Some [parsing]: "isText v lo hi = Some s \<longleftrightarrow> v = Some (JStr s) \<and> lo \<le> length (js_trim s) \<and> length s \<le> hi"
  by (auto simp: isText_def split: option.splits json.splits)

lemma record_of_Some [parsing]: "record_of v = Some kv \<longleftrightarrow> v = Some (JObj kv)"
  by (auto simp: record_of_def split: option.splits json.splits)

lemma array_of_Some [parsing]: "array_of v = Some xs \<longleftrightarrow> v = Some (JArr xs)"
  by (auto simp: array_of_def split: option.splits json.splits)

text \<open>A loop over items accepts one value per item, and keeps what each step keeps.\<close>

lemma parse_items_length: "parse_items item acc xs = Inr ys \<Longrightarrow> length ys = length acc + length xs"
  by (induction item acc xs rule: parse_items.induct) (auto split: sum.splits)

lemma parse_items_inv:
  assumes "parse_items item acc xs = Inr ys" "P acc" "\<And>acc x v. P acc \<Longrightarrow> item acc x = Inr v \<Longrightarrow> P (acc @ [v])"
  shows "P ys"
  using assms by (induction item acc xs rule: parse_items.induct) (auto split: sum.splits)

lemma parseArray_Inr [parsing]:
  "parseArray reason lo hi item v = Inr ys \<longleftrightarrow>
     (\<exists>xs. v = Some (JArr xs) \<and> lo \<le> length xs \<and> length xs \<le> hi \<and> parse_items item [] xs = Inr ys)"
  by (auto simp: parseArray_def array_of_def split: option.splits json.splits)

lemma parseArray_bounds: "parseArray reason lo hi item v = Inr ys \<Longrightarrow> lo \<le> length ys \<and> length ys \<le> hi"
  by (auto simp: parsing dest: parse_items_length)

lemma parseArray_inv:
  "parseArray reason lo hi item v = Inr ys \<Longrightarrow> P [] \<Longrightarrow> (\<And>acc x v. P acc \<Longrightarrow> item acc x = Inr v \<Longrightarrow> P (acc @ [v])) \<Longrightarrow> P ys"
  by (auto simp: parsing intro: parse_items_inv [where P = P])

lemma parseList_bounds: "parseList reason hi item v = Inr ys \<Longrightarrow> length ys \<le> hi"
  by (auto simp: parseList_def dest: parse_items_length split: option.splits if_splits)

lemma parseList_inv:
  "parseList reason hi item v = Inr ys \<Longrightarrow> P [] \<Longrightarrow> (\<And>acc x v. P acc \<Longrightarrow> item acc x = Inr v \<Longrightarrow> P (acc @ [v])) \<Longrightarrow> P ys"
  by (auto simp: parseList_def intro: parse_items_inv [where P = P] split: option.splits if_splits)

lemma candidate_item_keeps:
  "distinct (map cd_id acc) \<and> distinct (map cd_ref acc) \<Longrightarrow> candidate_item acc x = Inr v \<Longrightarrow>
   distinct (map cd_id (acc @ [v])) \<and> distinct (map cd_ref (acc @ [v]))"
  by (auto simp: candidate_item_def list_ex_iff split: option.splits if_splits)

lemma judge_item_keeps:
  "distinct (map jd_id acc) \<Longrightarrow> judge_item acc x = Inr v \<Longrightarrow> distinct (map jd_id (acc @ [v]))"
  by (auto simp: judge_item_def list_ex_iff split: option.splits if_splits)

lemma kind_item_keeps: "distinct acc \<Longrightarrow> kind_item acc x = Inr v \<Longrightarrow> distinct (acc @ [v])"
  by (auto simp: kind_item_def split: option.splits if_splits)

lemma dimension_item_keeps:
  "distinct (map dm_id acc) \<Longrightarrow> dimension_item acc x = Inr v \<Longrightarrow> distinct (map dm_id (acc @ [v]))"
  by (auto simp: dimension_item_def list_ex_iff split: option.splits if_splits)

lemma parseDecision_Inr:
  "parseDecision v = Inr (kinds, n) \<Longrightarrow> kinds \<noteq> [] \<and> distinct kinds \<and> 1 \<le> n \<and> n \<le> 32"
  by (auto simp: parseDecision_def MAX_JUDGES_def dest: parse_items_length
      intro: parse_items_inv [where P = distinct] kind_item_keeps split: option.splits if_splits sum.splits)

lemma parseWindows_Inr:
  "parseWindows kv t = Inr (c, r) \<Longrightarrow> t + 3600 \<le> c \<and> c + 3600 \<le> r"
  by (auto simp: parseWindows_def MIN_WINDOW_SEC_def split: option.splits if_splits)

text \<open>What a parsed round promises to the tally.\<close>

definition round_ok :: "int \<Rightarrow> round_body \<Rightarrow> bool" where
  "round_ok t rnd \<longleftrightarrow>
     2 \<le> length (rd_candidates rnd) \<and> length (rd_candidates rnd) \<le> 8 \<and>
     distinct (map cd_id (rd_candidates rnd)) \<and> distinct (map cd_ref (rd_candidates rnd)) \<and>
     1 \<le> length (rd_judges rnd) \<and> length (rd_judges rnd) \<le> 32 \<and> distinct (map jd_id (rd_judges rnd)) \<and>
     rd_kinds rnd \<noteq> [] \<and> distinct (rd_kinds rnd) \<and> 1 \<le> rd_minBallots rnd \<and> rd_minBallots rnd \<le> 32 \<and>
     length (rd_dimensions rnd) \<le> 6 \<and> distinct (map dm_id (rd_dimensions rnd)) \<and>
     t + 3600 \<le> rd_commitCloseAt rnd \<and> rd_commitCloseAt rnd + 3600 \<le> rd_revealCloseAt rnd"

lemma parseRound_ok:
  assumes "parseRound v t = Inr rnd"
  shows "round_ok t rnd"
proof -
  from assms obtain kv cands judges kinds n dims c r where
    p: "parseArray ''round:candidates'' 2 MAX_CANDIDATES candidate_item (jget kv ''candidates'') = Inr cands"
      "parseArray ''round:judges'' 1 MAX_JUDGES judge_item (jget kv ''judges'') = Inr judges"
      "parseDecision (jget kv ''decision'') = Inr (kinds, n)"
      "parseList ''round:dimensions'' 6 dimension_item (jget kv ''dimensions'') = Inr dims"
      "parseWindows kv t = Inr (c, r)"
    and rnd: "rd_candidates rnd = cands" "rd_judges rnd = judges" "rd_kinds rnd = kinds" "rd_minBallots rnd = n"
      "rd_dimensions rnd = dims" "rd_commitCloseAt rnd = c" "rd_revealCloseAt rnd = r"
    unfolding parseRound_def parsed_bind_Inr by (auto simp: parsed_bind_Inr)
  have "distinct (map cd_id cands) \<and> distinct (map cd_ref cands)"
    by (rule parseArray_inv [OF p(1)]) (use candidate_item_keeps in auto)
  moreover have "distinct (map jd_id judges)"
    by (rule parseArray_inv [OF p(2)]) (use judge_item_keeps in auto)
  moreover have "distinct (map dm_id dims)"
    by (rule parseList_inv [OF p(4)]) (use dimension_item_keeps in auto)
  ultimately show ?thesis
    using parseArray_bounds [OF p(1)] parseArray_bounds [OF p(2)] parseDecision_Inr [OF p(3)] parseList_bounds [OF p(4)]
      parseWindows_Inr [OF p(5)]
    by (simp add: round_ok_def rnd MAX_CANDIDATES_def MAX_JUDGES_def)
qed

lemma resolveRound_Inr:
  "resolveRound events r = Inr (e, rnd) \<Longrightarrow>
   e \<in> set events \<and> ev_path e = ''round'' \<and> ev_pinId e = r \<and> 0 \<le> ev_height e \<and>
   parseRound (JObj (ev_body e)) (toSec (ev_timestampMs e)) = Inr rnd"
  by (auto simp: resolveRound_def parsed_bind_Inr isConfirmed_def find_Some_iff split: option.splits if_splits)

lemma resolveRound_ok: "resolveRound events r = Inr (e, rnd) \<Longrightarrow> round_ok (toSec (ev_timestampMs e)) rnd"
  using resolveRound_Inr parseRound_ok by blast

section \<open>Ballots\<close>

definition pair_ok :: "string list \<Rightarrow> ballot_pair \<Rightarrow> bool" where
  "pair_ok ids p \<longleftrightarrow> bp_a p \<in> set ids \<and> bp_b p \<in> set ids \<and> bp_a p \<noteq> bp_b p"

lemma pair_item_Inr:
  "pair_item ids dids pairs x = Inr p \<Longrightarrow>
   pair_ok ids p \<and> pair_key (bp_a p) (bp_b p) \<notin> (\<lambda>p. pair_key (bp_a p) (bp_b p)) ` set pairs"
  by (auto simp: pair_item_def parsing pair_ok_def pairCandidates_def split: if_splits option.splits json.splits)

lemma checkBallot_Inr:
  assumes "checkBallot v rnd = Inr b"
  shows "1 \<le> length (bl_pairs b) \<and> length (bl_pairs b) \<le> 28 \<and>
    list_all (pair_ok (map cd_id (rd_candidates rnd))) (bl_pairs b) \<and>
    distinct (map (\<lambda>p. pair_key (bp_a p) (bp_b p)) (bl_pairs b))"
proof -
  let ?item = "pair_item (map cd_id (rd_candidates rnd)) (map dm_id (rd_dimensions rnd))"
  from assms obtain raws pairs where
    p: "parse_items ?item [] raws = Inr pairs" "bl_pairs b = pairs" "raws \<noteq> []" "length raws \<le> 28"
    by (auto simp: checkBallot_def parsing MAX_PAIRS_def split: if_splits)
  have "list_all (pair_ok (map cd_id (rd_candidates rnd))) pairs \<and>
      distinct (map (\<lambda>p. pair_key (bp_a p) (bp_b p)) pairs)"
    by (rule parse_items_inv [OF p(1)]) (use pair_item_Inr in fastforce)+
  then show ?thesis using p parse_items_length [OF p(1)] by (simp add: Suc_le_eq)
qed

section \<open>Points\<close>

lemma cell_add_cell [simp]: "cell (add_cell x y n m) u v = cell m u v + (if u = x \<and> v = y then n else 0)"
  by (simp add: cell_def add_cell_def)

lemma cell_zero [simp]: "cell (zeroMatrix ids) x y = 0"
proof -
  have row: "jget_or (map (\<lambda>j. (j, 0 :: int)) ys) y 0 = 0" for ys by (induction ys) (auto simp: jget_or_def)
  have "jget_or (zeroMatrix ids) x [] = [] \<or> jget_or (zeroMatrix ids) x [] = map (\<lambda>j. (j, 0)) (filter (\<lambda>j. j \<noteq> x) ids)"
    by (auto simp: zeroMatrix_def jget_or_def map_of_map_restrict restrict_map_def comp_def split: option.splits)
  then show ?thesis unfolding cell_def using row by (auto simp: jget_or_def)
qed

text \<open>What a pair's pick puts into the cell of \<open>x\<close> against \<open>y\<close>.\<close>

definition pick_points :: "ballot_pair \<Rightarrow> string \<Rightarrow> string \<Rightarrow> int" where
  "pick_points p x y =
     (if x = bp_a p \<and> y = bp_b p then (case bp_pick p of PickA \<Rightarrow> 2 | PickB \<Rightarrow> 0 | PickTie \<Rightarrow> 1)
      else if x = bp_b p \<and> y = bp_a p then (case bp_pick p of PickA \<Rightarrow> 0 | PickB \<Rightarrow> 2 | PickTie \<Rightarrow> 1)
      else 0)"

lemma cell_addPick:
  "bp_a p \<noteq> bp_b p \<Longrightarrow> cell (addPick m (bp_a p) (bp_b p) (bp_pick p)) x y = cell m x y + pick_points p x y"
  by (auto simp: addPick_def pick_points_def split: pair_pick.splits)

definition picks_points :: "ballot_pair list \<Rightarrow> string \<Rightarrow> string \<Rightarrow> int" where
  "picks_points ps x y = sum_list (map (\<lambda>p. pick_points p x y) ps)"

lemma cell_addPairs:
  "list_all (pair_ok ids) ps \<Longrightarrow> cell (addPairs m ps) x y = cell m x y + picks_points ps x y"
  unfolding addPairs_def
  by (induction ps arbitrary: m) (simp_all add: picks_points_def cell_addPick pair_ok_def)

definition ballots_ok :: "string list \<Rightarrow> counted_ballot list \<Rightarrow> bool" where
  "ballots_ok ids bs \<longleftrightarrow> (\<forall>ct \<in> set bs. list_all (pair_ok ids) (ct_pairs ct))"

definition deciding_pairs :: "counted_ballot list \<Rightarrow> ballot_pair list" where
  "deciding_pairs bs = concat (map ct_pairs (decidingBallots bs))"

lemma cell_decidingMatrix:
  assumes "ballots_ok ids bs"
  shows "cell (decidingMatrix ids bs) x y = picks_points (deciding_pairs bs) x y"
proof -
  have "cell (foldl (\<lambda>m ct. addPairs m (ct_pairs ct)) m cs) x y = cell m x y + picks_points (concat (map ct_pairs cs)) x y"
    if "\<forall>ct \<in> set cs. list_all (pair_ok ids) (ct_pairs ct)" for m cs
    using that by (induction cs arbitrary: m) (simp_all add: cell_addPairs [of ids] picks_points_def)
  from this [of "decidingBallots bs" "zeroMatrix ids"] show ?thesis using assms
    by (simp add: decidingMatrix_def deciding_pairs_def ballots_ok_def decidingBallots_def)
qed

text \<open>Sums over ordered pairs of candidates.\<close>

definition over_pairs :: "string list \<Rightarrow> (string \<Rightarrow> string \<Rightarrow> int) \<Rightarrow> int" where
  "over_pairs ids h = (\<Sum>x \<in> set ids. \<Sum>y \<in> set ids - {x}. h x y)"

lemma over_pairs_add: "over_pairs ids (\<lambda>x y. f x y + g x y) = over_pairs ids f + over_pairs ids g"
  by (simp add: over_pairs_def sum.distrib)

lemma over_pairs_swap: "over_pairs ids (\<lambda>x y. h y x) = over_pairs ids h"
proof -
  have c: "(\<Sum>y \<in> S - {x}. g y) = (\<Sum>y \<in> S. if y = x then 0 else g y)" if "finite S" for S x and g :: "string \<Rightarrow> int"
    using that by (intro sum.mono_neutral_cong_left) auto
  have "over_pairs ids (\<lambda>x y. h y x) = (\<Sum>x \<in> set ids. \<Sum>y \<in> set ids. if y = x then 0 else h y x)"
    unfolding over_pairs_def c [OF finite_set] ..
  also have "\<dots> = (\<Sum>y \<in> set ids. \<Sum>x \<in> set ids. if y = x then 0 else h y x)" by (rule sum.swap)
  also have "\<dots> = over_pairs ids h"
    unfolding over_pairs_def c [OF finite_set] by (intro sum.cong refl) auto
  finally show ?thesis .
qed

lemma over_pairs_const: "distinct ids \<Longrightarrow> over_pairs ids (\<lambda>_ _. k) = k * int (length ids) * (int (length ids) - 1)"
proof -
  assume d: "distinct ids"
  have "over_pairs ids (\<lambda>_ _. k) = (\<Sum>x \<in> set ids. k * (int (length ids) - 1))"
    unfolding over_pairs_def
  proof (rule sum.cong [OF refl])
    fix x assume x: "x \<in> set ids"
    then have "Suc 0 \<le> length ids" using length_pos_if_in_set by (fastforce simp: Suc_le_eq)
    then show "(\<Sum>y \<in> set ids - {x}. k) = k * (int (length ids) - 1)"
      using x d by (simp add: card_Diff_singleton distinct_card of_nat_diff)
  qed
  then show ?thesis using d by (simp add: distinct_card algebra_simps)
qed

lemma over_pairs_cong:
  "(\<And>x y. x \<in> set ids \<Longrightarrow> y \<in> set ids \<Longrightarrow> x \<noteq> y \<Longrightarrow> f x y = g x y) \<Longrightarrow> over_pairs ids f = over_pairs ids g"
  unfolding over_pairs_def by (intro sum.cong refl) auto

text \<open>A table in which every two opponents share a fixed amount holds half of it per ordered pair.\<close>

lemma over_pairs_shared:
  assumes "distinct ids" "\<And>x y. x \<in> set ids \<Longrightarrow> y \<in> set ids \<Longrightarrow> x \<noteq> y \<Longrightarrow> h x y + h y x = 2 * k"
  shows "over_pairs ids h = k * int (length ids) * (int (length ids) - 1)"
proof -
  have "over_pairs ids h + over_pairs ids h = over_pairs ids (\<lambda>x y. h x y + h y x)"
    unfolding over_pairs_add [of ids h "\<lambda>x y. h y x"] over_pairs_swap [of ids h] ..
  also have "\<dots> = over_pairs ids (\<lambda>_ _. 2 * k)" by (rule over_pairs_cong) (rule assms(2))
  finally show ?thesis using over_pairs_const [OF assms(1), of "2 * k"] by simp
qed

lemma over_pairs_pick:
  assumes "pair_ok ids p"
  shows "over_pairs ids (pick_points p) = 2"
proof -
  let ?S = "set ids" and ?a = "bp_a p" and ?b = "bp_b p"
  have ab: "?a \<in> ?S" "?b \<in> ?S" "?a \<noteq> ?b" using assms by (auto simp: pair_ok_def)
  have row: "(\<Sum>y \<in> ?S - {x}. pick_points p x y) =
      (if x = ?a then pick_points p ?a ?b else if x = ?b then pick_points p ?b ?a else 0)" for x
  proof -
    have one: "(\<Sum>y \<in> ?S - {x}. if y = z then k else 0) = k" if "z \<in> ?S" "z \<noteq> x" for x z and k :: int
      using that by simp
    consider "x = ?a" | "x = ?b" | "x \<noteq> ?a" "x \<noteq> ?b" by blast
    then show ?thesis
    proof cases
      case 1
      have "(\<Sum>y \<in> ?S - {x}. pick_points p x y) = (\<Sum>y \<in> ?S - {x}. if y = ?b then pick_points p ?a ?b else 0)"
        by (rule sum.cong) (simp_all add: 1 pick_points_def)
      then show ?thesis using one [of ?b x] ab 1 by simp
    next
      case 2
      have "(\<Sum>y \<in> ?S - {x}. pick_points p x y) = (\<Sum>y \<in> ?S - {x}. if y = ?a then pick_points p ?b ?a else 0)"
        by (rule sum.cong) (use ab in \<open>simp_all add: 2 pick_points_def\<close>)
      then show ?thesis using one [of ?a x] ab 2 by simp
    next
      case 3
      then show ?thesis by (simp add: pick_points_def)
    qed
  qed
  have "over_pairs ids (pick_points p) =
      (\<Sum>x \<in> ?S. (if x = ?a then pick_points p ?a ?b else 0) + (if x = ?b then pick_points p ?b ?a else 0))"
    unfolding over_pairs_def by (rule sum.cong) (use ab row in auto)
  also have "\<dots> = pick_points p ?a ?b + pick_points p ?b ?a" using ab by (simp add: sum.distrib sum.delta)
  also have "\<dots> = 2" using ab by (auto simp: pick_points_def split: pair_pick.splits)
  finally show ?thesis .
qed

lemma over_pairs_picks: "list_all (pair_ok ids) ps \<Longrightarrow> over_pairs ids (picks_points ps) = 2 * int (length ps)"
  by (induction ps) (simp_all add: picks_points_def [abs_def] over_pairs_add over_pairs_pick, simp add: over_pairs_def)

section \<open>The ranking\<close>

lemma count_if_filter: "count_if P xs = int (length (filter P xs))"
proof -
  have "foldl (\<lambda>n x. if P x then n + 1 else n) a xs = a + int (length (filter P xs))" for a
    by (induction xs arbitrary: a) auto
  then show ?thesis by (simp add: count_if_def)
qed

lemma count_if_sum: "distinct xs \<Longrightarrow> count_if P xs = (\<Sum>x \<in> set xs. if P x then 1 else 0)"
  by (induction xs) (auto simp: count_if_filter)

lemma foldl_sum: "foldl (\<lambda>n x. n + f x) (a :: int) xs = a + sum_list (map f xs)"
  by (induction xs arbitrary: a) auto

text \<open>The points of one duel: two for a win, one each for a tie.\<close>

definition duel :: "point_matrix \<Rightarrow> string \<Rightarrow> string \<Rightarrow> int" where
  "duel m x y = (if cell m x y > cell m y x then 2 else if cell m x y = cell m y x then 1 else 0)"

lemma duel_shared: "duel m x y + duel m y x = 2"
  by (simp add: duel_def)

lemma others_set: "set (filter (\<lambda>o1. o1 \<noteq> x) ids) = set ids - {x}"
  by auto

lemma rankingEntry_sums:
  assumes "distinct ids"
  shows "rk_copeland (rankingEntry ids m c) = (\<Sum>y \<in> set ids - {cd_id c}. duel m (cd_id c) y)"
    "rk_points (rankingEntry ids m c) = (\<Sum>y \<in> set ids - {cd_id c}. cell m (cd_id c) y)"
    "cd_id c \<in> set ids \<Longrightarrow> rk_wins (rankingEntry ids m c) + rk_losses (rankingEntry ids m c) + rk_ties (rankingEntry ids m c) =
       int (length ids) - 1"
proof -
  let ?o = "filter (\<lambda>o1. o1 \<noteq> cd_id c) ids"
  have d: "distinct ?o" using assms by simp
  note sums = count_if_sum [OF d] others_set [of "cd_id c" ids]
  show "rk_copeland (rankingEntry ids m c) = (\<Sum>y \<in> set ids - {cd_id c}. duel m (cd_id c) y)"
    by (simp add: rankingEntry_def Let_def sums sum_distrib_left sum.distrib [symmetric] duel_def del: set_filter)
       (rule sum.cong, auto)
  show "rk_points (rankingEntry ids m c) = (\<Sum>y \<in> set ids - {cd_id c}. cell m (cd_id c) y)"
    using d by (simp add: rankingEntry_def Let_def foldl_sum sum_list_distinct_conv_sum_set others_set del: set_filter)
  assume "cd_id c \<in> set ids"
  then have "1 \<le> length ids" using length_pos_if_in_set by (fastforce simp: Suc_le_eq)
  moreover have "length ?o = length ids - 1"
    using distinct_card [OF d] \<open>cd_id c \<in> set ids\<close> assms
    by (simp add: others_set card_Diff_singleton distinct_card del: set_filter)
  moreover have "length (filter P xs) + length (filter Q xs) + length (filter R xs) = length xs"
    if "\<And>x. (P x \<and> \<not> Q x \<and> \<not> R x) \<or> (\<not> P x \<and> Q x \<and> \<not> R x) \<or> (\<not> P x \<and> \<not> Q x \<and> R x)" for P Q R and xs :: "string list"
    by (induction xs) (use that in auto)
  from this [of "\<lambda>y. cell m (cd_id c) y > cell m y (cd_id c)" "\<lambda>y. cell m (cd_id c) y < cell m y (cd_id c)"
      "\<lambda>y. cell m (cd_id c) y = cell m y (cd_id c)" ?o]
  have "int (length (filter (\<lambda>y. cell m (cd_id c) y > cell m y (cd_id c)) ?o)) +
      int (length (filter (\<lambda>y. cell m (cd_id c) y < cell m y (cd_id c)) ?o)) +
      int (length (filter (\<lambda>y. cell m (cd_id c) y = cell m y (cd_id c)) ?o)) = int (length ?o)"
    by linarith
  ultimately show "rk_wins (rankingEntry ids m c) + rk_losses (rankingEntry ids m c) + rk_ties (rankingEntry ids m c) =
      int (length ids) - 1"
    by (simp add: rankingEntry_def Let_def count_if_filter of_nat_diff del: filter_filter)
qed

lemma rankingOf_mset:
  "mset (rankingOf rnd m) = mset (map (rankingEntry (map cd_id (rd_candidates rnd)) m) (rd_candidates rnd))"
  by (simp add: rankingOf_def)

lemma rankingEntry_id [simp]: "rk_id (rankingEntry ids m c) = cd_id c" "rk_ref (rankingEntry ids m c) = cd_ref c"
  by (simp_all add: rankingEntry_def Let_def)

lemma ranking_sum:
  assumes "distinct (map cd_id (rd_candidates rnd))"
    "\<And>c. f (rankingEntry (map cd_id (rd_candidates rnd)) m c) = (\<Sum>y \<in> set (map cd_id (rd_candidates rnd)) - {cd_id c}. h (cd_id c) y)"
  shows "sum_list (map f (rankingOf rnd m)) = over_pairs (map cd_id (rd_candidates rnd)) h"
proof -
  let ?ids = "map cd_id (rd_candidates rnd)"
  have "sum_list (map f (rankingOf rnd m)) = sum_list (map f (map (rankingEntry ?ids m) (rd_candidates rnd)))"
    using rankingOf_mset [of rnd m] by (metis mset_map sum_mset_sum_list)
  also have "\<dots> = sum_list (map (\<lambda>x. \<Sum>y \<in> set ?ids - {x}. h x y) ?ids)"
    by (simp add: assms(2) comp_def del: set_map)
  also have "\<dots> = over_pairs ?ids h"
    unfolding over_pairs_def by (rule sum_list_distinct_conv_sum_set [OF assms(1)])
  finally show ?thesis .
qed

lemma copeland_sum:
  assumes "distinct (map cd_id (rd_candidates rnd))"
  shows "sum_list (map rk_copeland (rankingOf rnd m)) = int (length (rd_candidates rnd)) * (int (length (rd_candidates rnd)) - 1)"
  using ranking_sum [of rnd rk_copeland m "duel m", OF assms rankingEntry_sums(1) [OF assms]]
    over_pairs_shared [OF assms, of "duel m" 1] by (simp add: duel_shared)

lemma points_sum:
  assumes "distinct (map cd_id (rd_candidates rnd))" "ballots_ok (map cd_id (rd_candidates rnd)) bs"
  shows "sum_list (map rk_points (rankingOf rnd (decidingMatrix (map cd_id (rd_candidates rnd)) bs))) =
    2 * int (length (deciding_pairs bs))"
proof -
  let ?ids = "map cd_id (rd_candidates rnd)"
  have "list_all (pair_ok ?ids) (deciding_pairs bs)"
    using assms(2) by (auto simp: ballots_ok_def deciding_pairs_def decidingBallots_def list_all_iff)
  then have "over_pairs ?ids (cell (decidingMatrix ?ids bs)) = 2 * int (length (deciding_pairs bs))"
    using over_pairs_picks by (simp add: cell_decidingMatrix [OF assms(2), abs_def])
  then show ?thesis
    using ranking_sum [of rnd rk_points "decidingMatrix ?ids bs", OF assms(1) rankingEntry_sums(2) [OF assms(1)]] by simp
qed

lemma ranking_ids: "mset (map rk_id (rankingOf rnd m)) = mset (map cd_id (rd_candidates rnd))"
  using rankingOf_mset [of rnd m] by (metis (no_types, lifting) mset_map map_map comp_apply rankingEntry_id(1) map_cong)

lemma ranking_head:
  assumes "e \<in> set (rankingOf rnd m)"
  shows "(- rk_copeland (hd (rankingOf rnd m)), - rk_points (hd (rankingOf rnd m)), rk_ref (hd (rankingOf rnd m)))
    \<le> (- rk_copeland e, - rk_points e, rk_ref e)"
proof -
  have "sorted (map (\<lambda>e. (- rk_copeland e, - rk_points e, rk_ref e)) (rankingOf rnd m))" by (simp add: rankingOf_def)
  then show ?thesis using assms by (cases "rankingOf rnd m") auto
qed

end
