(* ===== verification/PrefCount.thy ===== *)
theory PrefCount
  imports PrefFacts
begin

text \<open>
  The commit and reveal loops of the tally against their specification: a judge's last valid commit,
  opened by the first reveal that opens it. Delivery order, late events and the clock.
\<close>

section \<open>Specification\<close>

definition valid_commit :: "chain_event \<Rightarrow> round_body \<Rightarrow> string \<Rightarrow> chain_event \<Rightarrow> bool" where
  "valid_commit roundEvent rnd a e \<longleftrightarrow> ev_path e = ''commit'' \<and> ev_author e = a \<and> commitRefusal roundEvent rnd e = None"

definition last_of :: "'a list \<Rightarrow> 'a option" where
  "last_of xs = (if xs = [] then None else Some (last xs))"

definition last_commit :: "chain_event \<Rightarrow> round_body \<Rightarrow> string \<Rightarrow> chain_event list \<Rightarrow> (string \<times> string) option" where
  "last_commit roundEvent rnd a related =
     map_option (\<lambda>e. (ev_pinId e, commit_hash_of e)) (last_of (filter (valid_commit roundEvent rnd a) related))"

text \<open>The ballot a reveal opens, when it opens the commit \<open>c\<close> of its author in time.\<close>

definition opens ::
  "(string \<Rightarrow> string) \<Rightarrow> string \<Rightarrow> round_body \<Rightarrow> (string \<times> string) option \<Rightarrow> chain_event \<Rightarrow> counted_ballot option" where
  "opens sha r rnd c e =
     (if ev_path e \<noteq> ''reveal'' \<or> ev_height e < 0 \<or> toSec (ev_timestampMs e) \<le> rd_commitCloseAt rnd \<or>
         rd_revealCloseAt rnd < toSec (ev_timestampMs e) then None
      else (case (parseRevealEnvelope (JObj (ev_body e)), c) of
        (Inr env, Some (pin, h)) \<Rightarrow>
          if pin = rv_commit env \<and> ballotCommitHash sha r (ev_author e) (rv_salt env) (JObj (rv_ballot env)) = h then
            (case checkBallot (JObj (rv_ballot env)) rnd of
               Inr b \<Rightarrow> Some \<lparr>ct_author = ev_author e, ct_commitPinId = pin, ct_revealPinId = ev_pinId e,
                 ct_class = classOf rnd (ev_author e), ct_kind = judgeKindOf rnd (ev_author e),
                 ct_pairs = foreignPairs rnd (ev_author e) (bl_pairs b)\<rparr>
             | Inl _ \<Rightarrow> None)
          else None
      | _ \<Rightarrow> None))"

text \<open>The first of the optional values a list gives.\<close>

fun first_some :: "('a \<Rightarrow> 'b option) \<Rightarrow> 'a list \<Rightarrow> 'b option" where
  "first_some f [] = None"
| "first_some f (x # xs) = (case f x of None \<Rightarrow> first_some f xs | Some v \<Rightarrow> Some v)"

lemma first_some_append: "first_some f (xs @ ys) = (case first_some f xs of None \<Rightarrow> first_some f ys | Some v \<Rightarrow> Some v)"
  by (induction xs) (auto split: option.splits)

lemma first_some_SomeD: "first_some f xs = Some v \<Longrightarrow> \<exists>x \<in> set xs. f x = Some v"
  by (induction xs) (auto split: option.splits)

text \<open>The sealed ballot of a judge: the first reveal of theirs that opens their last valid commit.\<close>

definition sealed_ballot ::
  "(string \<Rightarrow> string) \<Rightarrow> string \<Rightarrow> chain_event \<Rightarrow> round_body \<Rightarrow> chain_event list \<Rightarrow> string \<Rightarrow> counted_ballot option" where
  "sealed_ballot sha r roundEvent rnd related a =
     first_some (\<lambda>e. if ev_author e = a then opens sha r rnd (last_commit roundEvent rnd a related) e else None) related"

definition ballot_of :: "string \<Rightarrow> counted_ballot list \<Rightarrow> counted_ballot option" where
  "ballot_of a bs = find (\<lambda>ct. ct_author ct = a) bs"

section \<open>The loops meet it\<close>

lemma commit_step_path: "ev_path e \<noteq> ''commit'' \<Longrightarrow> commit_step re rnd st e = st"
  by (cases st) (simp add: commit_step_def)

lemma commit_step_get:
  "jget (snd (commit_step re rnd st e)) a =
     (if valid_commit re rnd a e then Some (ev_pinId e, commit_hash_of e) else jget (snd st) a)"
  by (cases st) (auto simp: commit_step_def valid_commit_def split: option.splits)

lemma effective_foldl:
  "jget (snd (foldl (commit_step re rnd) st es)) a =
     (case last_commit re rnd a es of None \<Rightarrow> jget (snd st) a | Some c \<Rightarrow> Some c)"
proof (induction es rule: rev_induct)
  case (snoc e es)
  then show ?case by (simp add: commit_step_get last_commit_def last_of_def)
qed (simp add: last_commit_def last_of_def)

lemma effectiveCommits_get: "jget (snd (effectiveCommits re rnd related)) a = last_commit re rnd a related"
  unfolding effectiveCommits_def effective_foldl by (simp split: option.splits)

lemma checkReveal_opens:
  assumes "ev_path e = ''reveal''" "ev_author e \<notin> set revealed"
  shows "opens sha r rnd (jget cs (ev_author e)) e =
    (case checkReveal sha r rnd cs revealed e of
       Inr (pin, b) \<Rightarrow> Some \<lparr>ct_author = ev_author e, ct_commitPinId = pin, ct_revealPinId = ev_pinId e,
         ct_class = classOf rnd (ev_author e), ct_kind = judgeKindOf rnd (ev_author e),
         ct_pairs = foreignPairs rnd (ev_author e) (bl_pairs b)\<rparr>
     | Inl _ \<Rightarrow> None)"
  using assms
  by (auto simp: opens_def checkReveal_def isConfirmed_def parsed_bind_def Let_def split: sum.splits option.splits if_splits)

lemma checkReveal_repeat:
  "ev_author e \<in> set revealed \<Longrightarrow> \<exists>reason. checkReveal sha r rnd cs revealed e = Inl reason"
  by (auto simp: checkReveal_def parsed_bind_def Let_def split: sum.splits option.splits if_splits)

lemma reveal_step_path: "ev_path e \<noteq> ''reveal'' \<Longrightarrow> reveal_step sha r rnd cs st e = st"
  by (simp add: reveal_step_def)

definition revealed_ok :: "reveal_state \<Rightarrow> bool" where
  "revealed_ok st \<longleftrightarrow> set (rl_revealed st) = set (map ct_author (rl_ballots st)) \<and> distinct (map ct_author (rl_ballots st))"

lemma revealed_ok_step: "revealed_ok st \<Longrightarrow> revealed_ok (reveal_step sha r rnd cs st e)"
  using checkReveal_repeat [of e "rl_revealed st" sha r rnd cs]
  by (auto simp: reveal_step_def revealed_ok_def split: sum.splits)

interpretation reveals: stepwise "reveal_step sha r rnd cs" "\<lambda>_. True" revealed_ok for sha r rnd cs
  by unfold_locales (rule revealed_ok_step)

lemma ballot_of_Nil [simp]: "ballot_of a [] = None"
  by (simp add: ballot_of_def)

lemma ballot_of_append:
  "ballot_of a (bs @ [ct]) = (case ballot_of a bs of Some b \<Rightarrow> Some b | None \<Rightarrow> if ct_author ct = a then Some ct else None)"
  by (induction bs) (auto simp: ballot_of_def)

lemma ballot_of_None: "ballot_of a bs = None \<longleftrightarrow> a \<notin> set (map ct_author bs)"
  by (auto simp: ballot_of_def find_None_iff)

lemma ballot_of_mem: "distinct (map ct_author bs) \<Longrightarrow> ballot_of a bs = Some ct \<longleftrightarrow> ct \<in> set bs \<and> ct_author ct = a"
  by (induction bs) (auto simp: ballot_of_def image_iff)

lemma opens_author: "opens sha r rnd c e = Some ct \<Longrightarrow> ct_author ct = ev_author e \<and> ev_path e = ''reveal''"
  by (auto simp: opens_def split: if_splits sum.splits option.splits)

lemma reveal_step_ballot:
  assumes "revealed_ok st"
  shows "ballot_of a (rl_ballots (reveal_step sha r rnd cs st e)) =
    (case ballot_of a (rl_ballots st) of
       Some b \<Rightarrow> Some b
     | None \<Rightarrow> if ev_author e = a then opens sha r rnd (jget cs a) e else None)"
proof (cases "ev_path e = ''reveal''")
  case False
  then have "opens sha r rnd c e = None" for c by (simp add: opens_def)
  then show ?thesis using False by (simp add: reveal_step_path split: option.splits)
next
  case True
  have rev: "ev_author e \<in> set (rl_revealed st) \<longleftrightarrow> ballot_of (ev_author e) (rl_ballots st) \<noteq> None"
    using assms by (simp add: revealed_ok_def ballot_of_None)
  show ?thesis
  proof (cases "ev_author e \<in> set (rl_revealed st)")
    case rep: True
    then obtain reason where "checkReveal sha r rnd cs (rl_revealed st) e = Inl reason" using checkReveal_repeat by blast
    then show ?thesis using rep rev by (auto simp: reveal_step_def True split: option.splits)
  next
    case False
    show ?thesis
      using checkReveal_opens [OF True False, of sha r rnd cs] rev False
      by (auto simp: reveal_step_def True ballot_of_append split: sum.splits option.splits)
  qed
qed

lemma reveal_foldl_ballot:
  assumes "revealed_ok st"
  shows "ballot_of a (rl_ballots (foldl (reveal_step sha r rnd cs) st es)) =
    (case ballot_of a (rl_ballots st) of
       Some b \<Rightarrow> Some b
     | None \<Rightarrow> first_some (\<lambda>e. if ev_author e = a then opens sha r rnd (jget cs a) e else None) es)"
proof (induction es rule: rev_induct)
  case (snoc e es)
  have "revealed_ok (foldl (reveal_step sha r rnd cs) st es)" using reveals.run_inv [OF assms] by simp
  from reveal_step_ballot [OF this, of a sha r rnd cs e] snoc show ?case
    by (auto simp: first_some_append split: option.splits)
qed (simp split: option.splits)

text \<open>The ballots of a tally.\<close>

definition tally_ballots ::
  "(string \<Rightarrow> string) \<Rightarrow> chain_event list \<Rightarrow> string \<Rightarrow> chain_event \<Rightarrow> round_body \<Rightarrow> counted_ballot list" where
  "tally_ballots sha events r roundEvent rnd =
     (let related = relatedEvents events r; (ign, cs) = effectiveCommits roundEvent rnd related
      in rl_ballots (countBallots sha r rnd cs ign related))"

lemma tally_ballots_ok:
  "distinct (map ct_author (tally_ballots sha events r re rnd))"
proof -
  have "revealed_ok (countBallots sha r rnd cs ign es)" for cs ign es
    unfolding countBallots_def by (rule reveals.run_inv) (simp_all add: revealed_ok_def)
  then show ?thesis by (simp add: tally_ballots_def case_prod_unfold Let_def revealed_ok_def)
qed

lemma tally_ballots_spec:
  "ballot_of a (tally_ballots sha events r re rnd) = sealed_ballot sha r re rnd (relatedEvents events r) a"
proof -
  have ok: "revealed_ok \<lparr>rl_ignored = ign, rl_ballots = [], rl_revealed = []\<rparr>" for ign by (simp add: revealed_ok_def)
  show ?thesis
    by (simp add: tally_ballots_def case_prod_unfold Let_def countBallots_def reveal_foldl_ballot [OF ok]
        effectiveCommits_get sealed_ballot_def cong: if_cong)
qed

lemma tallyRound_Inr:
  "tallyRound sha events r now = Inr t \<longleftrightarrow>
     (\<exists>re rnd. resolveRound events r = Inr (re, rnd) \<and>
        tr_output t = tallyOutputOf r rnd (tally_ballots sha events r re rnd) now \<and>
        tr_tallyHash t = (if is_final (to_status (tr_output t)) then Some (sha (canonJ (output_json (tr_output t)))) else None) \<and>
        tr_ignored t = rl_ignored (countBallots sha r rnd (snd (effectiveCommits re rnd (relatedEvents events r)))
          (fst (effectiveCommits re rnd (relatedEvents events r))) (relatedEvents events r)) \<and>
        tr_evaluatedAt t = now)"
proof -
  have eq: "t = t' \<longleftrightarrow> tr_output t = tr_output t' \<and> tr_tallyHash t = tr_tallyHash t' \<and> tr_ignored t = tr_ignored t' \<and>
    tr_evaluatedAt t = tr_evaluatedAt t'" for t t' :: tally_result
    by (cases t; cases t') simp
  show ?thesis
    by (cases "resolveRound events r")
       (auto simp: tallyRound_def tallyRelated_def tallyCounted_def tallyResultOf_def Let_def case_prod_unfold tally_ballots_def eq)
qed

lemma tally_ballots_pairs:
  assumes "ct \<in> set (tally_ballots sha events r re rnd)"
  shows "length (ct_pairs ct) \<le> 28" "list_all (pair_ok (map cd_id (rd_candidates rnd))) (ct_pairs ct)"
    "ct_class ct = classOf rnd (ct_author ct)"
    "p \<in> set (ct_pairs ct) \<Longrightarrow> candidateAuthor rnd (bp_a p) \<noteq> Some (ct_author ct) \<and> candidateAuthor rnd (bp_b p) \<noteq> Some (ct_author ct)"
proof -
  have "sealed_ballot sha r re rnd (relatedEvents events r) (ct_author ct) = Some ct"
    using assms tally_ballots_spec ballot_of_mem [OF tally_ballots_ok] by metis
  then obtain e where "opens sha r rnd (last_commit re rnd (ct_author ct) (relatedEvents events r)) e = Some ct"
    unfolding sealed_ballot_def by (auto dest!: first_some_SomeD split: if_splits)
  then obtain b v where b: "checkBallot v rnd = Inr b" "ct_pairs ct = foreignPairs rnd (ct_author ct) (bl_pairs b)"
      "ct_class ct = classOf rnd (ct_author ct)"
    by (auto simp: opens_def split: if_splits sum.splits option.splits)
  show "length (ct_pairs ct) \<le> 28"
    using checkBallot_Inr [OF b(1)] length_filter_le le_trans unfolding b(2) foreignPairs_def by blast
  show "list_all (pair_ok (map cd_id (rd_candidates rnd))) (ct_pairs ct)"
    using checkBallot_Inr [OF b(1)] by (auto simp: b(2) foreignPairs_def list_all_iff)
  show "ct_class ct = classOf rnd (ct_author ct)" by (rule b(3))
  show "candidateAuthor rnd (bp_a p) \<noteq> Some (ct_author ct) \<and> candidateAuthor rnd (bp_b p) \<noteq> Some (ct_author ct)"
    if "p \<in> set (ct_pairs ct)" using that by (simp add: b(2) foreignPairs_def)
qed

lemma tally_ballots_ok_pairs: "ballots_ok (map cd_id (rd_candidates rnd)) (tally_ballots sha events r re rnd)"
  using tally_ballots_pairs(2) by (auto simp: ballots_ok_def)

section \<open>Delivery order\<close>

interpretation pref_order: pin_order pref_key ev_pinId
  by unfold_locales (simp add: pref_key_def)

lemma relatedEvents_perm:
  "distinct (map ev_pinId events) \<Longrightarrow> mset events = mset events' \<Longrightarrow> relatedEvents events r = relatedEvents events' r"
  unfolding relatedEvents_def by (rule pref_order.sorted_view_perm)

lemma find_unique_perm:
  assumes "distinct (map g xs)" "mset xs = mset ys" "\<And>x. P x \<Longrightarrow> g x = k"
  shows "find P xs = find P ys"
proof -
  have s: "set xs = set ys" using assms(2) by (metis set_mset_mset)
  have d: "distinct (map g ys)" using assms(1,2) by (metis mset_eq_imp_distinct_iff mset_map)
  have one: "find P zs = Some z \<longleftrightarrow> z \<in> set zs \<and> P z" if "distinct (map g zs)" for zs z
  proof -
    have inj: "inj_on g (set zs)" using that by (simp add: distinct_map)
    show ?thesis
    proof
      assume "find P zs = Some z"
      then show "z \<in> set zs \<and> P z" by (auto simp: find_Some_iff)
    next
      assume z: "z \<in> set zs \<and> P z"
      then obtain z' where z': "find P zs = Some z'" by (metis find_None_iff not_None_eq)
      then have "z' \<in> set zs \<and> P z'" by (auto simp: find_Some_iff)
      then have "z' = z" using z inj assms(3) by (metis inj_onD)
      then show "find P zs = Some z" using z' by simp
    qed
  qed
  have "find P xs = Some z \<longleftrightarrow> find P ys = Some z" for z using one [OF assms(1)] one [OF d] s by simp
  then show ?thesis by (metis option.exhaust)
qed

lemma resolveRound_perm:
  "distinct (map ev_pinId events) \<Longrightarrow> mset events = mset events' \<Longrightarrow> resolveRound events r = resolveRound events' r"
  unfolding resolveRound_def by (subst find_unique_perm [where g = ev_pinId and ys = events' and k = r]) auto

lemma tallyRound_perm:
  "distinct (map ev_pinId events) \<Longrightarrow> mset events = mset events' \<Longrightarrow> tallyRound sha events r now = tallyRound sha events' r now"
  using resolveRound_perm [of events events' r] relatedEvents_perm [of events events' r] by (simp add: tallyRound_def cong: sum.case_cong)

section \<open>Late events\<close>

definition late :: "round_body \<Rightarrow> chain_event \<Rightarrow> bool" where
  "late rnd e \<longleftrightarrow> ev_height e < 0 \<or> rd_revealCloseAt rnd < toSec (ev_timestampMs e)"

lemma late_commit:
  assumes "round_ok t rnd" "late rnd e"
  shows "snd (commit_step re rnd st e) = snd st"
proof (cases "ev_path e = ''commit''")
  case True
  have "commitRefusal re rnd e \<noteq> None"
    using assms by (auto simp: commitRefusal_def late_def round_ok_def isConfirmed_def split: sum.splits)
  then show ?thesis by (cases st) (auto simp: commit_step_def)
qed (simp add: commit_step_path)

lemma commit_step_snd_cong: "snd st = snd st' \<Longrightarrow> snd (commit_step re rnd st e) = snd (commit_step re rnd st' e)"
  by (cases st; cases st') (auto simp: commit_step_def split: option.splits)

lemma late_commits:
  assumes "round_ok t rnd" "snd st = snd st'"
  shows "snd (foldl (commit_step re rnd) st es) = snd (foldl (commit_step re rnd) st' (filter (\<lambda>e. \<not> late rnd e) es))"
  using assms(2)
proof (induction es arbitrary: st st')
  case (Cons e es)
  have "snd (commit_step re rnd st e) = snd (if late rnd e then st' else commit_step re rnd st' e)"
    using late_commit [OF assms(1)] commit_step_snd_cong [OF Cons.prems] Cons.prems by simp
  from Cons.IH [OF this] show ?case by simp
qed simp

definition same_ballots :: "reveal_state \<Rightarrow> reveal_state \<Rightarrow> bool" where
  "same_ballots st st' \<longleftrightarrow> rl_ballots st = rl_ballots st' \<and> rl_revealed st = rl_revealed st'"

lemma late_reveal: "late rnd e \<Longrightarrow> same_ballots st st' \<Longrightarrow> same_ballots (reveal_step sha r rnd cs st e) st'"
proof (cases "ev_path e = ''reveal''")
  case True
  assume "late rnd e"
  then have "\<exists>reason. checkReveal sha r rnd cs (rl_revealed st) e = Inl reason"
    by (auto simp: checkReveal_def late_def isConfirmed_def parsed_bind_def Let_def split: sum.splits)
  moreover assume "same_ballots st st'"
  ultimately show ?thesis by (auto simp: reveal_step_def True same_ballots_def)
qed (simp add: reveal_step_path)

lemma same_ballots_step: "same_ballots st st' \<Longrightarrow> same_ballots (reveal_step sha r rnd cs st e) (reveal_step sha r rnd cs st' e)"
  by (auto simp: reveal_step_def same_ballots_def split: sum.splits)

lemma late_reveals:
  "same_ballots st st' \<Longrightarrow>
   same_ballots (foldl (reveal_step sha r rnd cs) st es) (foldl (reveal_step sha r rnd cs) st' (filter (\<lambda>e. \<not> late rnd e) es))"
proof (induction es arbitrary: st st')
  case (Cons e es)
  have "same_ballots (reveal_step sha r rnd cs st e) (if late rnd e then st' else reveal_step sha r rnd cs st' e)"
    using late_reveal same_ballots_step Cons.prems by simp
  from Cons.IH [OF this] show ?case by (cases "late rnd e") simp_all
qed simp

lemma tally_ballots_timely:
  assumes "round_ok t rnd"
    "filter (\<lambda>e. \<not> late rnd e) (relatedEvents events r) = filter (\<lambda>e. \<not> late rnd e) (relatedEvents events' r)"
  shows "tally_ballots sha events r re rnd = tally_ballots sha events' r re rnd"
proof -
  let ?timely = "\<lambda>evs. filter (\<lambda>e. \<not> late rnd e) (relatedEvents evs r)"
  let ?cs = "snd (foldl (commit_step re rnd) ([], []) (?timely events))"
  have "tally_ballots sha evs r re rnd =
      rl_ballots (foldl (reveal_step sha r rnd (snd (foldl (commit_step re rnd) ([], []) (?timely evs))))
        \<lparr>rl_ignored = [], rl_ballots = [], rl_revealed = []\<rparr> (?timely evs))" for evs
  proof -
    have cs: "snd (effectiveCommits re rnd (relatedEvents evs r)) = snd (foldl (commit_step re rnd) ([], []) (?timely evs))"
      unfolding effectiveCommits_def by (rule late_commits [OF assms(1)]) simp
    have "same_ballots (countBallots sha r rnd cs ign (relatedEvents evs r))
        (foldl (reveal_step sha r rnd cs) \<lparr>rl_ignored = [], rl_ballots = [], rl_revealed = []\<rparr> (?timely evs))" for cs ign
      unfolding countBallots_def by (rule late_reveals) (simp add: same_ballots_def)
    then show ?thesis by (simp add: tally_ballots_def case_prod_unfold Let_def cs same_ballots_def)
  qed
  then show ?thesis using assms(2) by simp
qed

lemma timely_append:
  assumes "list_all (late rnd) extra"
  shows "filter (\<lambda>e. \<not> late rnd e) (relatedEvents (events @ extra) r) = filter (\<lambda>e. \<not> late rnd e) (relatedEvents events r)"
proof -
  have "filter Q extra = []" if "\<And>e. Q e \<Longrightarrow> \<not> late rnd e" for Q
    using assms that by (auto simp: filter_empty_conv list_all_iff)
  from this [of "\<lambda>x. (ev_path x = ''commit'' \<or> ev_path x = ''reveal'') \<and> jget (ev_body x) ''round'' = Some (JStr r) \<and> \<not> late rnd x"]
  show ?thesis by (simp add: relatedEvents_def filter_sort_key)
qed

lemma statusAt_final:
  "is_final (statusAt rnd now n) \<Longrightarrow> now \<le> now' \<Longrightarrow> statusAt rnd now' n = statusAt rnd now n"
  by (auto simp: is_final_def statusAt_def split: if_splits)

lemma find_append_Some: "find P xs = Some x \<Longrightarrow> find P (xs @ ys) = Some x"
  by (induction xs) auto

lemma resolveRound_append: "resolveRound events r = Inr p \<Longrightarrow> resolveRound (events @ extra) r = Inr p"
  by (auto simp: resolveRound_def find_append_Some split: option.splits)

section \<open>Bookkeeping\<close>

lemma mset_jset:
  "distinct (map fst m) \<Longrightarrow>
   mset (map f (jset k v m)) + (case jget m k of None \<Rightarrow> {#} | Some old \<Rightarrow> {#f (k, old)#}) = add_mset (f (k, v)) (mset (map f m))"
proof (induction m)
  case (Cons p m)
  then show ?case
    by (cases p) (auto simp: add_mset_commute dest: weak_map_of_SomeI split: option.splits)
qed simp

definition commits_pins :: "(string \<times> string) list \<times> commits \<Rightarrow> string multiset" where
  "commits_pins st = mset (map fst (fst st)) + mset (map (\<lambda>(_, c). fst c) (snd st))"

lemma commit_step_pins:
  assumes "distinct (map fst (snd st))" "ev_path e = ''commit''"
  shows "commits_pins (commit_step re rnd st e) = add_mset (ev_pinId e) (commits_pins st)"
proof -
  obtain ign cs where st: "st = (ign, cs)" by (cases st)
  show ?thesis
  proof (cases "commitRefusal re rnd e")
    case None
    have "mset (map (\<lambda>(_, c). fst c) (jset (ev_author e) (ev_pinId e, commit_hash_of e) cs)) +
        (case jget cs (ev_author e) of None \<Rightarrow> {#} | Some old \<Rightarrow> {#fst old#}) =
        add_mset (ev_pinId e) (mset (map (\<lambda>(_, c). fst c) cs))"
      using mset_jset [of cs "\<lambda>(_, c). fst c" "ev_author e" "(ev_pinId e, commit_hash_of e)"] assms(1)
      by (cases "jget cs (ev_author e)") (simp_all add: st case_prod_unfold del: mset_map)
    then show ?thesis
      by (cases "jget cs (ev_author e)")
         (auto simp: st commit_step_def None assms(2) commits_pins_def ac_simps simp del: mset_map)
  qed (simp add: st commit_step_def assms(2) commits_pins_def)
qed

lemma commit_step_distinct: "distinct (map fst (snd st)) \<Longrightarrow> distinct (map fst (snd (commit_step re rnd st e)))"
  by (cases st) (auto simp: commit_step_def intro: distinct_jset split: option.splits)

lemma commits_foldl_pins:
  "commits_pins (foldl (commit_step re rnd) ([], []) es) = mset (map ev_pinId (filter (\<lambda>e. ev_path e = ''commit'') es))
   \<and> distinct (map fst (snd (foldl (commit_step re rnd) ([], []) es)))"
proof (induction es rule: rev_induct)
  case (snoc e es)
  then show ?case
    by (cases "ev_path e = ''commit''") (simp_all add: commit_step_pins commit_step_distinct commit_step_path)
qed (simp add: commits_pins_def)

lemma reveals_foldl_pins:
  "mset (map fst (rl_ignored (foldl (reveal_step sha r rnd cs) st es))) +
   mset (map ct_revealPinId (rl_ballots (foldl (reveal_step sha r rnd cs) st es))) =
   mset (map fst (rl_ignored st)) + mset (map ct_revealPinId (rl_ballots st)) +
   mset (map ev_pinId (filter (\<lambda>e. ev_path e = ''reveal'') es))"
proof (induction es rule: rev_induct)
  case (snoc e es)
  then show ?case
    by (cases "ev_path e = ''reveal''") (auto simp: reveal_step_def split: sum.splits)
qed simp

end
