(* ===== verification/PrefProps.thy ===== *)
theory PrefProps
  imports PrefCount
begin

text \<open>
  Properties of the preference protocol: comparisons settled from sealed ballots, and the lessons
  drawn from them.
\<close>

section \<open>A concrete comparison\<close>

text \<open>A stand-in for SHA-256 with 64 digits; pin ids and judge ids of the shapes the parsers ask for.\<close>

definition digit_hash :: "string \<Rightarrow> string" where
  "digit_hash s = replicate 64 (digit_char (int (length s) mod 10))"

definition pin_of :: "char \<Rightarrow> string" where "pin_of c = replicate 64 c @ ''i0''"
definition judge_of :: "char \<Rightarrow> string" where "judge_of c = ''idq1'' @ replicate 20 c"

definition pref_ev :: "char \<Rightarrow> string \<Rightarrow> string \<Rightarrow> int \<Rightarrow> body \<Rightarrow> chain_event" where
  "pref_ev c path author sec b = \<lparr>ev_pinId = pin_of c, ev_path = path, ev_author = author, ev_height = sec,
     ev_txIndex = 0, ev_timestampMs = sec * 1000, ev_body = b\<rparr>"

definition candidate_json :: "string \<Rightarrow> char \<Rightarrow> char \<Rightarrow> json" where
  "candidate_json cid ref author = JObj [(''id'', JStr cid), (''ref'', JStr (pin_of ref)),
     (''artifact'', JStr (''pin://'' @ cid)), (''author'', JStr (judge_of author))]"

definition round_ev :: chain_event where
  "round_ev = pref_ev CHR ''a'' ''round'' (judge_of CHR ''p'') 0
     [(''title'', JStr ''Which is better''), (''category'', JArr [JStr ''code:test'']),
      (''subject'', JObj [(''taskid'', JStr (pin_of CHR ''f'')), (''node'', JStr ''n1'')]),
      (''candidates'', JArr [candidate_json ''x'' CHR ''1'' CHR ''x'', candidate_json ''y'' CHR ''2'' CHR ''y'']),
      (''judges'', JArr [JObj [(''id'', JStr (judge_of CHR ''j'')), (''kind'', JStr ''human'')],
                         JObj [(''id'', JStr (judge_of CHR ''y'')), (''kind'', JStr ''ai'')]]),
      (''decision'', JObj [(''kinds'', JArr [JStr ''human'', JStr ''ai'']), (''minBallots'', JNum 1)]),
      (''commitCloseAt'', JNum 3600), (''revealCloseAt'', JNum 7200)]"

definition pick_ballot :: "string \<Rightarrow> json" where
  "pick_ballot pick = JObj [(''pairs'', JArr [JObj [(''a'', JStr ''x''), (''b'', JStr ''y''), (''pick'', JStr pick),
     (''reason'', JStr ''clearer'')]])]"

definition commit_ev :: "char \<Rightarrow> char \<Rightarrow> string \<Rightarrow> int \<Rightarrow> chain_event" where
  "commit_ev c judge pick sec = pref_ev c ''commit'' (judge_of judge) sec
     [(''round'', JStr (pin_of CHR ''a'')),
      (''hash'', JStr (ballotCommitHash digit_hash (pin_of CHR ''a'') (judge_of judge) (replicate 64 CHR ''5'') (pick_ballot pick)))]"

definition reveal_ev :: "char \<Rightarrow> char \<Rightarrow> char \<Rightarrow> string \<Rightarrow> int \<Rightarrow> chain_event" where
  "reveal_ev c commit judge pick sec = pref_ev c ''reveal'' (judge_of judge) sec
     [(''round'', JStr (pin_of CHR ''a'')), (''commit'', JStr (pin_of commit)),
      (''salt'', JStr (replicate 64 CHR ''5'')), (''ballot'', pick_ballot pick)]"

text \<open>Judge j changes their mind before the commits close; candidate y's author votes for their own.\<close>

definition pref_pool :: "chain_event list" where
  "pref_pool = [round_ev, commit_ev CHR ''b'' CHR ''j'' ''b'' 1000, commit_ev CHR ''c'' CHR ''j'' ''a'' 2000,
     commit_ev CHR ''d'' CHR ''y'' ''b'' 2100, reveal_ev CHR ''e'' CHR ''c'' CHR ''j'' ''a'' 4000,
     reveal_ev CHR ''9'' CHR ''d'' CHR ''y'' ''b'' 4100]"

definition demo_round :: round_body where
  "demo_round = (case resolveRound pref_pool (pin_of CHR ''a'') of Inr (_, rnd) \<Rightarrow> rnd)"

abbreviation demo_pin :: string where "demo_pin \<equiv> pin_of CHR ''a''"

definition demo_related :: "chain_event list" where "demo_related = relatedEvents pref_pool demo_pin"

definition demo_tally :: tally_result where
  "demo_tally = tallyRelated digit_hash demo_pin round_ev demo_round 20000 demo_related"

definition demo_pair :: ballot_pair where
  "demo_pair = \<lparr>bp_a = ''x'', bp_b = ''y'', bp_pick = PickA, bp_reason = ''clearer'', bp_dims = None\<rparr>"

definition demo_ballots :: "counted_ballot list" where
  "demo_ballots =
     [\<lparr>ct_author = judge_of CHR ''j'', ct_commitPinId = pin_of CHR ''c'', ct_revealPinId = pin_of CHR ''e'',
       ct_class = Deciding, ct_kind = Some Human, ct_pairs = [demo_pair]\<rparr>,
      \<lparr>ct_author = judge_of CHR ''y'', ct_commitPinId = pin_of CHR ''d'', ct_revealPinId = pin_of CHR ''9'',
       ct_class = Deciding, ct_kind = Some Ai, ct_pairs = []\<rparr>]"

definition demo_commits :: commits where
  "demo_commits = snd (effectiveCommits round_ev demo_round demo_related)"

lemma demo_resolved: "resolveRound pref_pool demo_pin = Inr (round_ev, demo_round)"
proof -
  have "(case resolveRound pref_pool demo_pin of Inl _ \<Rightarrow> False | Inr (e, _) \<Rightarrow> e = round_ev)" by code_simp
  then show ?thesis unfolding demo_round_def by (auto split: sum.splits prod.splits)
qed

lemma demo_tallied: "tallyRound digit_hash pref_pool demo_pin 20000 = Inr demo_tally"
  by (simp add: tallyRound_def demo_resolved demo_tally_def demo_related_def)

lemma demo_ignored: "map snd (fst (effectiveCommits round_ev demo_round demo_related)) = [''commit:superseded'']"
  by code_simp

lemma demo_counted: "rl_ballots (countBallots digit_hash demo_pin demo_round demo_commits [] demo_related) = demo_ballots"
  by code_simp

lemma countBallots_ign: "rl_ballots (countBallots sha r rnd cs ign es) = rl_ballots (countBallots sha r rnd cs [] es)"
proof -
  have "same_ballots (foldl (reveal_step sha r rnd cs) st es) (foldl (reveal_step sha r rnd cs) st' es)"
    if "same_ballots st st'" for st st'
    using that by (induction es arbitrary: st st') (simp_all add: same_ballots_step)
  then show ?thesis by (simp add: countBallots_def same_ballots_def)
qed

lemma demo_ballots: "tally_ballots digit_hash pref_pool demo_pin round_ev demo_round = demo_ballots"
  using demo_counted countBallots_ign
  by (simp add: tally_ballots_def case_prod_unfold Let_def demo_related_def demo_commits_def) metis

lemma demo_output: "tr_output demo_tally = tallyOutputOf demo_pin demo_round demo_ballots 20000"
  using demo_tallied demo_resolved by (auto simp: tallyRound_Inr demo_ballots)

lemma demo_facts:
  "to_status (tr_output demo_tally) = Decided" "to_winner (tr_output demo_tally) = Some ''x''"
  "map je_pairs (to_judges (tr_output demo_tally)) = [1, 0]"
  "map rk_copeland (to_ranking (tr_output demo_tally)) = [2, 0]"
  unfolding demo_output by code_simp+

section \<open>Rounds\<close>

text \<open>C30. A round the tally settles is well formed: 2 to 8 candidates with distinct ids and pins, 1 to
  32 distinct judges, distinct deciding kinds, a ballot minimum of 1 to 32, at most 6 distinct
  dimensions, and windows of at least an hour each, counted from the confirmed round event.\<close>

lemma settled_round_is_well_formed:
  assumes "resolveRound events r = Inr (e, rnd)"
  shows "round_ok (toSec (ev_timestampMs e)) rnd \<and> e \<in> set events \<and> ev_pinId e = r \<and> ev_path e = ''round'' \<and> 0 \<le> ev_height e"
  using resolveRound_ok [OF assms] resolveRound_Inr [OF assms] by blast

lemma settled_round_is_well_formed_witness:
  "round_ok (toSec (ev_timestampMs round_ev)) demo_round"
  using settled_round_is_well_formed [OF demo_resolved] by blast

section \<open>Ballots\<close>

lemma find_map_entry:
  assumes "\<And>x. key (g x) = k x"
  shows "find (\<lambda>y. key y = a) (map g xs) = map_option g (find (\<lambda>x. k x = a) xs)"
  by (induction xs) (simp_all add: assms)

lemma judgeEntry_sel [simp]:
  "je_id (judgeEntry m own ct) = ct_author ct" "je_commit (judgeEntry m own ct) = ct_commitPinId ct"
  "je_reveal (judgeEntry m own ct) = ct_revealPinId ct" "je_class (judgeEntry m own ct) = ct_class ct"
  "je_pairs (judgeEntry m own ct) = length (ct_pairs ct)"
  by (simp_all add: judgeEntry_def Let_def)

lemma judges_find:
  assumes "distinct (map ct_author bs)"
  shows "find (\<lambda>j. je_id j = a) (to_judges (tallyOutputOf r rnd bs now)) =
    map_option (judgeEntry (decidingMatrix (map cd_id (rd_candidates rnd)) bs)
      (ownContribution (map cd_id (rd_candidates rnd)) bs)) (ballot_of a bs)"
proof -
  let ?g = "judgeEntry (decidingMatrix (map cd_id (rd_candidates rnd)) bs) (ownContribution (map cd_id (rd_candidates rnd)) bs)"
  have "find (\<lambda>j. je_id j = a) (sort_key je_id (map ?g bs)) = find (\<lambda>j. je_id j = a) (map ?g bs)"
  proof (rule find_unique_perm [where g = je_id and k = a])
    have "mset (map je_id (sort_key je_id (map ?g bs))) = mset (map ct_author bs)" by (simp add: image_mset.compositionality comp_def)
    then show "distinct (map je_id (sort_key je_id (map ?g bs)))" using assms mset_eq_imp_distinct_iff by blast
  qed simp_all
  then show ?thesis using find_map_entry [of je_id ?g ct_author a bs]
    by (simp add: tallyOutputOf_def Let_def ballot_of_def)
qed

text \<open>C22. The judges of a tally are exactly those with a sealed ballot: a last valid commit (confirmed,
  after the round, before the commits close) that a confirmed reveal of theirs between the two
  closes opens with the right salt and a valid ballot; the first such reveal is the one counted.\<close>

lemma tally_counts_sealed_ballots:
  assumes "tallyRound sha events r now = Inr t" "resolveRound events r = Inr (re, rnd)"
  shows "map_option (\<lambda>j. (je_commit j, je_reveal j, je_class j, je_pairs j)) (find (\<lambda>j. je_id j = a) (to_judges (tr_output t))) =
    map_option (\<lambda>ct. (ct_commitPinId ct, ct_revealPinId ct, ct_class ct, length (ct_pairs ct)))
      (sealed_ballot sha r re rnd (relatedEvents events r) a)"
proof -
  have "tr_output t = tallyOutputOf r rnd (tally_ballots sha events r re rnd) now"
    using assms by (auto simp: tallyRound_Inr)
  then show ?thesis
    by (simp add: judges_find [OF tally_ballots_ok] tally_ballots_spec option.map_comp comp_def)
qed

lemma tally_counts_sealed_ballots_witness:
  "map_option (\<lambda>ct. (ct_commitPinId ct, ct_revealPinId ct, ct_class ct, length (ct_pairs ct)))
     (sealed_ballot digit_hash demo_pin round_ev demo_round (relatedEvents pref_pool demo_pin) (judge_of CHR ''j'')) =
   Some (pin_of CHR ''c'', pin_of CHR ''e'', Deciding, 1)"
proof -
  have "map_option (\<lambda>j. (je_commit j, je_reveal j, je_class j, je_pairs j))
      (find (\<lambda>j. je_id j = judge_of CHR ''j'') (to_judges (tr_output demo_tally))) =
    Some (pin_of CHR ''c'', pin_of CHR ''e'', Deciding, 1)"
    unfolding demo_output by code_simp
  then show ?thesis using tally_counts_sealed_ballots [OF demo_tallied demo_resolved] by simp
qed

text \<open>C27. An honest judge is counted: if a judge's last valid commit is followed by a confirmed reveal in
  the reveal window that names it, carries the salt and ballot it was sealed with, and the ballot
  is valid for the round, then the judge is among the judges of the tally.\<close>

lemma honest_judge_is_counted:
  assumes "tallyRound sha events r now = Inr t" "resolveRound events r = Inr (re, rnd)"
    "last_commit re rnd (ev_author e) (relatedEvents events r) = Some (pin, h)"
    "e \<in> set (relatedEvents events r)" "ev_path e = ''reveal''" "0 \<le> ev_height e"
    "rd_commitCloseAt rnd < toSec (ev_timestampMs e)" "toSec (ev_timestampMs e) \<le> rd_revealCloseAt rnd"
    "parseRevealEnvelope (JObj (ev_body e)) = Inr env" "rv_commit env = pin"
    "ballotCommitHash sha r (ev_author e) (rv_salt env) (JObj (rv_ballot env)) = h"
    "checkBallot (JObj (rv_ballot env)) rnd = Inr b"
  shows "ev_author e \<in> set (map je_id (to_judges (tr_output t)))"
proof -
  let ?a = "ev_author e" and ?rel = "relatedEvents events r"
  have open1: "opens sha r rnd (last_commit re rnd ?a ?rel) e \<noteq> None"
    using assms(3,5-12) by (simp add: opens_def)
  have "sealed_ballot sha r re rnd ?rel ?a \<noteq> None"
  proof -
    have "first_some f xs \<noteq> None" if "x \<in> set xs" "f x \<noteq> None" for f :: "chain_event \<Rightarrow> counted_ballot option" and x xs
      using that by (induction xs) (auto split: option.splits)
    from this [OF assms(4)] open1 show ?thesis by (simp add: sealed_ballot_def)
  qed
  then have "ballot_of ?a (tally_ballots sha events r re rnd) \<noteq> None" by (simp add: tally_ballots_spec)
  moreover have "tr_output t = tallyOutputOf r rnd (tally_ballots sha events r re rnd) now"
    using assms(1,2) by (auto simp: tallyRound_Inr)
  ultimately show ?thesis by (auto simp: tallyOutputOf_def Let_def ballot_of_None image_iff)
qed

lemma honest_judge_is_counted_witness:
  "judge_of CHR ''j'' \<in> set (map je_id (to_judges (tr_output demo_tally)))"
proof -
  let ?e = "reveal_ev CHR ''e'' CHR ''c'' CHR ''j'' ''a'' 4000"
  let ?env = "\<lparr>rv_round = demo_pin, rv_commit = pin_of CHR ''c'', rv_salt = replicate 64 CHR ''5'',
      rv_ballot = the (record_of (Some (pick_ballot ''a'')))\<rparr>"
  have au: "ev_author ?e = judge_of CHR ''j''" by code_simp
  have c: "last_commit round_ev demo_round (ev_author ?e) demo_related =
      Some (pin_of CHR ''c'', ballotCommitHash digit_hash demo_pin (judge_of CHR ''j'') (replicate 64 CHR ''5'') (pick_ballot ''a''))"
    by code_simp
  have i: "?e \<in> set demo_related" by code_simp
  have f: "ev_path ?e = ''reveal''" "0 \<le> ev_height ?e" "rd_commitCloseAt demo_round < toSec (ev_timestampMs ?e)"
    "toSec (ev_timestampMs ?e) \<le> rd_revealCloseAt demo_round" by code_simp+
  have v: "parseRevealEnvelope (JObj (ev_body ?e)) = Inr ?env" "rv_commit ?env = pin_of CHR ''c''" by code_simp+
  have h: "ballotCommitHash digit_hash demo_pin (ev_author ?e) (rv_salt ?env) (JObj (rv_ballot ?env)) =
      ballotCommitHash digit_hash demo_pin (judge_of CHR ''j'') (replicate 64 CHR ''5'') (pick_ballot ''a'')" by code_simp
  have b: "checkBallot (JObj (rv_ballot ?env)) demo_round = Inr \<lparr>bl_pairs = [demo_pair], bl_note = None\<rparr>" by code_simp
  have "ev_author ?e \<in> set (map je_id (to_judges (tr_output demo_tally)))"
    by (rule honest_judge_is_counted [OF demo_tallied demo_resolved c [unfolded demo_related_def] i [unfolded demo_related_def] f v h b])
  then show ?thesis by (simp only: au)
qed

section \<open>The ranking\<close>

lemma tally_ranking:
  assumes "tallyRound sha events r now = Inr t" "resolveRound events r = Inr (re, rnd)"
  shows "to_ranking (tr_output t) =
    rankingOf rnd (decidingMatrix (map cd_id (rd_candidates rnd)) (tally_ballots sha events r re rnd))"
  using assms by (auto simp: tallyRound_Inr tallyOutputOf_def Let_def)

text \<open>The ranking lists every candidate once and hands out a fixed sum: the Copeland scores of n
  candidates add up to n (n - 1), and the points to two for every pair a deciding judge compared.\<close>

lemma ranking_is_balanced:
  assumes "tallyRound sha events r now = Inr t" "resolveRound events r = Inr (re, rnd)"
  shows "mset (map rk_id (to_ranking (tr_output t))) = mset (map cd_id (rd_candidates rnd)) \<and>
    sum_list (map rk_copeland (to_ranking (tr_output t))) =
      int (length (rd_candidates rnd)) * (int (length (rd_candidates rnd)) - 1) \<and>
    sum_list (map rk_points (to_ranking (tr_output t))) =
      2 * int (length (deciding_pairs (tally_ballots sha events r re rnd)))"
proof -
  have "distinct (map cd_id (rd_candidates rnd))" using resolveRound_ok [OF assms(2)] by (simp add: round_ok_def)
  then show ?thesis
    unfolding tally_ranking [OF assms] using copeland_sum points_sum tally_ballots_ok_pairs ranking_ids by blast
qed

lemma ranking_is_balanced_witness:
  "sum_list (map rk_copeland (to_ranking (tr_output demo_tally))) = 2 \<and>
   sum_list (map rk_points (to_ranking (tr_output demo_tally))) = 2"
proof -
  have l: "length (rd_candidates demo_round) = 2" by code_simp
  have p: "length (deciding_pairs demo_ballots) = 1" by code_simp
  show ?thesis using ranking_is_balanced [OF demo_tallied demo_resolved] by (simp add: demo_ballots l p)
qed

text \<open>C23. A decided tally names the best candidate: the reveal window and the grace period are over,
  enough deciding judges cast a counted pair, and no candidate has a higher Copeland score, nor as
  high a score and more points.\<close>

lemma decided_winner_is_best:
  assumes "tallyRound sha events r now = Inr t" "resolveRound events r = Inr (re, rnd)"
    "to_status (tr_output t) = Decided" "e \<in> set (to_ranking (tr_output t))"
  shows "\<exists>w \<in> set (to_ranking (tr_output t)). to_winner (tr_output t) = Some (rk_id w) \<and>
      rk_copeland e \<le> rk_copeland w \<and> (rk_copeland e = rk_copeland w \<longrightarrow> rk_points e \<le> rk_points w) \<and>
      rd_revealCloseAt rnd + 7200 < now \<and> rd_minBallots rnd \<le> int (to_deciding (tr_output t))"
proof -
  let ?rk = "to_ranking (tr_output t)"
  have out: "tr_output t = tallyOutputOf r rnd (tally_ballots sha events r re rnd) now"
    using assms(1,2) by (auto simp: tallyRound_Inr)
  have st: "statusAt rnd now (to_deciding (tr_output t)) = Decided" and win: "to_winner (tr_output t) = Some (rk_id (hd ?rk))"
    using assms(3) by (simp_all add: out tallyOutputOf_def Let_def)
  have "rd_revealCloseAt rnd + 7200 < now \<and> rd_minBallots rnd \<le> int (to_deciding (tr_output t))"
    using st by (auto simp: statusAt_def FINALITY_GRACE_SEC_def split: if_splits)
  moreover have "rk_copeland e \<le> rk_copeland (hd ?rk) \<and> (rk_copeland e = rk_copeland (hd ?rk) \<longrightarrow> rk_points e \<le> rk_points (hd ?rk))"
    using ranking_head [OF assms(4) [unfolded tally_ranking [OF assms(1,2)]]]
    unfolding tally_ranking [OF assms(1,2)] by auto
  moreover have "hd ?rk \<in> set ?rk" using assms(4) by (cases ?rk) auto
  ultimately show ?thesis using win by blast
qed

lemma decided_winner_is_best_witness:
  "\<exists>w \<in> set (to_ranking (tr_output demo_tally)). rk_id w = ''x'' \<and>
     rk_copeland (last (to_ranking (tr_output demo_tally))) \<le> rk_copeland w"
proof -
  have "to_ranking (tr_output demo_tally) \<noteq> []" using demo_facts(4) by auto
  then have "last (to_ranking (tr_output demo_tally)) \<in> set (to_ranking (tr_output demo_tally))" by simp
  from decided_winner_is_best [OF demo_tallied demo_resolved demo_facts(1) this] demo_facts(2) show ?thesis by auto
qed

lemma candidateAuthor_get:
  assumes "distinct (map cd_id (rd_candidates rnd))" "c \<in> set (rd_candidates rnd)"
  shows "candidateAuthor rnd (cd_id c) = Some (cd_author c)"
proof -
  have "jget (foldl (\<lambda>m c. jset (cd_id c) (cd_author c) m) m cs) (cd_id c) = Some (cd_author c)"
    if "c \<in> set cs" "distinct (map cd_id cs)" for m cs
    using that by (induction cs rule: rev_induct) (auto simp: image_iff)
  then show ?thesis using assms by (simp add: candidateAuthor_def)
qed

lemma pick_points_0: "bp_a p \<noteq> x \<Longrightarrow> bp_b p \<noteq> x \<Longrightarrow> pick_points p x y = 0 \<and> pick_points p y x = 0"
  by (auto simp: pick_points_def)

lemma picks_points_0:
  assumes "\<And>p. p \<in> set ps \<Longrightarrow> bp_a p \<noteq> x \<and> bp_b p \<noteq> x"
  shows "picks_points ps x y = 0 \<and> picks_points ps y x = 0"
  using assms unfolding picks_points_def by (induction ps) (simp_all add: pick_points_0)

lemma picks_points_append: "picks_points (ps @ qs) x y = picks_points ps x y + picks_points qs x y"
  by (simp add: picks_points_def)

text \<open>C24. Nobody votes for their own: the points a candidate takes from an opponent, or yields to one,
  come from the ballots of deciding judges other than the candidate's author.\<close>

lemma own_ballot_does_not_count:
  assumes "resolveRound events r = Inr (re, rnd)" "c \<in> set (rd_candidates rnd)"
    "bs = tally_ballots sha events r re rnd" "m = decidingMatrix (map cd_id (rd_candidates rnd)) bs"
    "others = concat (map ct_pairs (filter (\<lambda>ct. ct_author ct \<noteq> cd_author c) (decidingBallots bs)))"
  shows "cell m (cd_id c) y = picks_points others (cd_id c) y \<and> cell m y (cd_id c) = picks_points others y (cd_id c)"
proof -
  have ca: "candidateAuthor rnd (cd_id c) = Some (cd_author c)"
    using candidateAuthor_get resolveRound_ok [OF assms(1)] assms(2) by (simp add: round_ok_def)
  have own: "picks_points (ct_pairs ct) (cd_id c) z = 0 \<and> picks_points (ct_pairs ct) z (cd_id c) = 0"
    if "ct \<in> set bs" "ct_author ct = cd_author c" for ct z
    by (rule picks_points_0) (use tally_ballots_pairs(4) [of ct] that ca assms(3) in fastforce)
  have drop: "picks_points (concat (map ct_pairs cs)) x z =
      picks_points (concat (map ct_pairs (filter (\<lambda>ct. ct_author ct \<noteq> cd_author c) cs))) x z"
    if "\<forall>ct \<in> set cs. ct_author ct = cd_author c \<longrightarrow> picks_points (ct_pairs ct) x z = 0" for cs x z
    using that by (induction cs) (auto simp: picks_points_append)
  have "\<forall>ct \<in> set (decidingBallots bs). ct_author ct = cd_author c \<longrightarrow>
      picks_points (ct_pairs ct) (cd_id c) z = 0 \<and> picks_points (ct_pairs ct) z (cd_id c) = 0" for z
    using own by (simp add: decidingBallots_def)
  then show ?thesis
    using cell_decidingMatrix [OF tally_ballots_ok_pairs, of rnd sha events r re] drop [of "decidingBallots bs"]
    unfolding assms(3-5) deciding_pairs_def by simp
qed

lemma own_ballot_does_not_count_witness:
  "cell (decidingMatrix (map cd_id (rd_candidates demo_round)) demo_ballots) ''y'' ''x'' = 0 \<and>
   map ct_author (decidingBallots demo_ballots) = [judge_of CHR ''j'', judge_of CHR ''y'']"
proof -
  let ?c = "rd_candidates demo_round ! 1"
  have c: "?c \<in> set (rd_candidates demo_round)" "cd_id ?c = ''y''" by code_simp+
  have z: "picks_points (concat (map ct_pairs (filter (\<lambda>ct. ct_author ct \<noteq> cd_author ?c) (decidingBallots demo_ballots)))) ''y'' ''x'' = 0"
    by code_simp
  show ?thesis
    using own_ballot_does_not_count [OF demo_resolved c(1) demo_ballots [symmetric] refl refl, of "''x''"] z
    by (simp add: c(2)) code_simp
qed

section \<open>Judges\<close>

lemma agreement_fraction:
  assumes "0 \<le> h" "h \<le> n" "n \<le> (28 :: int)"
  shows "0 < (10000 * (h + 1)) div (n + 2) \<and> (10000 * (h + 1)) div (n + 2) < 10000"
proof -
  let ?q = "(10000 * (h + 1)) div (n + 2)"
  have "?q * (n + 2) \<le> 10000 * (h + 1)"
    using div_mult_mod_eq [of "10000 * (h + 1)" "n + 2"] pos_mod_sign [of "n + 2" "10000 * (h + 1)"] assms by linarith
  moreover have "10000 * (n + 2) \<le> ?q * (n + 2)" if "10000 \<le> ?q"
    by (rule mult_right_mono [OF that]) (use assms in simp)
  ultimately have "?q < 10000" using assms by fastforce
  then show ?thesis using assms by (simp add: pos_imp_zdiv_pos_iff)
qed

text \<open>C31. The agreement of a judge is a Laplace estimate of hits over comparisons, strictly between 0 and
  10000 basis points; hits never exceed comparisons, nor these the judge's at most 28 pairs.\<close>

lemma agreement_is_bounded:
  assumes "tallyRound sha events r now = Inr t" "j \<in> set (to_judges (tr_output t))"
  shows "0 < je_agreementBP j \<and> je_agreementBP j < 10000 \<and> 0 \<le> je_agreeHits j \<and> je_agreeHits j \<le> je_agreeN j \<and>
    je_agreeN j \<le> int (je_pairs j) \<and> je_pairs j \<le> 28"
proof -
  from assms(1) obtain re rnd where rs: "resolveRound events r = Inr (re, rnd)"
    and out: "tr_output t = tallyOutputOf r rnd (tally_ballots sha events r re rnd) now"
    by (auto simp: tallyRound_Inr)
  from assms(2) obtain m own ct where ct: "ct \<in> set (tally_ballots sha events r re rnd)" "j = judgeEntry m own ct"
    by (auto simp: out tallyOutputOf_def Let_def)
  let ?ref = "if ct_class ct = Deciding then subtractMatrix m (jget own (ct_author ct)) else m"
  let ?judged = "filter (\<lambda>p. strictWinner ?ref (bp_a p) (bp_b p) \<noteq> None) (ct_pairs ct)"
  let ?hits = "length (filter (\<lambda>p. pickedId p = strictWinner ?ref (bp_a p) (bp_b p)) ?judged)"
  have sel: "je_agreeN j = int (length ?judged)" "je_agreeHits j = int ?hits"
    "je_agreementBP j = (10000 * (je_agreeHits j + 1)) div (je_agreeN j + 2)"
    by (simp_all add: ct(2) judgeEntry_def Let_def count_if_filter del: filter_filter)
  have h: "?hits \<le> length ?judged" by (rule length_filter_le)
  have n: "length ?judged \<le> length (ct_pairs ct)" by (rule length_filter_le)
  have p: "length (ct_pairs ct) \<le> 28" using tally_ballots_pairs(1) [OF ct(1)] .
  have le: "0 \<le> je_agreeHits j" "je_agreeHits j \<le> je_agreeN j" using sel h by simp_all
  have "je_agreeN j \<le> int 28" unfolding sel(1) of_nat_le_iff by (rule le_trans [OF n p])
  then have small: "je_agreeN j \<le> 28" by simp
  have "0 < je_agreementBP j \<and> je_agreementBP j < 10000"
    unfolding sel(3) by (rule agreement_fraction) (use le small in simp_all)
  moreover have "je_agreeN j \<le> int (je_pairs j)" unfolding sel(1) using n by (simp add: ct(2))
  ultimately show ?thesis using le p by (simp add: ct(2))
qed

lemma agreement_is_bounded_witness:
  "0 < je_agreementBP (hd (to_judges (tr_output demo_tally))) \<and> je_agreementBP (hd (to_judges (tr_output demo_tally))) < 10000"
proof -
  have "to_judges (tr_output demo_tally) \<noteq> []" using demo_facts(3) by auto
  then have "hd (to_judges (tr_output demo_tally)) \<in> set (to_judges (tr_output demo_tally))" by simp
  from agreement_is_bounded [OF demo_tallied this] show ?thesis by blast
qed

section \<open>Order and time\<close>

text \<open>C28. The settlement depends on the set of events, not on the order the indexer delivers them in.\<close>

lemma tally_is_order_free:
  assumes "distinct (map ev_pinId events)" "mset events = mset events'"
  shows "tallyRound sha events r now = tallyRound sha events' r now"
  using assms by (rule tallyRound_perm)

lemma tally_is_order_free_witness:
  "tallyRound digit_hash (rev pref_pool) demo_pin 20000 = Inr demo_tally"
proof -
  have "distinct (map ev_pinId pref_pool)" by code_simp
  from tally_is_order_free [OF this, of "rev pref_pool" digit_hash demo_pin 20000] show ?thesis
    by (simp add: demo_tallied)
qed

text \<open>C25. A final tally stands: at any later time, and with any further events that are unconfirmed or
  stamped after the reveal window, the output and its hash are the same.\<close>

lemma final_tally_stands:
  assumes "tallyRound sha events r now = Inr t" "resolveRound events r = Inr (re, rnd)"
    "is_final (to_status (tr_output t))" "now \<le> now'" "list_all (late rnd) extra"
  shows "\<exists>t'. tallyRound sha (events @ extra) r now' = Inr t' \<and> tr_output t' = tr_output t \<and> tr_tallyHash t' = tr_tallyHash t"
proof -
  let ?bs = "tally_ballots sha events r re rnd"
  have ok: "round_ok (toSec (ev_timestampMs re)) rnd" using assms(2) by (rule resolveRound_ok)
  have rs: "resolveRound (events @ extra) r = Inr (re, rnd)" using assms(2) by (rule resolveRound_append)
  have bs: "tally_ballots sha (events @ extra) r re rnd = ?bs"
    by (rule tally_ballots_timely [OF ok timely_append [OF assms(5)]])
  obtain t' where t': "tallyRound sha (events @ extra) r now' = Inr t'" by (simp add: tallyRound_def rs)
  have out: "tr_output t = tallyOutputOf r rnd ?bs now" using assms(1,2) by (auto simp: tallyRound_Inr)
  have out': "tr_output t' = tallyOutputOf r rnd ?bs now'" using t' rs by (auto simp: tallyRound_Inr bs)
  have "statusAt rnd now' (countClass ?bs Deciding) = statusAt rnd now (countClass ?bs Deciding)"
    by (rule statusAt_final) (use assms(3,4) in \<open>simp_all add: out tallyOutputOf_def Let_def\<close>)
  then have same: "tr_output t' = tr_output t" by (simp add: out out' tallyOutputOf_def Let_def)
  then have "tr_tallyHash t' = tr_tallyHash t" using assms(1) t' by (auto simp: tallyRound_Inr)
  then show ?thesis using t' same by blast
qed

lemma final_tally_stands_witness:
  "\<exists>t'. tallyRound digit_hash (pref_pool @ [reveal_ev CHR ''8'' CHR ''c'' CHR ''j'' ''b'' 9000]) demo_pin 99000 = Inr t' \<and>
     tr_output t' = tr_output demo_tally \<and> tr_tallyHash t' = tr_tallyHash demo_tally"
proof -
  have fin: "is_final (to_status (tr_output demo_tally))" by (simp add: demo_facts(1) is_final_def)
  have lt: "list_all (late demo_round) [reveal_ev CHR ''8'' CHR ''c'' CHR ''j'' ''b'' 9000]" by code_simp
  show ?thesis by (rule final_tally_stands [OF demo_tallied demo_resolved fin _ lt]) simp
qed

lemma multiset_shift: "i + cm = (A :: 'a multiset) \<Longrightarrow> ign + bs = i + B \<Longrightarrow> A + B = ign + cm + bs"
  by (metis add.assoc add.commute)

text \<open>C29. No commit or reveal is dropped in silence: the pins of the round's commits and reveals are,
  counted with multiplicity, those of the effective commits, of the counted reveals, and of the
  events listed as ignored with a reason.\<close>

lemma every_event_is_accounted_for:
  assumes "tallyRound sha events r now = Inr t" "resolveRound events r = Inr (re, rnd)"
  shows "mset (map ev_pinId (relatedEvents events r)) =
    mset (map fst (tr_ignored t)) +
    mset (map (\<lambda>(_, c). fst c) (snd (effectiveCommits re rnd (relatedEvents events r)))) +
    mset (map ct_revealPinId (tally_ballots sha events r re rnd))"
proof -
  let ?rel = "relatedEvents events r" and ?ec = "effectiveCommits re rnd (relatedEvents events r)"
  let ?cb = "countBallots sha r rnd (snd ?ec) (fst ?ec) ?rel"
  have ign: "tr_ignored t = rl_ignored ?cb" and bs: "tally_ballots sha events r re rnd = rl_ballots ?cb"
    using assms by (auto simp: tallyRound_Inr tally_ballots_def case_prod_unfold Let_def)
  have c: "mset (map fst (fst ?ec)) + mset (map (\<lambda>(_, c). fst c) (snd ?ec)) =
      mset (map ev_pinId (filter (\<lambda>e. ev_path e = ''commit'') ?rel))"
    using commits_foldl_pins [of re rnd ?rel] by (simp add: effectiveCommits_def commits_pins_def)
  have v: "mset (map fst (rl_ignored ?cb)) + mset (map ct_revealPinId (rl_ballots ?cb)) =
      mset (map fst (fst ?ec)) + mset (map ev_pinId (filter (\<lambda>e. ev_path e = ''reveal'') ?rel))"
    unfolding countBallots_def reveals_foldl_pins by simp
  have split: "mset (map ev_pinId ?rel) =
      mset (map ev_pinId (filter (\<lambda>e. ev_path e = ''commit'') ?rel)) + mset (map ev_pinId (filter (\<lambda>e. ev_path e = ''reveal'') ?rel))"
  proof -
    have two: "mset (map ev_pinId xs) =
        mset (map ev_pinId (filter (\<lambda>e. ev_path e = ''commit'') xs)) + mset (map ev_pinId (filter (\<lambda>e. ev_path e = ''reveal'') xs))"
      if "\<forall>e \<in> set xs. ev_path e = ''commit'' \<or> ev_path e = ''reveal''" for xs
      using that by (induction xs) auto
    show ?thesis by (rule two) (auto simp: relatedEvents_def)
  qed
  show ?thesis unfolding split ign bs by (rule multiset_shift [OF c v])
qed

lemma every_event_is_accounted_for_witness:
  "size (mset (map fst (tr_ignored demo_tally))) = 1"
proof -
  have a: "length (relatedEvents pref_pool demo_pin) = 5" by code_simp
  have b: "length (snd (effectiveCommits round_ev demo_round demo_related)) = 2" by code_simp
  have c: "length demo_ballots = 2" by code_simp
  have "size (mset (map ev_pinId (relatedEvents pref_pool demo_pin))) = size (mset (map fst (tr_ignored demo_tally)) +
      mset (map (\<lambda>(_, c). fst c) (snd (effectiveCommits round_ev demo_round (relatedEvents pref_pool demo_pin)))) +
      mset (map ct_revealPinId (tally_ballots digit_hash pref_pool demo_pin round_ev demo_round)))"
    by (rule arg_cong [OF every_event_is_accounted_for [OF demo_tallied demo_resolved]])
  then show ?thesis using a b c by (simp add: demo_ballots demo_related_def)
qed

section \<open>Lessons\<close>

lemma parseExemplars_Inr:
  assumes "parseExemplars v = Inr (preferred, rejected)"
  shows "preferred \<notin> set rejected \<and> distinct rejected"
proof -
  from assms obtain kv where p: "parseArray ''lesson:exemplars'' 0 (MAX_CANDIDATES - 1) (rejected_item preferred) (jget kv ''rejected'') = Inr rejected"
    unfolding parseExemplars_def by (auto simp: parsed_bind_Inr)
  show ?thesis
    by (rule parseArray_inv [OF p]) (auto simp: rejected_item_def split: option.splits if_splits)
qed

lemma parseLesson_Inr:
  "parseLesson v = Inr l \<Longrightarrow> le_preferred l \<notin> set (le_rejected l) \<and> distinct (le_rejected l)"
  using parseExemplars_Inr unfolding parseLesson_def by (fastforce simp: parsed_bind_Inr)

text \<open>C26. A lesson that verifies is backed by its round: the round it names is decided with exactly the
  hash it cites, its preferred candidate is the winner, the rejected ones are other candidates of
  the round, and every principle cites only reveals the tally lists as evidence.\<close>

lemma verified_lesson_is_backed:
  assumes "verifyLessonPin sha events pin now = Inr lesson"
  shows "\<exists>t. tallyRound sha events (le_round lesson) now = Inr t \<and> to_status (tr_output t) = Decided \<and>
    tr_tallyHash t = Some (le_tallyHash lesson) \<and> to_winner (tr_output t) = Some (le_preferred lesson) \<and>
    le_preferred lesson \<notin> set (le_rejected lesson) \<and>
    set (le_rejected lesson) \<subseteq> set (map rk_id (to_ranking (tr_output t))) \<and>
    set (concat (map lp_evidence (le_principles lesson))) \<subseteq> set (to_evidence (tr_output t))"
proof -
  from assms obtain event :: chain_event where
    "parsed_bind (tallyRound sha events (asStr (jget (ev_body event) ''round'') '''') now)
      (checkLesson (JObj (ev_body event))) = Inr lesson"
    unfolding verifyLessonPin_def by (auto split: option.splits)
  then obtain r t where t: "tallyRound sha events r now = Inr t" and c: "checkLesson (JObj (ev_body event)) t = Inr lesson"
    unfolding parsed_bind_Inr by blast
  from c have p: "parseLesson (JObj (ev_body event)) = Inr lesson" and
    l: "le_round lesson = to_round (tr_output t)" "to_status (tr_output t) = Decided" "Some (le_tallyHash lesson) = tr_tallyHash t"
      "Some (le_preferred lesson) = to_winner (tr_output t)"
      "list_all (\<lambda>i. i \<in> set (map rk_id (to_ranking (tr_output t)))) (le_rejected lesson)"
      "list_all (\<lambda>pr. list_all (\<lambda>p. p \<in> set (to_evidence (tr_output t))) (lp_evidence pr)) (le_principles lesson)"
    by (auto simp: checkLesson_def parsed_bind_Inr Let_def split: if_splits)
  have "to_round (tr_output t) = r" using t by (auto simp: tallyRound_Inr tallyOutputOf_def Let_def)
  then show ?thesis using t l parseLesson_Inr [OF p] by (auto simp: list_all_iff)
qed

definition demo_hash :: string where
  "demo_hash = digit_hash (canonJ (output_json (tallyOutputOf demo_pin demo_round demo_ballots 20000)))"

definition lesson_ev :: chain_event where
  "lesson_ev = pref_ev CHR ''7'' ''lesson'' (judge_of CHR ''p'') 30000
     [(''round'', JStr demo_pin), (''category'', JArr [JStr ''code'']), (''summary'', JStr ''Prefer x''),
      (''principles'', JArr [JObj [(''text'', JStr ''Prefer the clearer text''), (''conditions'', JStr ''always''),
         (''uncertainty'', JStr ''''), (''evidence'', JArr [JStr (pin_of CHR ''e'')])]]),
      (''exemplars'', JObj [(''preferred'', JStr ''x''), (''rejected'', JArr [JStr ''y''])]),
      (''tallyHash'', JStr demo_hash)]"

definition demo_lesson :: lesson_body where
  "demo_lesson = \<lparr>le_round = demo_pin, le_category = [''code''], le_summary = ''Prefer x'',
     le_principles = [\<lparr>lp_text = ''Prefer the clearer text'', lp_conditions = ''always'', lp_uncertainty = '''',
       lp_evidence = [pin_of CHR ''e'']\<rparr>],
     le_preferred = ''x'', le_rejected = [''y''], le_tallyHash = demo_hash\<rparr>"

lemma tallyRound_other:
  "resolveRound events r = Inr p \<Longrightarrow> ev_path e \<noteq> ''commit'' \<Longrightarrow> ev_path e \<noteq> ''reveal'' \<Longrightarrow>
   tallyRound sha (events @ [e]) r now = tallyRound sha events r now"
  by (simp add: tallyRound_def resolveRound_append relatedEvents_def)

lemma demo_verified: "verifyLessonPin digit_hash (pref_pool @ [lesson_ev]) (pin_of CHR ''7'') 20000 = Inr demo_lesson"
proof -
  have f: "find (\<lambda>c. ev_path c = ''lesson'' \<and> ev_pinId c = pin_of CHR ''7'') (pref_pool @ [lesson_ev]) = Some lesson_ev"
    by code_simp
  have r: "asStr (jget (ev_body lesson_ev) ''round'') '''' = demo_pin" by code_simp
  have p: "parseLesson (JObj (ev_body lesson_ev)) = Inr demo_lesson" by code_simp
  have pa: "ev_path lesson_ev \<noteq> ''commit''" "ev_path lesson_ev \<noteq> ''reveal''" by code_simp+
  have t: "tallyRound digit_hash (pref_pool @ [lesson_ev]) demo_pin 20000 = Inr demo_tally"
    using tallyRound_other [OF demo_resolved pa] demo_tallied by simp
  have h: "tr_tallyHash demo_tally = Some demo_hash"
    using demo_tallied by (auto simp: tallyRound_Inr demo_output demo_facts [unfolded demo_output] is_final_def demo_hash_def)
  have i: "map rk_id (to_ranking (tr_output demo_tally)) = [''x'', ''y'']" "to_evidence (tr_output demo_tally) = [pin_of CHR ''e'']"
    "to_round (tr_output demo_tally) = demo_pin"
    unfolding demo_output by code_simp+
  have ids: "set (map rk_id (to_ranking (tr_output demo_tally))) = {''x'', ''y''}" unfolding i(1) by simp
  show ?thesis
    unfolding verifyLessonPin_def f option.case r t parsed_bind_eval checkLesson_def p ids Let_def
    by (simp add: i(2,3) h demo_facts(1,2) demo_lesson_def)
qed

lemma verified_lesson_is_backed_witness:
  "\<exists>t. tallyRound digit_hash (pref_pool @ [lesson_ev]) demo_pin 20000 = Inr t \<and> to_winner (tr_output t) = Some ''x''"
  using verified_lesson_is_backed [OF demo_verified] by (auto simp: demo_lesson_def)

lemma canonicalRound_spec:
  "canonicalRound sha events taskid node now rounds = CanonDecided p result \<Longrightarrow>
   \<exists>pre e post. rounds = pre @ e # post \<and> ev_pinId e = p \<and> tallyRound sha events p now = Inr result \<and>
     to_status (tr_output result) = Decided \<and>
     (\<exists>re rnd. resolveRound events p = Inr (re, rnd) \<and> subjectMatches rnd taskid node) \<and>
     (\<forall>e' \<in> set pre. \<forall>re rnd. resolveRound events (ev_pinId e') = Inr (re, rnd) \<and> subjectMatches rnd taskid node \<longrightarrow>
        (\<exists>t. tallyRound sha events (ev_pinId e') now = Inr t \<and> to_status (tr_output t) = NoDecision))"
proof (induction rounds)
  case (Cons e rounds)
  let ?skip = "\<forall>re rnd. resolveRound events (ev_pinId e) = Inr (re, rnd) \<and> subjectMatches rnd taskid node \<longrightarrow>
      (\<exists>t. tallyRound sha events (ev_pinId e) now = Inr t \<and> to_status (tr_output t) = NoDecision)"
  have tot: "\<exists>t. tallyRound sha events r now = Inr t" if "resolveRound events r = Inr (re, rnd)" for r re rnd
    using that by (simp add: tallyRound_def)
  show ?case
  proof (cases "?skip")
    case True
    then have "canonicalRound sha events taskid node now rounds = CanonDecided p result"
      using Cons.prems tot [of "ev_pinId e"] by (auto simp: Let_def split: sum.splits if_splits)
    from Cons.IH [OF this] obtain pre e1 post where
      "rounds = pre @ e1 # post" "ev_pinId e1 = p" "tallyRound sha events p now = Inr result"
      "to_status (tr_output result) = Decided"
      "\<exists>re rnd. resolveRound events p = Inr (re, rnd) \<and> subjectMatches rnd taskid node"
      "\<forall>e' \<in> set pre. \<forall>re rnd. resolveRound events (ev_pinId e') = Inr (re, rnd) \<and> subjectMatches rnd taskid node \<longrightarrow>
        (\<exists>t. tallyRound sha events (ev_pinId e') now = Inr t \<and> to_status (tr_output t) = NoDecision)"
      by blast
    then show ?thesis using True by (intro exI [of _ "e # pre"] exI [of _ e1] exI [of _ post]) simp
  next
    case False
    then obtain re rnd where r: "resolveRound events (ev_pinId e) = Inr (re, rnd)" "subjectMatches rnd taskid node" by blast
    from tot [OF r(1)] obtain t where t: "tallyRound sha events (ev_pinId e) now = Inr t" by blast
    have "to_status (tr_output t) \<noteq> NoDecision" using False t by auto
    then have "to_status (tr_output t) = Decided \<and> p = ev_pinId e \<and> result = t"
      using Cons.prems r t by (simp split: if_splits)
    then show ?thesis using r t by (intro exI [of _ "[]"] exI [of _ e] exI [of _ rounds]) simp
  qed
qed simp

text \<open>The canonical round of a subject is the earliest round its root author published for it that did
  not end without a decision, and it is reported as decided only when it is.\<close>

lemma canonical_round_is_earliest:
  assumes "canonicalRoundForSubject sha events taskid node rootAuthor now = CanonDecided p result"
    "rounds = sort_key pref_key (filter (\<lambda>e. ev_path e = ''round'' \<and> ev_author e = rootAuthor) events)"
  shows "\<exists>pre e post. rounds = pre @ e # post \<and> ev_pinId e = p \<and> tallyRound sha events p now = Inr result \<and>
     to_status (tr_output result) = Decided \<and>
     (\<exists>re rnd. resolveRound events p = Inr (re, rnd) \<and> subjectMatches rnd taskid node) \<and>
     (\<forall>e' \<in> set pre. \<forall>re rnd. resolveRound events (ev_pinId e') = Inr (re, rnd) \<and> subjectMatches rnd taskid node \<longrightarrow>
        (\<exists>t. tallyRound sha events (ev_pinId e') now = Inr t \<and> to_status (tr_output t) = NoDecision))"
  using canonicalRound_spec assms by (simp add: canonicalRoundForSubject_def)

lemma canonical_round_is_earliest_witness:
  "\<exists>pre e post. [round_ev] = pre @ e # post \<and> ev_pinId e = demo_pin \<and>
     tallyRound digit_hash pref_pool demo_pin 20000 = Inr demo_tally"
proof -
  have rounds: "sort_key pref_key (filter (\<lambda>e. ev_path e = ''round'' \<and> ev_author e = judge_of CHR ''p'') pref_pool) = [round_ev]"
    by code_simp
  have s: "subjectMatches demo_round (pin_of CHR ''f'') ''n1''" by code_simp
  have pin: "ev_pinId round_ev = demo_pin" by code_simp
  have "canonicalRoundForSubject digit_hash pref_pool (pin_of CHR ''f'') ''n1'' (judge_of CHR ''p'') 20000 =
      CanonDecided demo_pin demo_tally"
    unfolding canonicalRoundForSubject_def rounds by (simp add: pin demo_resolved s demo_tallied demo_facts(1) Let_def)
  from canonical_round_is_earliest [OF this refl] show ?thesis unfolding rounds by blast
qed

end
