(* ===== verification/Watch.thy ===== *)
theory Watch
  imports Store
begin

text \<open>
  metatask/watchService.ts: the heartbeat's alerts over the persisted projections. A run reads the
  store and the local roster and gives the store after it; the push hook, which gets the new
  alerts, is left out.
\<close>

section \<open>Constants and keys\<close>

definition ALERT_HORIZON_MS :: int where "ALERT_HORIZON_MS = 48 * 3600000"
definition CLAIM_TTL_SOON_MS :: rat where "CLAIM_TTL_SOON_MS = 6 * 3600000"
definition CLAIM_TTL_DEDUPE_MS :: int where "CLAIM_TTL_DEDUPE_MS = 6 * 3600000"
definition CLOSING_DRIVE_STALL_MS :: int where "CLOSING_DRIVE_STALL_MS = 24 * 3600000"
definition CLOSING_DRIVE_DEDUPE_MS :: int where "CLOSING_DRIVE_DEDUPE_MS = 24 * 3600000"

definition node_status_text :: "node_status \<Rightarrow> string" where
  "node_status_text s = (case s of StOpen \<Rightarrow> ''open'' | StClaimed \<Rightarrow> ''claimed'' | StVerified \<Rightarrow> ''verified'')"

definition statusKey :: "node_projection \<Rightarrow> string" where
  "statusKey np = node_status_text (np_status np) @ (if np_disputed np then ''+'' else '''')"

text \<open>The statuses of the last run, by \<open>root + ' ' + node\<close>.\<close>

definition prevStatuses :: "mt_store \<Rightarrow> (string, string) jsmap" where
  "prevStatuses s = foldl (\<lambda>m ((rt, node), status). jset (rt @ '' '' @ node) status m) [] (ms_watch s)"

definition recent :: "alert list \<Rightarrow> int \<Rightarrow> alert_kind \<Rightarrow> string \<Rightarrow> string \<Rightarrow> int \<Rightarrow> bool" where
  "recent existing nowMs kind rt node withinMs \<longleftrightarrow>
     list_ex (\<lambda>al. al_kind al = kind \<and> al_rootPinId al = rt \<and> al_node al = Some node \<and>
        nowMs - al_createdAtMs al < withinMs) existing"

definition mineInvolved :: "string list \<Rightarrow> node_projection \<Rightarrow> bool" where
  "mineInvolved roster np \<longleftrightarrow>
     (case np_holder np of None \<Rightarrow> False | Some h \<Rightarrow> ho_claimant h \<in> set roster) \<or>
     (case np_submission np of None \<Rightarrow> False | Some s \<Rightarrow> sv_submitter s \<in> set roster)"

section \<open>The three alerts\<close>

record watch_ctx =
  wt_roster :: "string list"
  wt_prev :: "(string, string) jsmap"
  wt_existing :: "alert list"
  wt_now :: int

definition changeAlert :: "watch_ctx \<Rightarrow> task_projection \<Rightarrow> node_projection \<Rightarrow> alert list" where
  "changeAlert w p np =
     (case jget (wt_prev w) (tp_rootPinId p @ '' '' @ np_id np) of
        None \<Rightarrow> []
      | Some prevKey \<Rightarrow>
          if prevKey \<noteq> '''' \<and> prevKey \<noteq> statusKey np
          then [\<lparr>al_kind = SubmissionChange, al_rootPinId = tp_rootPinId p, al_node = Some (np_id np),
                 al_detail = Some (prevKey @ ''->'' @ statusKey np), al_createdAtMs = wt_now w\<rparr>]
          else [])"

definition claimDeadline :: "task_projection \<Rightarrow> holder \<Rightarrow> rat" where
  "claimDeadline p h = of_int (ho_sinceMs h) + po_claimTtlHours (tp_policy p) * 3600000"

definition ttlAlert :: "watch_ctx \<Rightarrow> task_projection \<Rightarrow> node_projection \<Rightarrow> alert list" where
  "ttlAlert w p np =
     (case np_holder np of
        None \<Rightarrow> []
      | Some h \<Rightarrow>
          if ho_claimant h \<in> set (wt_roster w) \<and> np_submission np = None \<and> po_claimTtlHours (tp_policy p) > 0 \<and>
             of_int (wt_now w) < claimDeadline p h \<and> claimDeadline p h - of_int (wt_now w) < CLAIM_TTL_SOON_MS \<and>
             \<not> recent (wt_existing w) (wt_now w) ClaimTtlSoon (tp_rootPinId p) (np_id np) CLAIM_TTL_DEDUPE_MS
          then [\<lparr>al_kind = ClaimTtlSoon, al_rootPinId = tp_rootPinId p, al_node = Some (np_id np),
                 al_detail = Some (''expires in '' @
                   int_string (max 1 (js_round ((claimDeadline p h - of_int (wt_now w)) / 3600000))) @ ''h''),
                 al_createdAtMs = wt_now w\<rparr>]
          else [])"

definition openAggregates :: "task_projection \<Rightarrow> string list" where
  "openAggregates p =
     map (\<lambda>nd. js_string_opt (jprop nd ''id''))
       (filter (\<lambda>nd. jprop nd ''kind'' = Some (JStr ''aggregate'') \<and>
          (case jget (tp_nodeStates p) (js_string_opt (jprop nd ''id'')) of
             None \<Rightarrow> False | Some np \<Rightarrow> np_status np = StOpen)) (tp_nodes p))"

definition closingAlert :: "watch_ctx \<Rightarrow> task_projection \<Rightarrow> alert list" where
  "closingAlert w p =
     (case openAggregates p of
        [] \<Rightarrow> []
      | anchor # _ \<Rightarrow>
          if wt_now w - tp_lastActivityMs p > CLOSING_DRIVE_STALL_MS \<and>
             \<not> recent (wt_existing w) (wt_now w) ClosingDrive (tp_rootPinId p) anchor CLOSING_DRIVE_DEDUPE_MS
          then [\<lparr>al_kind = ClosingDrive, al_rootPinId = tp_rootPinId p, al_node = Some anchor,
                 al_detail = Some (nat_string (int (length (openAggregates p)))), al_createdAtMs = wt_now w\<rparr>]
          else [])"

section \<open>A run\<close>

type_synonym watch_out = "((string \<times> string) \<times> string) list \<times> alert list"

definition watchNode :: "watch_ctx \<Rightarrow> task_projection \<Rightarrow> watch_out \<Rightarrow> node_projection \<Rightarrow> watch_out" where
  "watchNode w p out np =
     (fst out @ [((tp_rootPinId p, np_id np), statusKey np)],
      snd out @ (if mineInvolved (wt_roster w) np then changeAlert w p np @ ttlAlert w p np else []))"

definition watchTask :: "watch_ctx \<Rightarrow> mt_store \<Rightarrow> watch_out \<Rightarrow> board_task \<Rightarrow> watch_out" where
  "watchTask w s out summary =
     (if RolePublisher \<notin> set (bt_myRoles summary) \<and> RoleParticipant \<notin> set (bt_myRoles summary) then out
      else (case getProjection s (bt_rootPinId summary) of
              None \<Rightarrow> out
            | Some p \<Rightarrow>
               (let out = foldl (watchNode w p) out (map snd (own_order (tp_nodeStates p)))
                in if RolePublisher \<in> set (bt_myRoles summary) \<and> \<not> tp_taskComplete p
                   then (fst out, snd out @ closingAlert w p) else out)))"

text \<open>\<open>Array.from(new Set(ids.filter(Boolean)))\<close>.\<close>

definition localRoster :: "string list \<Rightarrow> string list" where
  "localRoster ids = foldl (\<lambda>xs x. set_add x xs) [] (filter (\<lambda>m. m \<noteq> '''') ids)"

definition watchOut :: "string list \<Rightarrow> int \<Rightarrow> mt_store \<Rightarrow> watch_out" where
  "watchOut roster nowMs s =
     foldl (watchTask \<lparr>wt_roster = roster, wt_prev = prevStatuses s, wt_existing = listAlerts 200 s, wt_now = nowMs\<rparr> s)
       ([], []) (bd_tasks (board roster s))"

definition watchRun :: "string list \<Rightarrow> int \<Rightarrow> mt_store \<Rightarrow> mt_store" where
  "watchRun rosterMetaIds nowMs store =
     (let s = pruneAlerts ALERT_HORIZON_MS nowMs store; roster = localRoster rosterMetaIds in
      if roster = [] then s
      else (case watchOut roster nowMs s of
              (statuses, alerts) \<Rightarrow> appendAlerts alerts (setWatchStatuses statuses s)))"

section \<open>Alerts are spaced\<close>

definition dedupe_window :: "alert_kind \<Rightarrow> int" where
  "dedupe_window k = (case k of ClaimTtlSoon \<Rightarrow> CLAIM_TTL_DEDUPE_MS | ClosingDrive \<Rightarrow> CLOSING_DRIVE_DEDUPE_MS | SubmissionChange \<Rightarrow> 0)"

definition same_notice :: "alert \<Rightarrow> alert \<Rightarrow> bool" where
  "same_notice a b \<longleftrightarrow> al_kind a = al_kind b \<and> al_rootPinId a = al_rootPinId b \<and> al_node a = al_node b"

text \<open>Two notices of one kind on one node are the window of the kind apart.\<close>

definition spaced :: "alert list \<Rightarrow> bool" where
  "spaced als \<longleftrightarrow> sorted_wrt (\<lambda>a b. same_notice a b \<longrightarrow> dedupe_window (al_kind a) \<le> al_createdAtMs b - al_createdAtMs a) als"

definition one_each :: "alert list \<Rightarrow> bool" where
  "one_each als \<longleftrightarrow> sorted_wrt (\<lambda>a b. \<not> (same_notice a b \<and> al_kind a \<noteq> SubmissionChange)) als"

lemma spaced_append:
  assumes "spaced old" "one_each new" "\<forall>a \<in> set new. al_createdAtMs a = now"
    "\<And>a b. a \<in> set old \<Longrightarrow> b \<in> set new \<Longrightarrow> same_notice a b \<Longrightarrow> dedupe_window (al_kind a) \<le> now - al_createdAtMs a"
  shows "spaced (old @ new)"
proof -
  have "sorted_wrt (\<lambda>a b. same_notice a b \<longrightarrow> dedupe_window (al_kind a) \<le> al_createdAtMs b - al_createdAtMs a) new"
    by (rule sorted_wrt_mono_rel [rotated, OF assms(2) [unfolded one_each_def]])
       (use assms(3) in \<open>auto simp: dedupe_window_def same_notice_def\<close>)
  then show ?thesis using assms(1,3,4) by (auto simp: spaced_def sorted_wrt_append)
qed

text \<open>The notices of a run, task by task and node by node.\<close>

definition node_alerts :: "watch_ctx \<Rightarrow> task_projection \<Rightarrow> node_projection \<Rightarrow> alert list" where
  "node_alerts w p np = (if mineInvolved (wt_roster w) np then changeAlert w p np @ ttlAlert w p np else [])"

definition task_alerts :: "watch_ctx \<Rightarrow> mt_store \<Rightarrow> board_task \<Rightarrow> alert list" where
  "task_alerts w s summary = snd (watchTask w s ([], []) summary)"

lemma watchNode_foldl: "snd (foldl (watchNode w p) out nps) = snd out @ concat (map (node_alerts w p) nps)"
  by (induction nps arbitrary: out) (simp_all add: watchNode_def node_alerts_def)

lemma watchTask_snd: "snd (watchTask w s out summary) = snd out @ task_alerts w s summary"
  by (simp add: task_alerts_def watchTask_def watchNode_foldl Let_def split: option.splits)

lemma watchTask_foldl: "snd (foldl (watchTask w s) out tasks) = snd out @ concat (map (task_alerts w s) tasks)"
  by (induction tasks arbitrary: out) (simp_all add: watchTask_snd)

lemma sorted_wrt_concat:
  assumes "\<And>x. x \<in> set xs \<Longrightarrow> sorted_wrt R (f x)"
    "sorted_wrt (\<lambda>x y. \<forall>a \<in> set (f x). \<forall>b \<in> set (f y). R a b) xs"
  shows "sorted_wrt R (concat (map f xs))"
  using assms by (induction xs) (auto simp: sorted_wrt_append)

lemma sorted_wrt_distinct: "distinct (map key xs) \<Longrightarrow> sorted_wrt (\<lambda>x y. key x \<noteq> key y) xs"
  by (induction xs) auto

lemma node_alerts_in:
  "a \<in> set (node_alerts w p np) \<Longrightarrow>
   al_rootPinId a = tp_rootPinId p \<and> al_node a = Some (np_id np) \<and> al_createdAtMs a = wt_now w \<and>
   (al_kind a = SubmissionChange \<or>
    al_kind a = ClaimTtlSoon \<and> \<not> recent (wt_existing w) (wt_now w) ClaimTtlSoon (tp_rootPinId p) (np_id np) CLAIM_TTL_DEDUPE_MS)"
  by (auto simp: node_alerts_def changeAlert_def ttlAlert_def split: if_splits option.splits)

lemma node_alerts_one: "one_each (node_alerts w p np)"
  by (auto simp: node_alerts_def one_each_def changeAlert_def ttlAlert_def same_notice_def split: option.splits)

lemma closingAlert_in:
  "a \<in> set (closingAlert w p) \<Longrightarrow>
   al_rootPinId a = tp_rootPinId p \<and> al_createdAtMs a = wt_now w \<and> al_kind a = ClosingDrive \<and>
   (\<exists>n. al_node a = Some n \<and> \<not> recent (wt_existing w) (wt_now w) ClosingDrive (tp_rootPinId p) n CLOSING_DRIVE_DEDUPE_MS)"
  by (auto simp: closingAlert_def split: list.splits if_splits)

lemma task_alerts_cases:
  "task_alerts w s summary = [] \<or>
   (\<exists>p rest. getProjection s (bt_rootPinId summary) = Some p \<and> (rest = [] \<or> rest = closingAlert w p) \<and>
      task_alerts w s summary = concat (map (node_alerts w p) (map snd (own_order (tp_nodeStates p)))) @ rest)"
  by (auto simp: task_alerts_def watchTask_def watchNode_foldl Let_def split: option.splits if_splits)

lemma not_recent:
  "\<not> recent existing now kind rt n window \<Longrightarrow> a \<in> set existing \<Longrightarrow> al_kind a = kind \<Longrightarrow> al_rootPinId a = rt \<Longrightarrow>
   al_node a = Some n \<Longrightarrow> window \<le> now - al_createdAtMs a"
  by (auto simp: recent_def list_ex_iff)

lemma task_alerts_in:
  assumes "a \<in> set (task_alerts w s summary)"
  shows "al_createdAtMs a = wt_now w \<and>
    (\<forall>b \<in> set (wt_existing w). same_notice b a \<longrightarrow> al_kind b = SubmissionChange \<or> dedupe_window (al_kind b) \<le> wt_now w - al_createdAtMs b) \<and>
    (\<exists>p. getProjection s (bt_rootPinId summary) = Some p \<and> al_rootPinId a = tp_rootPinId p)"
  using assms task_alerts_cases [of w s summary]
  by (auto dest!: node_alerts_in closingAlert_in simp: same_notice_def dedupe_window_def recent_def list_ex_iff linorder_not_less)

lemma task_alerts_one:
  assumes "\<And>p. getProjection s (bt_rootPinId summary) = Some p \<Longrightarrow> distinct (map (\<lambda>(_, np). np_id np) (tp_nodeStates p))"
  shows "one_each (task_alerts w s summary)"
proof (cases "task_alerts w s summary = []")
  case False
  then obtain p rest where p: "getProjection s (bt_rootPinId summary) = Some p" "rest = [] \<or> rest = closingAlert w p"
    "task_alerts w s summary = concat (map (node_alerts w p) (map snd (own_order (tp_nodeStates p)))) @ rest"
    using task_alerts_cases by blast
  have "mset (map (\<lambda>(_, np). np_id np) (own_order (tp_nodeStates p))) = mset (map (\<lambda>(_, np). np_id np) (tp_nodeStates p))"
    by (simp add: mset_own_order)
  then have "distinct (map np_id (map snd (own_order (tp_nodeStates p))))"
    using assms [OF p(1)] mset_eq_imp_distinct_iff by (fastforce simp: comp_def case_prod_unfold)
  then have "sorted_wrt (\<lambda>x y. np_id x \<noteq> np_id y) (map snd (own_order (tp_nodeStates p)))"
    by (rule sorted_wrt_distinct)
  then have "sorted_wrt (\<lambda>x y. \<forall>a \<in> set (node_alerts w p x). \<forall>b \<in> set (node_alerts w p y).
      \<not> (same_notice a b \<and> al_kind a \<noteq> SubmissionChange)) (map snd (own_order (tp_nodeStates p)))"
    by (rule sorted_wrt_mono_rel [rotated]) (auto simp: same_notice_def dest!: node_alerts_in)
  then have "one_each (concat (map (node_alerts w p) (map snd (own_order (tp_nodeStates p)))))"
    using node_alerts_one unfolding one_each_def by (blast intro: sorted_wrt_concat)
  moreover have "one_each rest" using p(2) by (auto simp: one_each_def closingAlert_def split: list.splits)
  ultimately show ?thesis
    using p(2) unfolding p(3) one_each_def
    by (auto simp: sorted_wrt_append same_notice_def dest!: node_alerts_in closingAlert_in)
qed (simp add: one_each_def)

text \<open>Rows as the sweep writes them: one per root, under the root's id, with one entry per node.\<close>

definition rows_ok :: "mt_store \<Rightarrow> bool" where
  "rows_ok s \<longleftrightarrow> distinct (map fst (ms_rows s)) \<and>
     list_all (\<lambda>(rt, row). tp_rootPinId (pw_projection row) = rt \<and>
       distinct (map (\<lambda>(_, np). np_id np) (tp_nodeStates (pw_projection row)))) (ms_rows s)"

lemma rows_ok_get:
  "rows_ok s \<Longrightarrow> getProjection s rt = Some p \<Longrightarrow>
   tp_rootPinId p = rt \<and> distinct (map (\<lambda>(_, np). np_id np) (tp_nodeStates p))"
  by (auto simp: getProjection_def rows_ok_def list_all_iff dest!: jget_SomeD)

lemma board_roots: "rows_ok s \<Longrightarrow> distinct (map bt_rootPinId (bd_tasks (board roster s)))"
proof -
  assume ok: "rows_ok s"
  let ?rows = "sort_key (\<lambda>(rt, row). (- tp_lastActivityMs (pw_projection row), rt)) (ms_rows s)"
  have "map bt_rootPinId (bd_tasks (board roster s)) = map (\<lambda>(_, row). tp_rootPinId (pw_projection row)) ?rows"
    by (auto simp: board_def Let_def boardTask_def)
  also have "\<dots> = map fst ?rows" using ok by (auto simp: rows_ok_def list_all_iff)
  finally have "mset (map bt_rootPinId (bd_tasks (board roster s))) = mset (map fst (ms_rows s))" by simp
  then have "distinct (map bt_rootPinId (bd_tasks (board roster s))) = distinct (map fst (ms_rows s))"
    by (rule mset_eq_imp_distinct_iff)
  then show ?thesis using ok by (simp add: rows_ok_def)
qed

lemma watch_alerts_one:
  assumes "rows_ok s"
  shows "one_each (concat (map (task_alerts w s) (bd_tasks (board roster s))))"
proof -
  have "sorted_wrt (\<lambda>x y. bt_rootPinId x \<noteq> bt_rootPinId y) (bd_tasks (board roster s))"
    by (rule sorted_wrt_distinct) (rule board_roots [OF assms])
  then have "sorted_wrt (\<lambda>x y. \<forall>a \<in> set (task_alerts w s x). \<forall>b \<in> set (task_alerts w s y).
      \<not> (same_notice a b \<and> al_kind a \<noteq> SubmissionChange)) (bd_tasks (board roster s))"
    by (rule sorted_wrt_mono_rel [rotated])
       (use rows_ok_get [OF assms] in \<open>fastforce simp: same_notice_def dest!: task_alerts_in\<close>)
  then show ?thesis
    using task_alerts_one rows_ok_get [OF assms] unfolding one_each_def by (blast intro: sorted_wrt_concat)
qed

lemma prune_spaced: "spaced (ms_alerts s) \<Longrightarrow> spaced (ms_alerts (pruneAlerts h now s))"
  by (simp add: spaced_def pruneAlerts_def sorted_wrt_filter)

lemma watchRun_spaced:
  assumes "rows_ok s" "spaced (ms_alerts s)" "length (ms_alerts s) \<le> 200"
    "list_all (\<lambda>a. al_createdAtMs a \<le> now) (ms_alerts s)"
  shows "spaced (ms_alerts (watchRun ids now s))"
proof -
  let ?s = "pruneAlerts ALERT_HORIZON_MS now s" and ?ro = "localRoster ids"
  let ?w = "\<lparr>wt_roster = ?ro, wt_prev = prevStatuses ?s, wt_existing = listAlerts 200 ?s, wt_now = now\<rparr>"
  let ?new = "concat (map (task_alerts ?w ?s) (bd_tasks (board ?ro ?s)))"
  have ok: "rows_ok ?s" using assms(1) by (simp add: rows_ok_def pruneAlerts_def)
  have sub: "set (ms_alerts ?s) \<subseteq> set (ms_alerts s)" and len: "length (ms_alerts ?s) \<le> 200"
    using assms(3) order_trans [OF length_filter_le] by (auto simp: pruneAlerts_def)
  have ex: "set (wt_existing ?w) = set (ms_alerts ?s)" using len by (simp add: listAlerts_def)
  have run: "ms_alerts (watchRun ids now s) = (if ?ro = [] then ms_alerts ?s else ms_alerts ?s @ ?new)"
    by (simp add: watchRun_def Let_def watchOut_def case_prod_unfold appendAlerts_def setWatchStatuses_def watchTask_foldl)
  have "spaced (ms_alerts ?s @ ?new)"
  proof (rule spaced_append [where now = now])
    show "spaced (ms_alerts ?s)" using assms(2) by (rule prune_spaced)
    show "one_each ?new" by (rule watch_alerts_one [OF ok])
    show "\<forall>a \<in> set ?new. al_createdAtMs a = now" using task_alerts_in [of _ ?w ?s] by fastforce
    fix a b assume ab: "a \<in> set (ms_alerts ?s)" "b \<in> set ?new" "same_notice a b"
    then obtain summary where "b \<in> set (task_alerts ?w ?s summary)" by auto
    from task_alerts_in [OF this] ab(1,3) ex have
      "al_kind a = SubmissionChange \<or> dedupe_window (al_kind a) \<le> now - al_createdAtMs a" by auto
    moreover have "al_createdAtMs a \<le> now" using assms(4) sub ab(1) by (auto simp: list_all_iff)
    ultimately show "dedupe_window (al_kind a) \<le> now - al_createdAtMs a" by (auto simp: dedupe_window_def)
  qed
  then show ?thesis using run prune_spaced [OF assms(2)] by simp
qed

end
