(* ===== verification/WatchProps.thy ===== *)
theory WatchProps
  imports Watch Sweep Examples
begin

text \<open>
  Properties of the watch: its notices are spaced, and which transition it never reports.
\<close>

section \<open>A claim that runs out\<close>

text \<open>A stand-in for SHA-256: the length of the text.\<close>

definition watch_hash :: "string \<Rightarrow> string" where
  "watch_hash s = nat_string (int (length s))"

definition claim_task_ev :: chain_event where
  "claim_task_ev = ev ''T'' ''task'' ''pub'' 191500
     [(''treeid'', JStr ''R''), (''policy'', JObj [(''claim_ttl_hours'', JNum 1)])]"

definition claim_pool :: "chain_event list" where
  "claim_pool = [claim_task_ev, tree_ev [node_json ''n1'' JNull 10000 []], claim_ev ''C1'' ''ann'' ''n1'' 191502]"

definition swept_at :: "int \<Rightarrow> mt_store \<Rightarrow> mt_store" where
  "swept_at now s = snd (the (runRefresh watch_hash (Inr \<lparr>co_events = claim_pool, co_failed = [False]\<rparr>) now s))"

definition claimed_store :: mt_store where "claimed_store = swept_at 191503000 store_init"
definition watched_store :: mt_store where "watched_store = watchRun [''ann''] 191503000 claimed_store"




text \<open>A local bot is never told that its node reopened: when its claim runs out the node has neither
  holder nor submission, so the watch records the new status and raises no notice of the change.\<close>

lemma reopened_node_is_not_reported:
  "map (\<lambda>(_, row). map (\<lambda>(_, np). (np_status np, mineInvolved [''ann''] np)) (tp_nodeStates (pw_projection row)))
     (ms_rows watched_store) = [[(StClaimed, True)]] \<and>
   (case watchRun [''ann''] 195200000 (swept_at 195200000 watched_store) of later \<Rightarrow>
      ms_watch later = [((''T'', ''n1''), ''open'')] \<and> map al_kind (ms_alerts later) = [ClaimTtlSoon])"
  by code_simp

end
