(* ===== verification/JsNumber.thy ===== *)
theory JsNumber
  imports JsValue
begin

text \<open>
  \<open>Number(v)\<close> of JavaScript on JSON values. \<open>None\<close> stands for \<open>NaN\<close> and the infinities, which the
  code that calls it treats alike: both fail \<open>Number.isInteger\<close> and \<open>Number.isFinite\<close>, and both are
  \<open>null\<close> in \<open>JSON.stringify\<close>. Literals are exact; those beyond the largest double are infinite.
\<close>

definition finite_double :: "rat \<Rightarrow> rat option" where
  "finite_double q = (if \<bar>q\<bar> < 2 ^ 1024 - 2 ^ 970 then Some q else None)"

text \<open>Evaluation tries a small bound first.\<close>

lemma finite_double_code [code]:
  "finite_double q = (if \<bar>q\<bar> < 1000000000 then Some q else if \<bar>q\<bar> < 2 ^ 1024 - 2 ^ 970 then Some q else None)"
proof -
  have "(1000000000 :: rat) \<le> 2 ^ 1024 - 2 ^ 970" by simp
  then show ?thesis unfolding finite_double_def by auto
qed

definition scale_ten :: "rat \<Rightarrow> int \<Rightarrow> rat" where
  "scale_ten q e = (if 0 \<le> e then q * 10 ^ nat e else q / 10 ^ nat (- e))"

definition all_digits :: "string \<Rightarrow> bool" where
  "all_digits s \<longleftrightarrow> s \<noteq> [] \<and> list_all is_digit_char s"

text \<open>What follows the mantissa: nothing, or an exponent.\<close>

definition exponent_part :: "string \<Rightarrow> int option" where
  "exponent_part s =
     (case s of
        [] \<Rightarrow> Some 0
      | c # t \<Rightarrow>
          if c \<noteq> CHR ''e'' \<and> c \<noteq> CHR ''E'' then None
          else (case t of
                  [] \<Rightarrow> None
                | d # ds \<Rightarrow>
                    if d = CHR ''-'' then (if all_digits ds then Some (- nat_of_digits ds) else None)
                    else if d = CHR ''+'' then (if all_digits ds then Some (nat_of_digits ds) else None)
                    else if all_digits t then Some (nat_of_digits t) else None))"

definition mantissa_value :: "string \<Rightarrow> string \<Rightarrow> string \<Rightarrow> rat option" where
  "mantissa_value whole decimals rest =
     (if whole @ decimals = [] then None
      else (case exponent_part rest of
              None \<Rightarrow> None
            | Some e \<Rightarrow> finite_double (scale_ten (of_int (nat_of_digits (whole @ decimals))) (e - int (length decimals)))))"

definition unsigned_decimal :: "string \<Rightarrow> rat option" where
  "unsigned_decimal s =
     (case dropWhile is_digit_char s of
        [] \<Rightarrow> mantissa_value (takeWhile is_digit_char s) [] []
      | c # t \<Rightarrow>
          if c = CHR ''.''
          then mantissa_value (takeWhile is_digit_char s) (takeWhile is_digit_char t) (dropWhile is_digit_char t)
          else mantissa_value (takeWhile is_digit_char s) [] (c # t))"

definition digit_value :: "char \<Rightarrow> int option" where
  "digit_value c =
     (let n = (of_char c :: int) in
      if 48 \<le> n \<and> n \<le> 57 then Some (n - 48)
      else if 97 \<le> n \<and> n \<le> 102 then Some (n - 87)
      else if 65 \<le> n \<and> n \<le> 70 then Some (n - 55)
      else None)"

fun radix_value :: "int \<Rightarrow> int \<Rightarrow> string \<Rightarrow> int option" where
  "radix_value base acc [] = Some acc"
| "radix_value base acc (c # cs) =
     (case digit_value c of
        None \<Rightarrow> None
      | Some d \<Rightarrow> if d < base then radix_value base (base * acc + d) cs else None)"

definition radix_literal :: "int \<Rightarrow> string \<Rightarrow> rat option" where
  "radix_literal base s =
     (if s = [] then None
      else (case radix_value base 0 s of None \<Rightarrow> None | Some n \<Rightarrow> finite_double (of_int n)))"

definition radix_of :: "char \<Rightarrow> int option" where
  "radix_of c =
     (if c = CHR ''x'' \<or> c = CHR ''X'' then Some 16
      else if c = CHR ''o'' \<or> c = CHR ''O'' then Some 8
      else if c = CHR ''b'' \<or> c = CHR ''B'' then Some 2 else None)"

definition signed_decimal :: "string \<Rightarrow> rat option" where
  "signed_decimal s =
     (case s of
        [] \<Rightarrow> None
      | c # t \<Rightarrow>
          if c = CHR ''-'' then map_option uminus (unsigned_decimal t)
          else if c = CHR ''+'' then unsigned_decimal t
          else unsigned_decimal s)"

definition trimmed_number :: "string \<Rightarrow> rat option" where
  "trimmed_number s =
     (case s of
        [] \<Rightarrow> Some 0
      | z # x # ds \<Rightarrow>
          (case (if z = CHR ''0'' then radix_of x else None) of
             Some base \<Rightarrow> radix_literal base ds
           | None \<Rightarrow> signed_decimal s)
      | _ \<Rightarrow> signed_decimal s)"

definition string_number :: "string \<Rightarrow> rat option" where
  "string_number s = trimmed_number (js_trim s)"

fun js_number :: "json option \<Rightarrow> rat option" where
  "js_number None = None"
| "js_number (Some JNull) = Some 0"
| "js_number (Some (JBool b)) = Some (if b then 1 else 0)"
| "js_number (Some (JNum q)) = Some q"
| "js_number (Some (JStr s)) = string_number s"
| "js_number (Some (JArr xs)) = string_number (js_string (JArr xs))"
| "js_number (Some (JObj _)) = None"

text \<open>\<open>Number.isInteger\<close> of the result, as the integer.\<close>

definition js_integer :: "rat option \<Rightarrow> int option" where
  "js_integer n = (case n of None \<Rightarrow> None | Some q \<Rightarrow> if is_integer q then Some \<lfloor>q\<rfloor> else None)"

lemma js_integer_Some: "js_integer n = Some i \<longleftrightarrow> n = Some (of_int i)"
  by (auto simp: js_integer_def is_integer_def split: option.splits)

text \<open>What \<open>JSON.stringify\<close> writes for a number.\<close>

definition json_number :: "rat option \<Rightarrow> json" where
  "json_number n = (case n of None \<Rightarrow> JNull | Some q \<Rightarrow> JNum q)"

end
