(* ===== verification/JsText.thy ===== *)
theory JsText
  imports JsNumber
begin

text \<open>
  Case mapping and hexadecimal tests of JavaScript and SQLite strings. Strings are Latin-1 code
  units; the two letters whose upper case leaves Latin-1 (181 and 255) are kept as they are, and
  the sharp s becomes two letters, as \<open>toUpperCase\<close> has it.
\<close>

definition upper_ascii :: "char \<Rightarrow> char" where
  "upper_ascii c = (let n = (of_char c :: int) in if 97 \<le> n \<and> n \<le> 122 then char_of (n - 32) else c)"

definition js_upper :: "string \<Rightarrow> string" where
  "js_upper s = concat (map (\<lambda>c. let n = (of_char c :: int) in
     if n = 223 then ''SS''
     else if 224 \<le> n \<and> n \<le> 254 \<and> n \<noteq> 247 then [char_of (n - 32)]
     else [upper_ascii c]) s)"

definition js_lower :: "string \<Rightarrow> string" where
  "js_lower s = map (\<lambda>c. let n = (of_char c :: int) in
     if (65 \<le> n \<and> n \<le> 90) \<or> (192 \<le> n \<and> n \<le> 222 \<and> n \<noteq> 215) then char_of (n + 32) else c) s"

definition any_hex :: "char \<Rightarrow> bool" where
  "any_hex c \<longleftrightarrow> digit_value c \<noteq> None"

text \<open>\<open>/^[0-9a-f]{64}$/i\<close>\<close>

definition hex64 :: "string \<Rightarrow> bool" where
  "hex64 s \<longleftrightarrow> length s = 64 \<and> list_all any_hex s"

text \<open>SQLite: \<open>trim\<close> strips spaces only, \<open>upper\<close> maps ASCII letters only.\<close>

definition sql_trim :: "string \<Rightarrow> string" where
  "sql_trim s = rev (dropWhile ((=) CHR '' '') (rev (dropWhile ((=) CHR '' '') s)))"

definition sql_upper :: "string \<Rightarrow> string" where
  "sql_upper s = map upper_ascii s"

lemma js_trim_empty: "js_trim s = '''' \<longleftrightarrow> list_all js_space s"
proof -
  have "dropWhile js_space (rev (dropWhile js_space s)) = [] \<longleftrightarrow> (\<forall>c \<in> set (dropWhile js_space s). js_space c)"
    by (auto simp: dropWhile_eq_Nil_conv)
  also have "\<dots> \<longleftrightarrow> (\<forall>c \<in> set s. js_space c)"
    by (induction s) auto
  finally show ?thesis by (simp add: js_trim_def list_all_iff)
qed

lemma dropWhile_id: "xs = [] \<or> \<not> P (hd xs) \<Longrightarrow> dropWhile P xs = xs"
  by (cases xs) auto

lemma js_trim_idem [simp]: "js_trim (js_trim s) = js_trim s"
proof -
  define a where "a = dropWhile js_space s"
  define t where "t = dropWhile js_space (rev a)"
  have trim: "js_trim s = rev t" by (simp add: js_trim_def a_def t_def)
  have last: "t = [] \<or> \<not> js_space (hd t)" unfolding t_def using hd_dropWhile [of js_space "rev a"] by auto
  obtain ws where ws: "rev a = ws @ t" unfolding t_def by (metis takeWhile_dropWhile_id)
  have "rev t = [] \<or> \<not> js_space (hd (rev t))"
  proof (cases "t = []")
    case False
    have "a = rev t @ rev ws" using arg_cong [OF ws, of rev] by simp
    moreover have "a = [] \<or> \<not> js_space (hd a)" unfolding a_def using hd_dropWhile [of js_space s] by auto
    ultimately show ?thesis using False by auto
  qed simp
  then have "dropWhile js_space (rev t) = rev t" by (rule dropWhile_id)
  then show ?thesis unfolding trim js_trim_def [of "rev t"] using dropWhile_id [of t js_space] last by simp
qed

end
