(* ===== verification/AgentSpec.thy ===== *)
theory AgentSpec
  imports JsText PrefSchemas
begin

text \<open>
  libs/metataskAgentTools.ts, the part about verifier specs: the payload of a spec pin, the checks
  on the declared workspace, the script and the validation block, and the campaign drafts file
  (specs, tasks and the placeholders of spec pins). A refusal is a value of a datatype that names
  the reason and carries what the message quotes; the message texts are left out.
\<close>

section \<open>Regular expressions\<close>

text \<open>\<open>SPEC_REF_RE\<close>: \<open>^(pin:\/\/|metafile:\/\/)\S+$\<close>.\<close>

definition ref_tail :: "string \<Rightarrow> string \<Rightarrow> bool" where
  "ref_tail p s \<longleftrightarrow>
     take (length p) s = p \<and> drop (length p) s \<noteq> [] \<and> list_all (\<lambda>c. \<not> js_space c) (drop (length p) s)"

definition SPEC_REF_RE :: "string \<Rightarrow> bool" where
  "SPEC_REF_RE s \<longleftrightarrow> ref_tail ''pin://'' s \<or> ref_tail ''metafile://'' s"

definition contains :: "string \<Rightarrow> string \<Rightarrow> bool" where
  "contains needle s = list_ex (\<lambda>i. take (length needle) (drop i s) = needle) [0..<Suc (length s)]"

text \<open>\<open>SPEC_PLACEHOLDER_RE\<close>, case-insensitive, anywhere.\<close>

definition SPEC_PLACEHOLDER_RE :: "string \<Rightarrow> bool" where
  "SPEC_PLACEHOLDER_RE s =
     list_ex (\<lambda>needle. contains needle (map upper_ascii s))
       [''PUBLISH_ARTIFACT_FIRST'', ''PLACEHOLDER'', ''TODO'', ''FIXME'', ''TBD'']"

definition ascii_letter :: "char \<Rightarrow> bool" where
  "ascii_letter c = lower (char_of ((of_char (upper_ascii c) :: int) + 32))"

definition scheme_char :: "char \<Rightarrow> bool" where
  "scheme_char c \<longleftrightarrow> ascii_letter c \<or> is_digit_char c \<or> c \<in> set ''+.-''"

text \<open>\<open>URI_LOOKING_RE\<close>: \<open>^[a-z][a-z0-9+.-]*:\/\/\<close>, case-insensitive.\<close>

definition URI_LOOKING_RE :: "string \<Rightarrow> bool" where
  "URI_LOOKING_RE s \<longleftrightarrow>
     (case s of
        [] \<Rightarrow> False
      | c # t \<Rightarrow> ascii_letter c \<and> take 3 (dropWhile scheme_char t) = ''://'')"

definition GIT_COMMIT_RE :: "string \<Rightarrow> bool" where
  "GIT_COMMIT_RE s \<longleftrightarrow> length s = 40 \<and> list_all any_hex s"

section \<open>The spec payload\<close>

record spec_input =
  si_name :: "json option"
  si_lang :: "json option"
  si_entry :: "json option"
  si_script :: "json option"
  si_input :: "json option"
  si_output :: "json option"
  si_validation :: "json option"
  si_workspace :: "json option"

definition trimmed :: "json option \<Rightarrow> string" where
  "trimmed v = js_trim (asStr v '''')"

definition langOf :: "json option \<Rightarrow> string" where
  "langOf v = (if trimmed v = '''' then ''bash'' else trimmed v)"

definition buildSpecPayload :: "spec_input \<Rightarrow> body" where
  "buildSpecPayload spec =
     [(''name'', JStr (trimmed (si_name spec))),
      (''lang'', JStr (langOf (si_lang spec))),
      (''entry'', JStr (trimmed (si_entry spec))),
      (''script'', case si_script spec of None \<Rightarrow> JStr '''' | Some j \<Rightarrow> j),
      (''input'', or_null (nullish (si_input spec) (Some (JStr '''')))),
      (''output'', or_null (nullish (si_output spec) (Some (JStr ''''))))] @
     (if is_plain_object (si_workspace spec) then [(''workspace'', or_null (si_workspace spec))] else []) @
     (if is_plain_object (si_validation spec) then [(''validation'', or_null (si_validation spec))] else [])"

section \<open>Checks\<close>

datatype spec_refusal =
    WorkspaceNotObject
  | WorkspaceTypeMissing
  | BaseRefEmpty
  | BaseRefNotReference string
  | BaseCommitMalformed
  | ScriptMissing
  | ScriptForeignUri string
  | ValidationMissing
  | ValidationItemsMissing "string list"
  | NullToleranceNotTrue
  | ClosureIncomplete
  | FidelityNotObject
  | FidelitySelfAttested string
  | FidelityUnreferenced
  | FidelityPlaceholder string
  | FidelityNotReference string

definition is_nullish :: "json option \<Rightarrow> bool" where
  "is_nullish v \<longleftrightarrow> v = None \<or> v = Some JNull"

definition specWorkspaceRefusal :: "json option \<Rightarrow> spec_refusal option" where
  "specWorkspaceRefusal workspace =
     (if is_nullish workspace then None
      else if \<not> is_plain_object workspace then Some WorkspaceNotObject
      else if trimmed (jopt workspace ''type'') = '''' then Some WorkspaceTypeMissing
      else if \<not> is_nullish (jopt workspace ''baseRef'') \<and> trimmed (jopt workspace ''baseRef'') = '''' then Some BaseRefEmpty
      else if \<not> is_nullish (jopt workspace ''baseRef'') \<and> \<not> SPEC_REF_RE (trimmed (jopt workspace ''baseRef''))
        then Some (BaseRefNotReference (trimmed (jopt workspace ''baseRef'')))
      else if \<not> is_nullish (jopt workspace ''baseCommit'') \<and> \<not> GIT_COMMIT_RE (asStr (jopt workspace ''baseCommit'') '''')
        then Some BaseCommitMalformed
      else None)"

definition specScriptRefusal :: "json option \<Rightarrow> spec_refusal option" where
  "specScriptRefusal script =
     (if trimmed script = '''' then Some ScriptMissing
      else if CHR 0x0A \<notin> set (trimmed script) \<and> URI_LOOKING_RE (trimmed script) \<and> \<not> SPEC_REF_RE (trimmed script)
        then Some (ScriptForeignUri (trimmed script))
      else None)"

text \<open>The recursion stops below depth 8.\<close>

fun hasIntegerAtAnyDepth :: "nat \<Rightarrow> json \<Rightarrow> bool" where
  "hasIntegerAtAnyDepth depth (JNum q) = is_integer q"
| "hasIntegerAtAnyDepth depth (JArr xs) =
     (if depth > 8 then False else list_ex (hasIntegerAtAnyDepth (Suc depth)) xs)"
| "hasIntegerAtAnyDepth depth (JObj kv) =
     (if depth > 8 then False else list_ex (\<lambda>(_, v). hasIntegerAtAnyDepth (Suc depth) v) kv)"
| "hasIntegerAtAnyDepth depth _ = False"

definition SPEC_VALIDATION_ITEMS :: "string list" where
  "SPEC_VALIDATION_ITEMS = [''null_tolerance'', ''enumeration_closure'', ''proposition_fidelity'']"

definition fidelityReference :: "json option \<Rightarrow> string" where
  "fidelityReference fidelity =
     (case jopt fidelity ''correspondence'' of Some (JStr s) \<Rightarrow> s
      | _ \<Rightarrow> (case jopt fidelity ''artifactPin'' of Some (JStr s) \<Rightarrow> s
      | _ \<Rightarrow> asStr (jopt fidelity ''artifact'') ''''))"

fun selfAttested :: "json option \<Rightarrow> string option" where
  "selfAttested (Some (JObj kv)) =
     map_option fst (find (\<lambda>(_, v). case v of JBool _ \<Rightarrow> True | _ \<Rightarrow> False) (own_order kv))"
| "selfAttested _ = None"

definition fidelityRefusal :: "json option \<Rightarrow> spec_refusal option" where
  "fidelityRefusal fidelity =
     (if \<not> is_plain_object fidelity then Some FidelityNotObject
      else (case selfAttested fidelity of
              Some item \<Rightarrow> Some (FidelitySelfAttested item)
            | None \<Rightarrow>
                (case js_trim (fidelityReference fidelity) of reference \<Rightarrow>
                   if reference = '''' then Some FidelityUnreferenced
                   else if SPEC_PLACEHOLDER_RE reference then Some (FidelityPlaceholder reference)
                   else if \<not> SPEC_REF_RE reference then Some (FidelityNotReference reference)
                   else None)))"

definition closureComplete :: "json option \<Rightarrow> bool" where
  "closureComplete closure \<longleftrightarrow>
     is_plain_object closure \<and> trimmed (jopt closure ''closure'') \<noteq> '''' \<and>
     hasIntegerAtAnyDepth 0 (or_null closure)"

definition specValidationRefusal :: "json option \<Rightarrow> spec_refusal option" where
  "specValidationRefusal validation =
     (if \<not> is_plain_object validation then Some ValidationMissing
      else if filter (\<lambda>item. jopt validation item = None) SPEC_VALIDATION_ITEMS \<noteq> []
        then Some (ValidationItemsMissing (filter (\<lambda>item. jopt validation item = None) SPEC_VALIDATION_ITEMS))
      else if jopt validation ''null_tolerance'' \<noteq> Some (JBool True) then Some NullToleranceNotTrue
      else if \<not> closureComplete (jopt validation ''enumeration_closure'') then Some ClosureIncomplete
      else fidelityRefusal (jopt validation ''proposition_fidelity''))"

section \<open>Campaign drafts\<close>

datatype drafts_refusal =
    DraftsPathRelative string
  | DraftsUnreadable string
  | DraftsNotObject string
  | DraftsNoSpecs
  | DraftsSpecUnknown string "string list"
  | DraftsNoTasks
  | DraftsTaskUnknown string "string list"
  | DraftsNoPublish string
  | DraftsNodesNotArray string
  | DraftsNoRootSpec string
  | DraftsUnmapped "string list"

text \<open>What the file holds is an argument: \<open>None\<close> when it cannot be read or is not JSON.\<close>

definition readDraftsFile :: "(string \<Rightarrow> json option) \<Rightarrow> string \<Rightarrow> drafts_refusal + json" where
  "readDraftsFile fileContent draftsFile =
     (if take 1 draftsFile \<noteq> ''/'' then Inl (DraftsPathRelative draftsFile)
      else (case fileContent draftsFile of
              None \<Rightarrow> Inl (DraftsUnreadable draftsFile)
            | Some parsed \<Rightarrow>
                if is_plain_object (Some parsed) then Inr parsed else Inl (DraftsNotObject draftsFile)))"

fun is_array :: "json option \<Rightarrow> bool" where
  "is_array (Some (JArr _)) = True"
| "is_array _ = False"

fun object_keys :: "json option \<Rightarrow> string list" where
  "object_keys (Some (JObj kv)) = map fst (own_order kv)"
| "object_keys _ = []"

definition only_plain :: "json option \<Rightarrow> json option" where
  "only_plain v = (if is_plain_object v then v else None)"

definition specFromDrafts :: "json \<Rightarrow> string \<Rightarrow> drafts_refusal + spec_input" where
  "specFromDrafts drafts specKey =
     (let specs = jprop drafts ''specs''; raw = jopt specs specKey in
      if \<not> is_plain_object specs then Inl DraftsNoSpecs
      else if \<not> is_plain_object raw then Inl (DraftsSpecUnknown specKey (sort (object_keys specs)))
      else Inr
        \<lparr>si_name = Some (JStr (asStr (jopt raw ''name'') '''')),
         si_lang = Some (JStr (asStr (jopt raw ''lang'') '''')),
         si_entry = Some (JStr (asStr (jopt raw ''entry'') '''')),
         si_script = Some (JStr (asStr (jopt raw ''script'') '''')),
         si_input = jopt raw ''input'', si_output = jopt raw ''output'',
         si_validation = only_plain (jopt raw ''validation''),
         si_workspace = only_plain (jopt raw ''workspace'')\<rparr>)"

definition SPEC_PIN_PREFIX :: string where "SPEC_PIN_PREFIX = ''SPEC_PIN:''"

text \<open>The key a node's placeholder names, if the node carries one.\<close>

definition placeholderKey :: "json \<Rightarrow> string option" where
  "placeholderKey node =
     (let specid = trimmed (jprop node ''specid'') in
      if is_plain_object (Some node) \<and> take (length SPEC_PIN_PREFIX) specid = SPEC_PIN_PREFIX
      then Some (js_trim (drop (length SPEC_PIN_PREFIX) specid)) else None)"

definition mappedPin :: "body \<Rightarrow> string \<Rightarrow> string" where
  "mappedPin specPinByKey key = trimmed (jget specPinByKey key)"

definition substituteNode :: "body \<Rightarrow> json \<Rightarrow> json" where
  "substituteNode specPinByKey node =
     (case placeholderKey node of
        None \<Rightarrow> node
      | Some key \<Rightarrow>
          if key = '''' \<or> mappedPin specPinByKey key = '''' then node
          else jassign node ''specid'' (JStr (mappedPin specPinByKey key)))"

definition unmappedKey :: "body \<Rightarrow> json \<Rightarrow> string list" where
  "unmappedKey specPinByKey node =
     (case placeholderKey node of
        None \<Rightarrow> []
      | Some key \<Rightarrow>
          if key = '''' then [trimmed (jprop node ''specid'')]
          else if mappedPin specPinByKey key = '''' then [key] else [])"

definition substituteSpecPins :: "json list \<Rightarrow> body \<Rightarrow> drafts_refusal + json list" where
  "substituteSpecPins nodes specPinByKey =
     (let unmapped = foldl (\<lambda>xs x. set_add x xs) [] (concat (map (unmappedKey specPinByKey) nodes)) in
      if unmapped \<noteq> [] then Inl (DraftsUnmapped (sort unmapped))
      else Inr (map (substituteNode specPinByKey) nodes))"

record drafts_input =
  df_title :: string
  df_brief :: string
  df_nodes :: "json list"
  df_policy :: json
  df_tags :: "json option"
  df_spec :: spec_input

definition draftsTaskId :: "json \<Rightarrow> string" where
  "draftsTaskId candidate =
     (if \<not> is_plain_object (Some candidate) then ''''
      else if asStr (jprop candidate ''id'') '''' \<noteq> '''' then asStr (jprop candidate ''id'') ''''
      else asStr (jprop candidate ''taskId'') '''')"

definition draftsEntry :: "json list \<Rightarrow> string \<Rightarrow> json option" where
  "draftsEntry tasks taskId =
     find (\<lambda>c. is_plain_object (Some c) \<and>
       (asStr (jprop c ''id'') '''' = taskId \<or> asStr (jprop c ''taskId'') '''' = taskId)) tasks"

definition draftsInput :: "body \<Rightarrow> json option \<Rightarrow> spec_input \<Rightarrow> drafts_refusal + drafts_input" where
  "draftsInput specPinByKey publish spec =
     (case substituteSpecPins (arr_or_empty (jopt publish ''nodes'')) specPinByKey of
        Inl r \<Rightarrow> Inl r
      | Inr nodes \<Rightarrow> Inr
         \<lparr>df_title = asStr (jopt publish ''title'') '''', df_brief = asStr (jopt publish ''brief'') '''',
          df_nodes = filter (\<lambda>n. is_plain_object (Some n)) nodes,
          df_policy = (case jopt publish ''policy'' of Some (JObj kv) \<Rightarrow> JObj kv | _ \<Rightarrow> JObj []),
          df_tags = jopt publish ''tags'', df_spec = spec\<rparr>)"

definition taskFromDrafts :: "json \<Rightarrow> string \<Rightarrow> body \<Rightarrow> drafts_refusal + drafts_input" where
  "taskFromDrafts drafts taskId specPinByKey =
     (let tasks = arr_or_empty (jprop drafts ''tasks'') in
      if tasks = [] then Inl DraftsNoTasks
      else (case draftsEntry tasks taskId of
              None \<Rightarrow> Inl (DraftsTaskUnknown taskId (sort (filter (\<lambda>i. i \<noteq> '''') (map draftsTaskId tasks))))
            | Some entry \<Rightarrow>
                (let publish = jprop entry ''publish''; rootSpecKey = trimmed (jprop entry ''rootSpec'') in
                 if \<not> is_plain_object publish then Inl (DraftsNoPublish taskId)
                 else if \<not> is_array (jopt publish ''nodes'') then Inl (DraftsNodesNotArray taskId)
                 else if rootSpecKey = '''' then Inl (DraftsNoRootSpec taskId)
                 else (case specFromDrafts drafts rootSpecKey of
                         Inl r \<Rightarrow> Inl r
                       | Inr spec \<Rightarrow> draftsInput specPinByKey publish spec))))"

end
