(* ===== verification/AgentGraph.thy ===== *)
theory AgentGraph
  imports AmendFacts
begin

text \<open>
  The competitive checks of libs/metataskAgentTools.ts that a publisher's tree passes before the
  first pin is spent: the deps graph is acyclic with one sink, which is the final node, every node
  is on the work flow, and every node has a rubric. The lemmas show what the graph check accepts:
  once the sink is alone and the deps are closed and acyclic, the two reachability legs hold.
\<close>

section \<open>The graph\<close>

record comp_shape =
  gn_id :: string
  gn_deps :: "string list"
  gn_params :: json

definition shapesById :: "comp_shape list \<Rightarrow> (string, comp_shape) jsmap" where
  "shapesById nodes = foldl (\<lambda>m n. jset (gn_id n) n m) [] nodes"

definition shapeDeps :: "(string, comp_shape) jsmap \<Rightarrow> string \<Rightarrow> string list" where
  "shapeDeps byId nid = (case jget byId nid of None \<Rightarrow> [] | Some n \<Rightarrow> gn_deps n)"

text \<open>Sinks: nodes no other node lists in its deps.\<close>

definition depsSinkIds :: "comp_shape list \<Rightarrow> string list" where
  "depsSinkIds nodes = map gn_id (filter (\<lambda>n. gn_id n \<notin> set (concat (map gn_deps nodes))) nodes)"

text \<open>The depth-first search: a node on the stack is false, a finished one true; dangling deps
  are skipped.\<close>

definition shapeSuccs :: "(string, comp_shape) jsmap \<Rightarrow> string \<Rightarrow> string option list" where
  "shapeSuccs byId nid = map Some (filter (jhas byId) (shapeDeps byId nid))"

definition depsGraphAcyclic :: "comp_shape list \<Rightarrow> bool" where
  "depsGraphAcyclic nodes =
     (case memo_every (memo_visit (Suc (length nodes)) (\<lambda>_. True) (shapeSuccs (shapesById nodes)))
             (map (\<lambda>n. Some (gn_id n)) nodes) [] of
        None \<Rightarrow> False | Some (b, _) \<Rightarrow> b)"

section \<open>Closures\<close>

text \<open>\<open>while (queue.length)\<close>: pop the last, skip it if seen, push what follows it. The head of the
  list is the end of the queue.\<close>

lemma card_unseen:
  assumes "finite A" "x \<in> A" "x \<notin> set seen"
  shows "card (A - set (x # seen)) < card (A - set seen)"
  by (rule psubset_card_mono) (use assms in auto)

function flow_walk :: "(string, string list) jsmap \<Rightarrow> string list \<Rightarrow> string list \<Rightarrow> string list" where
  "flow_walk nexts [] seen = seen"
| "flow_walk nexts (x # stack) seen =
     (if x \<in> set seen then flow_walk nexts stack seen
      else flow_walk nexts (rev (jget_or nexts x []) @ stack) (x # seen))"
  by pat_completeness auto
termination
proof (relation "measures [\<lambda>(nexts, stack, seen). card (fst ` set nexts - set seen), \<lambda>(nexts, stack, seen). length stack]")
  fix nexts :: "(string, string list) jsmap" and x :: string and stack seen :: "string list"
  assume new: "x \<notin> set seen"
  show "((nexts, rev (jget_or nexts x []) @ stack, x # seen), nexts, x # stack, seen)
    \<in> measures [\<lambda>(nexts, stack, seen). card (fst ` set nexts - set seen), \<lambda>(nexts, stack, seen). length stack]"
  proof (cases "x \<in> fst ` set nexts")
    case True
    then have "card (fst ` set nexts - set (x # seen)) < card (fst ` set nexts - set seen)"
      using new by (intro card_unseen) auto
    then show ?thesis by simp
  next
    case False
    then have "jget_or nexts x [] = []" by (simp add: jget_or_def map_of_eq_None_iff [THEN iffD2])
    moreover have "fst ` set nexts - set (x # seen) = fst ` set nexts - set seen" using False by auto
    ultimately show ?thesis by simp
  qed
qed simp_all

definition dependentsOf :: "comp_shape list \<Rightarrow> (string, string list) jsmap" where
  "dependentsOf nodes =
     foldl (\<lambda>m (dep, nid). jpush dep nid m) [] (concat (map (\<lambda>n. map (\<lambda>dep. (dep, gn_id n)) (gn_deps n)) nodes))"

definition entryIds :: "comp_shape list \<Rightarrow> string list" where
  "entryIds nodes = map gn_id (filter (\<lambda>n. gn_deps n = []) nodes)"

definition fromEntries :: "comp_shape list \<Rightarrow> string list" where
  "fromEntries nodes = flow_walk (dependentsOf nodes) (rev (entryIds nodes)) []"

definition depsMap :: "comp_shape list \<Rightarrow> (string, string list) jsmap" where
  "depsMap nodes = map (\<lambda>(i, n). (i, gn_deps n)) (shapesById nodes)"

definition toFinal :: "comp_shape list \<Rightarrow> string \<Rightarrow> string list" where
  "toFinal nodes finalnode = flow_walk (depsMap nodes) [finalnode] []"

section \<open>The refusals\<close>

datatype graph_refusal =
    FinalnodeUnknown string
  | DepsCyclic
  | SinkCount "string list"
  | SinkNotFinal string string
  | OffTheFlow string
  | FeedsNothing string string

definition competitiveGraphRefusal :: "comp_shape list \<Rightarrow> string \<Rightarrow> graph_refusal option" where
  "competitiveGraphRefusal nodes finalnode =
     (if \<not> jhas (shapesById nodes) finalnode then Some (FinalnodeUnknown finalnode)
      else if \<not> depsGraphAcyclic nodes then Some DepsCyclic
      else (case depsSinkIds nodes of
              [sink] \<Rightarrow>
                if sink \<noteq> finalnode then Some (SinkNotFinal sink finalnode)
                else (case find (\<lambda>n. gn_id n \<notin> set (fromEntries nodes)) nodes of
                        Some n \<Rightarrow> Some (OffTheFlow (gn_id n))
                      | None \<Rightarrow>
                          (case find (\<lambda>n. gn_id n \<notin> set (toFinal nodes finalnode)) nodes of
                             Some n \<Rightarrow> Some (FeedsNothing (gn_id n) finalnode)
                           | None \<Rightarrow> None))
            | sinks \<Rightarrow> Some (SinkCount (sort sinks))))"

datatype rubric_refusal = RubricMissing string | RubricEmpty string

definition rubric_entry :: "json \<Rightarrow> bool" where
  "rubric_entry j = truthyStr (Some j)"

definition competitiveRubricRefusal :: "string \<Rightarrow> json \<Rightarrow> rubric_refusal option" where
  "competitiveRubricRefusal nid params =
     (case jprop params ''rubric'' of
        Some (JArr xs) \<Rightarrow> if filter rubric_entry xs = [] then Some (RubricEmpty nid) else None
      | _ \<Rightarrow> Some (RubricMissing nid))"

section \<open>What the graph check accepts\<close>

definition shape_rel :: "comp_shape list \<Rightarrow> (string \<times> string) set" where
  "shape_rel nodes = {(gn_id n, d) | n d. n \<in> set nodes \<and> d \<in> set (gn_deps n)}"

definition well_linked :: "comp_shape list \<Rightarrow> bool" where
  "well_linked nodes \<longleftrightarrow> distinct (map gn_id nodes) \<and> list_all (\<lambda>n. set (gn_deps n) \<subseteq> gn_id ` set nodes) nodes"

lemma shapesById_map:
  "distinct (map gn_id nodes) \<Longrightarrow> shapesById nodes = map (\<lambda>n. (gn_id n, n)) nodes"
  using foldl_jset_map [of gn_id nodes "\<lambda>n. n"] by (simp add: shapesById_def)

lemma shape_get:
  "well_linked nodes \<Longrightarrow> n \<in> set nodes \<Longrightarrow> jget (shapesById nodes) (gn_id n) = Some n"
  by (rule jget_in) (auto simp: well_linked_def shapesById_map comp_def)

lemma shape_keys: "well_linked nodes \<Longrightarrow> fst ` set (shapesById nodes) = gn_id ` set nodes"
  by (simp add: well_linked_def shapesById_map image_image)

lemma succ_rel_shapes: "well_linked nodes \<Longrightarrow> succ_rel (shapeSuccs (shapesById nodes)) = shape_rel nodes"
proof -
  assume w: "well_linked nodes"
  have "d \<in> set (shapeDeps (shapesById nodes) x) \<longleftrightarrow> (x, d) \<in> shape_rel nodes" for x d
  proof (cases "x \<in> gn_id ` set nodes")
    case True
    then obtain n where n: "n \<in> set nodes" "x = gn_id n" by blast
    have "m = n" if "m \<in> set nodes" "gn_id m = gn_id n" for m
      using that n w by (auto simp: well_linked_def distinct_map dest: inj_onD)
    then show ?thesis using n shape_get [OF w n(1)] by (auto simp: shapeDeps_def shape_rel_def)
  next
    case False
    then have "jget (shapesById nodes) x = None" using shape_keys [OF w] by (simp add: map_of_eq_None_iff)
    then show ?thesis using False by (auto simp: shapeDeps_def shape_rel_def)
  qed
  moreover have "d \<in> gn_id ` set nodes" if "(x, d) \<in> shape_rel nodes" for x d
    using that w by (auto simp: shape_rel_def well_linked_def list_all_iff)
  ultimately show ?thesis
    by (auto simp: succ_rel_def shapeSuccs_def jhas_iff shape_keys [OF w])
qed

interpretation shape_search: memo_search "\<lambda>_. True" "shapeSuccs byId" "fst ` set byId" for byId
  by unfold_locales (auto simp: shapeSuccs_def jhas_iff)

lemma depsGraphAcyclic_iff: "well_linked nodes \<Longrightarrow> depsGraphAcyclic nodes \<longleftrightarrow> acyclic (shape_rel nodes)"
proof -
  assume w: "well_linked nodes"
  let ?s = "shapeSuccs (shapesById nodes)" and ?N = "gn_id ` set nodes"
  have pre: "\<forall>y. Some y \<in> set (map (\<lambda>n. Some (gn_id n)) nodes) \<longrightarrow> y \<in> fst ` set (shapesById nodes)"
    using shape_keys [OF w] by auto
  have c: "card (fst ` set (shapesById nodes)) < Suc (length nodes)"
    unfolding shape_keys [OF w] using card_length [of "map gn_id nodes"] by simp
  obtain m where "memo_every (memo_visit (Suc (length nodes)) (\<lambda>_. True) ?s) (map (\<lambda>n. Some (gn_id n)) nodes) [] =
      Some (None \<notin> set (map (\<lambda>n. Some (gn_id n)) nodes) \<and>
        (\<forall>y. Some y \<in> set (map (\<lambda>n. Some (gn_id n)) nodes) \<longrightarrow> good (\<lambda>_. True) ?s y), m)"
    using shape_search.every_good [OF pre c memo_ok_empty] by blast
  then have "depsGraphAcyclic nodes \<longleftrightarrow> (\<forall>x \<in> ?N. good (\<lambda>_. True) ?s x)"
    by (auto simp: depsGraphAcyclic_def)
  also have "\<dots> \<longleftrightarrow> acyclic (succ_rel ?s)"
  proof (rule all_good_iff_acyclic)
    show "succ_rel ?s \<subseteq> ?N \<times> ?N"
      unfolding succ_rel_shapes [OF w] using w by (auto simp: shape_rel_def well_linked_def list_all_iff)
  qed (auto simp: shapeSuccs_def)
  finally show ?thesis by (simp add: succ_rel_shapes [OF w])
qed

text \<open>A closure holds its starts and all that follows what it holds.\<close>

lemma flow_walk_seen: "set seen \<subseteq> set (flow_walk nexts stack seen)"
  by (induction nexts stack seen rule: flow_walk.induct) auto

lemma flow_walk_stack: "set stack \<subseteq> set (flow_walk nexts stack seen)"
proof (induction nexts stack seen rule: flow_walk.induct)
  case (2 nexts x stack seen)
  then show ?case using flow_walk_seen [of seen nexts stack] flow_walk_seen [of "x # seen" nexts] by auto
qed simp

lemma flow_walk_closed:
  "\<forall>x \<in> set seen. set (jget_or nexts x []) \<subseteq> set seen \<union> set stack \<Longrightarrow>
   \<forall>x \<in> set (flow_walk nexts stack seen). set (jget_or nexts x []) \<subseteq> set (flow_walk nexts stack seen)"
proof (induction nexts stack seen rule: flow_walk.induct)
  case (2 nexts y stack seen)
  show ?case
  proof (cases "y \<in> set seen")
    case True
    have "\<forall>x \<in> set seen. set (jget_or nexts x []) \<subseteq> set seen \<union> set stack"
      using 2(3) True by auto
    from 2(1) [OF True this] show ?thesis by (simp only: flow_walk.simps(2) if_P [OF True])
  next
    case False
    have "set (jget_or nexts x []) \<subseteq> set (y # seen) \<union> set (rev (jget_or nexts y []) @ stack)" if "x \<in> set (y # seen)" for x
    proof (cases "x = y")
      case False
      then have "set (jget_or nexts x []) \<subseteq> set seen \<union> set (y # stack)" using that 2(3) by simp
      then show ?thesis by auto
    qed auto
    then have "\<forall>x \<in> set (y # seen). set (jget_or nexts x []) \<subseteq> set (y # seen) \<union> set (rev (jget_or nexts y []) @ stack)" by blast
    from 2(2) [OF False this] show ?thesis by (simp only: flow_walk.simps(2) if_not_P [OF False])
  qed
qed (simp only: flow_walk.simps(1) list.set(1) Un_empty_right)

lemma dependentsOf_get:
  "x \<in> set (jget_or (dependentsOf nodes) d []) \<longleftrightarrow> (x, d) \<in> shape_rel nodes"
proof -
  have push: "x \<in> set (jget_or (foldl (\<lambda>m (dep, nid). jpush dep nid m) m ps) d []) \<longleftrightarrow>
      x \<in> set (jget_or m d []) \<or> (d, x) \<in> set ps" for m :: "(string, string list) jsmap" and ps
  proof (induction ps arbitrary: m)
    case (Cons p ps)
    show ?case unfolding foldl.simps Cons.IH by (cases p) (simp add: disj_commute disj_left_commute)
  qed simp
  show ?thesis unfolding dependentsOf_def push by (auto simp: jget_or_def shape_rel_def)
qed

lemma depsMap_get:
  assumes "well_linked nodes" "n \<in> set nodes"
  shows "jget_or (depsMap nodes) (gn_id n) [] = gn_deps n"
proof -
  have "jget (depsMap nodes) (gn_id n) = map_option gn_deps (jget (shapesById nodes) (gn_id n))"
    by (simp add: depsMap_def map_of_map)
  then show ?thesis using shape_get [OF assms] by (simp add: jget_or_def)
qed

lemma finite_shape_rel: "finite (shape_rel nodes)"
proof -
  have "shape_rel nodes = (\<Union>n \<in> set nodes. Pair (gn_id n) ` set (gn_deps n))" by (auto simp: shape_rel_def)
  then show ?thesis by simp
qed

lemma acyclic_on_flow:
  assumes w: "well_linked nodes" and a: "acyclic (shape_rel nodes)"
  shows "n \<in> set nodes \<Longrightarrow> gn_id n \<in> set (fromEntries nodes)"
proof (induction "gn_id n" arbitrary: n rule: wf_induct_rule [OF finite_acyclic_wf_converse [OF finite_shape_rel a]])
  case 1
  let ?T = "set (fromEntries nodes)"
  show ?case
  proof (cases "gn_deps n")
    case Nil
    then have "gn_id n \<in> set (rev (entryIds nodes))" using 1(2) by (auto simp: entryIds_def)
    then show ?thesis unfolding fromEntries_def using flow_walk_stack by blast
  next
    case (Cons d ds)
    then have e: "(gn_id n, d) \<in> shape_rel nodes" using 1(2) by (auto simp: shape_rel_def)
    have "set (gn_deps n) \<subseteq> gn_id ` set nodes" using w 1(2) by (simp add: well_linked_def list_all_iff)
    then obtain m where m: "m \<in> set nodes" "gn_id m = d" using Cons by auto
    then have "d \<in> ?T" using 1(1) [of m] e by simp
    moreover have "gn_id n \<in> set (jget_or (dependentsOf nodes) d [])" using e by (simp add: dependentsOf_get)
    ultimately show ?thesis unfolding fromEntries_def
      using flow_walk_closed [of "[]" "dependentsOf nodes" "rev (entryIds nodes)"] by fastforce
  qed
qed

lemma acyclic_feeds:
  assumes w: "well_linked nodes" and a: "acyclic (shape_rel nodes)" and s: "depsSinkIds nodes = [f]"
  shows "n \<in> set nodes \<Longrightarrow> gn_id n \<in> set (toFinal nodes f)"
proof (induction "gn_id n" arbitrary: n rule: wf_induct_rule [OF finite_acyclic_wf [OF finite_shape_rel a]])
  case 1
  show ?case
  proof (cases "gn_id n = f")
    case True
    then show ?thesis unfolding toFinal_def using flow_walk_stack by fastforce
  next
    case False
    have "gn_id n \<notin> set (depsSinkIds nodes)" using False s by simp
    then obtain m where m: "m \<in> set nodes" "gn_id n \<in> set (gn_deps m)" using 1(2) by (auto simp: depsSinkIds_def)
    then have "(gn_id m, gn_id n) \<in> shape_rel nodes" by (auto simp: shape_rel_def)
    then have "gn_id m \<in> set (toFinal nodes f)" using 1(1) [of m] m(1) by simp
    moreover have "gn_id n \<in> set (jget_or (depsMap nodes) (gn_id m) [])" using depsMap_get [OF w m(1)] m(2) by simp
    ultimately show ?thesis unfolding toFinal_def using flow_walk_closed [of "[]" "depsMap nodes" "[f]"] by fastforce
  qed
qed

lemma sink_known: "depsSinkIds nodes = [f] \<Longrightarrow> f \<in> gn_id ` set nodes"
proof -
  assume "depsSinkIds nodes = [f]"
  then have "f \<in> set (depsSinkIds nodes)" by simp
  then show ?thesis by (auto simp: depsSinkIds_def)
qed

lemma graph_check_cases:
  assumes w: "well_linked nodes"
  shows "competitiveGraphRefusal nodes f =
    (if f \<notin> gn_id ` set nodes then Some (FinalnodeUnknown f)
     else if \<not> acyclic (shape_rel nodes) then Some DepsCyclic
     else case depsSinkIds nodes of
            [sink] \<Rightarrow> if sink = f then None else Some (SinkNotFinal sink f)
          | sinks \<Rightarrow> Some (SinkCount (sort sinks)))"
proof (cases "acyclic (shape_rel nodes) \<and> depsSinkIds nodes = [f]")
  case True
  then have "find (\<lambda>n. gn_id n \<notin> set (fromEntries nodes)) nodes = None"
    "find (\<lambda>n. gn_id n \<notin> set (toFinal nodes f)) nodes = None"
    using acyclic_on_flow [OF w] acyclic_feeds [OF w] by (auto simp: find_None_iff)
  then show ?thesis
    using True sink_known [of nodes f] depsGraphAcyclic_iff [OF w] shape_keys [OF w]
    by (simp add: competitiveGraphRefusal_def jhas_iff)
next
  case False
  then show ?thesis
    using depsGraphAcyclic_iff [OF w] shape_keys [OF w]
    by (auto simp: competitiveGraphRefusal_def jhas_iff split: list.split)
qed

end
