(* ===== verification/AgentTools.thy ===== *)
theory AgentTools
  imports AgentSpec AgentGraph Sweep
begin

text \<open>
  libs/metataskAgentTools.ts, the participation tools of a session's bot: claim, submit, verify and
  release, with the replay guard and the activation gate. A handler reads the control (identity,
  board, projections, event cache, clock) and either refuses, or writes one pin and replies. What
  the control returns is a field of \<open>agent_env\<close>, \<open>createPin\<close> (chain I/O) is an argument, and the
  background refresh after a write and the human-readable notes of a reply are left out. A run
  gives the pins written and the reply, or \<open>None\<close> when the guard's replay does not return.
\<close>

section \<open>Control, writes and replies\<close>

record agent_env =
  ae_metabotId :: "int option" \<comment> \<open>\<open>resolveMetabotId(sessionId)\<close>\<close>
  ae_globalMetaIdOf :: "int \<Rightarrow> string option"
  ae_localRoster :: "string list"
  ae_board :: "mt_board option"
  ae_detail :: "string \<Rightarrow> task_projection option" \<comment> \<open>the cached projection\<close>
  ae_detailRefreshed :: "string \<Rightarrow> task_projection option" \<comment> \<open>the same after a sweep\<close>
  ae_events :: "chain_event list"
  ae_now :: int
  ae_sha :: "string \<Rightarrow> string"
  ae_drafts :: "string \<Rightarrow> json option" \<comment> \<open>parsed content of a file\<close>

record pin_write =
  wr_metabotId :: int
  wr_path :: string
  wr_payload :: json

record pin_result =
  pr_pinId :: string
  pr_txids :: "string list"
  pr_totalCost :: rat

type_synonym pin_writer = "pin_write \<Rightarrow> pin_result option" \<comment> \<open>\<open>None\<close>: it throws\<close>

datatype gate_refusal = GateNotAnnounced | GateBoundaryUnknown int | GateTooEarly int int

datatype submit_refusal =
    HolderMismatch string node_status
  | OtherBotsClaim
  | AggregateNeedsChildren
  | LeafWithChildren
  | ChildIdsInCompetitive
  | EntryNodeWithRefs string
  | RefsMismatch "string list" "string list"
  | RefEmpty string
  | RefNotSubmission string string
  | RefOnOtherNode string string string
  | ParentsDoomed "(string \<times> string) list"
  | GitTypeMissing
  | GitCommitMalformed
  | GitBaseCommitMalformed
  | GitBundleMissing

datatype vote_refusal =
    MethodEmpty
  | SemanticCheckEmpty
  | FailReasonEmpty
  | TargetNotFound string
  | ReviewerNotIndependent
  | SameSideRoster

datatype publish_refusal =
    ModesMixed
  | ModeHalfGiven
  | SpecPinsWithoutFile
  | TitleEmpty
  | QuorumInvalid
  | ModeUnknown string
  | FinalnodeInTreeMode
  | FinalnodeMissing
  | ClaimTtlInvalid
  | VerifyWindowInvalid
  | NodesEmpty
  | NodeIdsRepeat
  | NodeIdOrTitleEmpty
  | RootCount nat
  | WeightOutOfRange string
  | ParentUnknown string string
  | DepUnknown string string
  | WeightsSum int
  | ParentsCyclic
  | SpecNameOrEntryEmpty

datatype amend_refusal =
    NotThePublisher
  | TaskFinalized
  | AddNodeIdTaken
  | AddNodeParentUnknown string
  | AddNodeParentFrozen string
  | AddNodeDepUnknown string string
  | AddNodeDepFrozen string string
  | TargetUnknown string
  | NodeFrozen string
  | SubtreeFrozen string
  | ListedInDeps string "string list"
  | OpUnknown string
  | AmendWeightInvalid
  | AmendWeightsSum int
  | AmendDepDangling string string
  | AmendDepsCyclic
  | AmendFinalnodeGone string
  | AmendSinkMoved string "string list"

datatype refusal =
    NoMetabot
  | NoGlobalMetaId
  | ReplayFailed
  | NodeNotFound string
  | TaskNotFound string
  | ClaimRejected string node_status
  | OwnTask
  | CompetitiveRelease
  | NotTheHolder
  | NotYourClaim
  | SubmitRefused submit_refusal
  | VoteRefused vote_refusal
  | PublishRefused publish_refusal
  | AmendRefused amend_refusal
  | SpecRefused spec_refusal
  | DraftsRefused drafts_refusal
  | GateRefused gate_refusal
  | GraphRefused graph_refusal
  | RubricRefused rubric_refusal

datatype tool_reply = Refused refusal | Failed | Reply json

type_synonym tool_run = "pin_write list \<times> tool_reply"

text \<open>The guards of a handler in the order of its early returns.\<close>

fun first_refusal :: "'r option list \<Rightarrow> 'r option" where
  "first_refusal [] = None"
| "first_refusal (None # rs) = first_refusal rs"
| "first_refusal (Some r # rs) = Some r"

definition refuse_if :: "bool \<Rightarrow> 'r \<Rightarrow> 'r option" where
  "refuse_if c r = (if c then Some r else None)"

lemma refuse_if_None [simp]: "refuse_if c r = None \<longleftrightarrow> \<not> c"
  by (simp add: refuse_if_def)

lemma first_refusal_None [simp]: "first_refusal rs = None \<longleftrightarrow> (\<forall>r \<in> set rs. r = None)"
  by (induction rs rule: first_refusal.induct) auto

definition protocol_pin :: "int \<Rightarrow> string \<Rightarrow> body \<Rightarrow> pin_write" where
  "protocol_pin metabotId subpath payload =
     \<lparr>wr_metabotId = metabotId, wr_path = ''/protocols/metatask/'' @ subpath, wr_payload = JObj payload\<rparr>"

text \<open>\<open>writePin\<close>, then the reply built from its result.\<close>

definition write_one :: "pin_writer \<Rightarrow> pin_write \<Rightarrow> (pin_result \<Rightarrow> body) \<Rightarrow> tool_run" where
  "write_one createPin w reply =
     (case createPin w of
        None \<Rightarrow> ([], Failed)
      | Some r \<Rightarrow> ([w], Reply (JObj (reply r))))"

definition txids_json :: "string list \<Rightarrow> json" where
  "txids_json ids = JArr (map JStr ids)"

text \<open>\<open>String(args.k ?? '')\<close>.\<close>

definition arg_string :: "body \<Rightarrow> string \<Rightarrow> string" where
  "arg_string args k = js_string_opt (nullish (jget args k) (Some (JStr '''')))"

section \<open>Identity, projection, guard and gate\<close>

definition agentIdentity :: "agent_env \<Rightarrow> refusal + (int \<times> string)" where
  "agentIdentity env =
     (case ae_metabotId env of
        None \<Rightarrow> Inl NoMetabot
      | Some metabotId \<Rightarrow>
          (case ae_globalMetaIdOf env metabotId of
             None \<Rightarrow> Inl NoGlobalMetaId
           | Some g \<Rightarrow> if g = '''' then Inl NoGlobalMetaId else Inr (metabotId, g)))"

definition projectionAfterRefresh :: "agent_env \<Rightarrow> string \<Rightarrow> task_projection option" where
  "projectionAfterRefresh env rootPinId =
     (case ae_detail env rootPinId of
        Some p \<Rightarrow> Some p
      | None \<Rightarrow> ae_detailRefreshed env rootPinId)"

definition guardOptions :: "agent_env \<Rightarrow> string \<Rightarrow> replay_options" where
  "guardOptions env rootPinId =
     defaultOptions\<lparr>ro_rootPinId := Some rootPinId, ro_now := Some (ae_now env),
       ro_evaluatedAtMs := ae_now env, ro_rosterPins := Some (rosterPinsFromEvents (ae_events env))\<rparr>"

definition guardKnownNode :: "agent_env \<Rightarrow> string \<Rightarrow> string \<Rightarrow> (refusal + task_projection) option" where
  "guardKnownNode env rootPinId node =
     (case replayMetaTask (ae_sha env) (ae_events env) (guardOptions env rootPinId) of
        None \<Rightarrow> None
      | Some (Inl _) \<Rightarrow> Some (Inl ReplayFailed)
      | Some (Inr p) \<Rightarrow> Some (if jhas (tp_nodeStates p) node then Inr p else Inl (NodeNotFound node)))"

definition announcedHeight :: "mt_board option \<Rightarrow> int option" where
  "announcedHeight b =
     (case (case b of None \<Rightarrow> None | Some b \<Rightarrow> bd_hAct3 b) of None \<Rightarrow> H_ACT3 | Some h \<Rightarrow> Some h)"

definition hAct3GateRefusal :: "mt_board option \<Rightarrow> bool \<Rightarrow> gate_refusal option" where
  "hAct3GateRefusal b allowPreActivation =
     (if allowPreActivation then None
      else (case announcedHeight b of
              None \<Rightarrow> Some GateNotAnnounced
            | Some hAct3 \<Rightarrow>
                (case b of
                   None \<Rightarrow> Some (GateBoundaryUnknown hAct3)
                 | Some b \<Rightarrow>
                     if rs_boundaryBlock (bd_refresh b) < 0 then Some (GateBoundaryUnknown hAct3)
                     else if rs_boundaryBlock (bd_refresh b) < hAct3
                       then Some (GateTooEarly hAct3 (rs_boundaryBlock (bd_refresh b)))
                     else None)))"

definition competitiveTask :: "task_projection \<Rightarrow> bool" where
  "competitiveTask p \<longleftrightarrow> po_mode (tp_policy p) = ''competitive''"

section \<open>metatask_claim\<close>

definition claimRefusal :: "string \<Rightarrow> task_projection \<Rightarrow> string \<Rightarrow> refusal option" where
  "claimRefusal who p node =
     (case jget (tp_nodeStates p) node of
        None \<Rightarrow> Some (NodeNotFound node)
      | Some np \<Rightarrow> first_refusal
          [refuse_if (\<not> competitiveTask p \<and> np_status np \<noteq> StOpen) (ClaimRejected node (np_status np)),
           refuse_if (tp_publisher p = who) OwnTask])"

definition claimNode :: "agent_env \<Rightarrow> pin_writer \<Rightarrow> body \<Rightarrow> tool_run option" where
  "claimNode env createPin args =
     (case agentIdentity env of
        Inl r \<Rightarrow> Some ([], Refused r)
      | Inr (metabotId, who) \<Rightarrow>
          (case (arg_string args ''rootPinId'', arg_string args ''node'') of (rootPinId, node) \<Rightarrow>
             (case guardKnownNode env rootPinId node of
                None \<Rightarrow> None
              | Some (Inl r) \<Rightarrow> Some ([], Refused r)
              | Some (Inr p) \<Rightarrow>
                  (case claimRefusal who p node of
                     Some r \<Rightarrow> Some ([], Refused r)
                   | None \<Rightarrow> Some (write_one createPin
                       (protocol_pin metabotId ''claim'' [(''taskid'', JStr rootPinId), (''node'', JStr node)])
                       (\<lambda>r. [(''claimPinId'', JStr (pr_pinId r)), (''txids'', txids_json (pr_txids r)),
                             (''node'', JStr node), (''taskid'', JStr rootPinId)] @
                            (if competitiveTask p then [(''intentOnly'', JBool True)] else [])))))))"

section \<open>metatask_submit\<close>

definition submitTreeRefusal :: "string \<Rightarrow> string \<Rightarrow> string \<Rightarrow> string list \<Rightarrow> task_projection \<Rightarrow> node_projection \<Rightarrow> submit_refusal option" where
  "submitTreeRefusal who node claimPinId childIds detail nodeState =
     (case np_holder nodeState of
        None \<Rightarrow> Some (HolderMismatch node (np_status nodeState))
      | Some h \<Rightarrow>
          (case (case find (\<lambda>n. jprop n ''id'' = Some (JStr node)) (tp_nodes detail) of
                   None \<Rightarrow> False | Some n \<Rightarrow> jprop n ''kind'' = Some (JStr ''aggregate'')) of isAggregate \<Rightarrow>
             first_refusal
               [refuse_if (ho_pinId h \<noteq> claimPinId) (HolderMismatch node (np_status nodeState)),
                refuse_if (ho_claimant h \<noteq> who) OtherBotsClaim,
                refuse_if (tp_nodes detail \<noteq> [] \<and> isAggregate \<and> childIds = []) AggregateNeedsChildren,
                refuse_if (tp_nodes detail \<noteq> [] \<and> \<not> isAggregate \<and> childIds \<noteq> []) LeafWithChildren]))"

text \<open>The deps of a node in the replayed tree, and the references given for them.\<close>

definition depsIn :: "task_projection \<Rightarrow> string \<Rightarrow> string list" where
  "depsIn p node =
     (case find (\<lambda>n. jprop n ''id'' = Some (JStr node)) (tp_nodes p) of
        None \<Rightarrow> []
      | Some n \<Rightarrow> map js_string (arr_or_empty (jprop n ''deps'')))"

fun givenRefs :: "json option \<Rightarrow> (string, string) jsmap" where
  "givenRefs (Some (JObj kv)) = foldl (\<lambda>m (k, v). jset k (trimmed (Some v)) m) [] (own_order kv)"
| "givenRefs _ = []"

definition taskSubmissions :: "chain_event list \<Rightarrow> string \<Rightarrow> chain_event list" where
  "taskSubmissions events rootPinId =
     filter (\<lambda>e. ev_path e = ''submission'' \<and> body_str e ''taskid'' = rootPinId) events"

definition refRefusal :: "chain_event list \<Rightarrow> (string, string) jsmap \<Rightarrow> string \<Rightarrow> submit_refusal option" where
  "refRefusal subs refs dep =
     (case jget_or refs dep '''' of ref \<Rightarrow>
        if ref = '''' then Some (RefEmpty dep)
        else (case find_pin ref subs of
                None \<Rightarrow> Some (RefNotSubmission dep ref)
              | Some target \<Rightarrow>
                  if body_str target ''node'' \<noteq> dep then Some (RefOnOtherNode dep ref (body_str target ''node''))
                  else None))"

definition refsRefusal :: "chain_event list \<Rightarrow> string \<Rightarrow> string list \<Rightarrow> (string, string) jsmap \<Rightarrow> submit_refusal option" where
  "refsRefusal subs node deps refs =
     (if deps = [] then refuse_if (refs \<noteq> []) (EntryNodeWithRefs node)
      else (case (filter (\<lambda>dep. jget_or refs dep '''' = '''') deps, filter (\<lambda>k. k \<notin> set deps) (map fst refs)) of
              (missing, extra) \<Rightarrow>
                if missing \<noteq> [] \<or> extra \<noteq> [] then Some (RefsMismatch missing extra)
                else first_refusal (map (refRefusal subs refs) deps)))"

definition parentrefsOf :: "string list \<Rightarrow> (string, string) jsmap \<Rightarrow> (string, string) jsmap" where
  "parentrefsOf deps refs = foldl (\<lambda>m dep. jset dep (jget_or refs dep '''') m) [] deps"

datatype parent_state = Doomed | Unverified | AncestorsUnverified | Sound

definition parentState :: "task_projection \<Rightarrow> string \<Rightarrow> string \<Rightarrow> parent_state" where
  "parentState p dep ref =
     (case (case jget (tp_nodeStates p) dep of
              None \<Rightarrow> None
            | Some np \<Rightarrow> (case np_submissions np of None \<Rightarrow> None | Some cs \<Rightarrow> find (\<lambda>c. ca_pinId c = ref) cs)) of
        None \<Rightarrow> Doomed
      | Some c \<Rightarrow>
          if ca_failed c \<or> ca_superseded c then Doomed
          else if \<not> ca_verified c then Unverified
          else if \<not> ca_chainValid c then AncestorsUnverified
          else Sound)"

definition parentsWith :: "task_projection \<Rightarrow> string list \<Rightarrow> (string, string) jsmap \<Rightarrow> (string \<times> string \<times> parent_state) list" where
  "parentsWith p deps parentrefs =
     map (\<lambda>dep. case jget_or parentrefs dep '''' of ref \<Rightarrow> (dep, ref, parentState p dep ref)) deps"

definition doomedParents :: "(string \<times> string \<times> parent_state) list \<Rightarrow> (string \<times> string) list" where
  "doomedParents parents = map (\<lambda>(dep, ref, _). (dep, ref)) (filter (\<lambda>(_, _, s). s = Doomed) parents)"

definition stateText :: "parent_state \<Rightarrow> string" where
  "stateText s = (if s = Unverified then ''unverified'' else ''verified_but_ancestor_chain_unverified'')"

definition optimisticParents :: "(string \<times> string \<times> parent_state) list \<Rightarrow> json list" where
  "optimisticParents parents =
     map (\<lambda>(dep, ref, s). JObj [(''parent'', JStr dep), (''pinId'', JStr ref), (''state'', JStr (stateText s))])
       (filter (\<lambda>(_, _, s). s \<in> {Unverified, AncestorsUnverified}) parents)"

definition submitCompRefusal ::
  "chain_event list \<Rightarrow> string \<Rightarrow> task_projection \<Rightarrow> string list \<Rightarrow> (string, string) jsmap \<Rightarrow> submit_refusal option" where
  "submitCompRefusal subs node p deps refs =
     (case refsRefusal subs node deps refs of
        Some r \<Rightarrow> Some r
      | None \<Rightarrow>
          (case doomedParents (parentsWith p deps (parentrefsOf deps refs)) of
             [] \<Rightarrow> None
           | doomed \<Rightarrow> Some (ParentsDoomed doomed)))"

text \<open>The node's spec: its own, else the task's.\<close>

definition effectiveSpecid :: "chain_event list \<Rightarrow> string \<Rightarrow> node_projection option \<Rightarrow> json" where
  "effectiveSpecid events rootPinId np =
     (case (case np of None \<Rightarrow> JNull | Some np \<Rightarrow> np_specid np) of
        JNull \<Rightarrow>
          JStr (case find (\<lambda>e. ev_path e = ''task'' \<and> ev_pinId e = rootPinId) events of
                  None \<Rightarrow> '''' | Some t \<Rightarrow> body_str t ''specid'')
      | j \<Rightarrow> j)"

definition specWorkspace :: "chain_event list \<Rightarrow> json \<Rightarrow> json option" where
  "specWorkspace events specid =
     (if \<not> js_truthy (Some specid) then None
      else (case find (\<lambda>e. ev_path e = ''spec'' \<and> JStr (ev_pinId e) = specid) events of
              None \<Rightarrow> None | Some s \<Rightarrow> body_get s ''workspace''))"

definition gitRefusal :: "json option \<Rightarrow> body \<Rightarrow> json option \<Rightarrow> submit_refusal option" where
  "gitRefusal workspace result attachment =
     (if is_plain_object workspace \<and> jopt workspace ''type'' = Some (JStr ''git'')
      then first_refusal
        [refuse_if (jget result ''type'' \<noteq> Some (JStr ''git-bundle'')) GitTypeMissing,
         refuse_if (\<not> GIT_COMMIT_RE (asStr (jget result ''commit'') '''')) GitCommitMalformed,
         refuse_if (\<not> (jget result ''baseCommit'' = Some JNull \<or> GIT_COMMIT_RE (asStr (jget result ''baseCommit'') '''')))
           GitBaseCommitMalformed,
         refuse_if (take 11 (asStr attachment '''') \<noteq> ''metafile://'') GitBundleMissing]
      else None)"

text \<open>The hashes are taken before an aggregate's children are added to the result.\<close>

definition hashedResult :: "(string \<Rightarrow> string) \<Rightarrow> body \<Rightarrow> body" where
  "hashedResult sha result =
     (let core = jdel ''hash'' result in jset ''hash'' (JStr (innerHash sha core)) core)"

definition submitPayload ::
  "(string \<Rightarrow> string) \<Rightarrow> bool \<Rightarrow> string \<Rightarrow> string \<Rightarrow> string \<Rightarrow> string list \<Rightarrow> (string, string) jsmap option \<Rightarrow> body \<Rightarrow> body" where
  "submitPayload sha competitive rootPinId node claimPinId childIds parentrefs args =
     (let hashed = hashedResult sha (case jget args ''result'' of Some (JObj kv) \<Rightarrow> kv | _ \<Rightarrow> []);
          result = (if \<not> competitive \<and> childIds \<noteq> []
            then jset ''childids'' (JArr (map JStr childIds)) hashed else hashed)
      in [(''taskid'', JStr rootPinId), (''node'', JStr node)] @
         (if competitive then [] else [(''claimid'', JStr claimPinId)]) @
         [(''result'', JObj result), (''hash'', JStr (outerHash sha hashed)),
          (''contentType'', or_null (nullish (jget args ''contentType'') (Some (JStr ''application/json;utf-8'')))),
          (''attachment'', or_null (nullish (jget args ''attachment'') (Some JNull))),
          (''childids'', JArr (if competitive then [] else map JStr childIds))] @
         (case parentrefs of None \<Rightarrow> [] | Some refs \<Rightarrow> [(''parentrefs'', JObj (map (\<lambda>(k, v). (k, JStr v)) refs))]) @
         (if js_truthy (jget args ''supersedePinId'')
          then [(''supersedeid'', JStr (js_string_opt (jget args ''supersedePinId'')))] else []))"

definition submitReply :: "body \<Rightarrow> bool \<Rightarrow> (string, string) jsmap option \<Rightarrow> json list \<Rightarrow> bool \<Rightarrow> pin_result \<Rightarrow> body" where
  "submitReply payload competitive parentrefs optimistic claimPinIdIgnored r =
     [(''submissionPinId'', JStr (pr_pinId r)), (''txids'', txids_json (pr_txids r)),
      (''innerHash'', or_null (jopt (jget payload ''result'') ''hash'')), (''outerHash'', or_null (jget payload ''hash''))] @
     (if competitive
      then [(''mode'', JStr ''competitive''),
            (''parentrefs'', case parentrefs of None \<Rightarrow> JNull | Some refs \<Rightarrow> JObj (map (\<lambda>(k, v). (k, JStr v)) refs)),
            (''optimistic'', JBool (optimistic \<noteq> []))] @
           (if optimistic \<noteq> [] then [(''optimisticParents'', JArr optimistic)] else []) @
           (if claimPinIdIgnored then [(''claimPinIdIgnored'', JBool True)] else [])
      else [])"

text \<open>What the competitive branch decides: the deps, the references, the replayed projection.\<close>

definition submitComp ::
  "agent_env \<Rightarrow> string \<Rightarrow> string \<Rightarrow> string \<Rightarrow> string list \<Rightarrow> body \<Rightarrow> task_projection \<Rightarrow>
   (refusal + (task_projection \<times> (string, string) jsmap option \<times> json list)) option" where
  "submitComp env who rootPinId node childIds args detail =
     (if tp_publisher detail = who then Some (Inl OwnTask)
      else if childIds \<noteq> [] then Some (Inl (SubmitRefused ChildIdsInCompetitive))
      else (case guardKnownNode env rootPinId node of
              None \<Rightarrow> None
            | Some (Inl r) \<Rightarrow> Some (Inl r)
            | Some (Inr p) \<Rightarrow>
                (case (depsIn p node, givenRefs (jget args ''parentRefs'')) of (deps, refs) \<Rightarrow>
                   (case submitCompRefusal (taskSubmissions (ae_events env) rootPinId) node p deps refs of
                      Some r \<Rightarrow> Some (Inl (SubmitRefused r))
                    | None \<Rightarrow> Some (Inr (p,
                        if deps = [] then None else Some (parentrefsOf deps refs),
                        optimisticParents (parentsWith p deps (parentrefsOf deps refs))))))))"

definition submitDecision ::
  "agent_env \<Rightarrow> string \<Rightarrow> string \<Rightarrow> string \<Rightarrow> body \<Rightarrow> task_projection \<Rightarrow> node_projection \<Rightarrow>
   (refusal + (task_projection \<times> (string, string) jsmap option \<times> json list)) option" where
  "submitDecision env who rootPinId node args detail nodeState =
     (case map js_string (arr_or_empty (jget args ''childIds'')) of childIds \<Rightarrow>
        if competitiveTask detail then submitComp env who rootPinId node childIds args detail
        else (case submitTreeRefusal who node (arg_string args ''claimPinId'') childIds detail nodeState of
                Some r \<Rightarrow> Some (Inl (SubmitRefused r))
              | None \<Rightarrow> Some (Inr (detail, None, []))))"

definition submitWork :: "agent_env \<Rightarrow> pin_writer \<Rightarrow> body \<Rightarrow> tool_run option" where
  "submitWork env createPin args =
     (case agentIdentity env of
        Inl r \<Rightarrow> Some ([], Refused r)
      | Inr (metabotId, who) \<Rightarrow>
          (case (arg_string args ''rootPinId'', arg_string args ''node'') of (rootPinId, node) \<Rightarrow>
             (case projectionAfterRefresh env rootPinId of
                None \<Rightarrow> Some ([], Refused (TaskNotFound rootPinId))
              | Some detail \<Rightarrow>
                  (case jget (tp_nodeStates detail) node of
                     None \<Rightarrow> Some ([], Refused (NodeNotFound node))
                   | Some nodeState \<Rightarrow>
                       (case submitDecision env who rootPinId node args detail nodeState of
                          None \<Rightarrow> None
                        | Some (Inl r) \<Rightarrow> Some ([], Refused r)
                        | Some (Inr (effective, parentrefs, optimistic)) \<Rightarrow>
                            (case gitRefusal
                                    (specWorkspace (ae_events env)
                                      (effectiveSpecid (ae_events env) rootPinId (jget (tp_nodeStates effective) node)))
                                    (case jget args ''result'' of Some (JObj kv) \<Rightarrow> kv | _ \<Rightarrow> []) (jget args ''attachment'') of
                               Some r \<Rightarrow> Some ([], Refused (SubmitRefused r))
                             | None \<Rightarrow>
                                 (case submitPayload (ae_sha env) (competitiveTask detail) rootPinId node
                                         (arg_string args ''claimPinId'') (map js_string (arr_or_empty (jget args ''childIds'')))
                                         parentrefs args of payload \<Rightarrow>
                                    Some (write_one createPin (protocol_pin metabotId ''submission'' payload)
                                      (submitReply payload (competitiveTask detail) parentrefs optimistic
                                        (trimmed (jget args ''claimPinId'') \<noteq> ''''))))))))))"

section \<open>metatask_verify\<close>

definition castVerdict :: "body \<Rightarrow> string" where
  "castVerdict args = (if jget args ''verdict'' = Some (JStr ''fail'') then ''fail'' else ''pass'')"

definition voteTextRefusal :: "body \<Rightarrow> vote_refusal option" where
  "voteTextRefusal args = first_refusal
     [refuse_if (trimmed (jget args ''method'') = '''') MethodEmpty,
      refuse_if (trimmed (jget args ''semanticCheck'') = '''') SemanticCheckEmpty,
      refuse_if (castVerdict args = ''fail'' \<and> trimmed (jget args ''failReason'') = '''') FailReasonEmpty]"

definition rootAuthorOf :: "chain_event list \<Rightarrow> chain_event \<Rightarrow> string" where
  "rootAuthorOf events target =
     (case find (\<lambda>e. ev_path e = ''task'' \<and> ev_pinId e = body_str target ''taskid'') events of
        None \<Rightarrow> '''' | Some t \<Rightarrow> ev_author t)"

definition nonempty_ids :: "string list \<Rightarrow> string list" where
  "nonempty_ids ids = filter (\<lambda>m. m \<noteq> '''') ids"

definition independenceRefusal :: "agent_env \<Rightarrow> string \<Rightarrow> string \<Rightarrow> string \<Rightarrow> vote_refusal option" where
  "independenceRefusal env who submitter rootAuthor = first_refusal
     [refuse_if (who = submitter \<or> who = rootAuthor) ReviewerNotIndependent,
      refuse_if (submitter \<in> set (nonempty_ids (ae_localRoster env)) \<or> rootAuthor \<in> set (nonempty_ids (ae_localRoster env)))
        SameSideRoster]"

definition votePayload :: "body \<Rightarrow> body" where
  "votePayload args =
     [(''targetid'', JStr (arg_string args ''targetPinId'')), (''verdict'', JStr (castVerdict args)),
      (''method'', JStr (trimmed (jget args ''method''))), (''evidence'', JStr (asStr (jget args ''evidence'') '''')),
      (''semantic_check'', JStr (trimmed (jget args ''semanticCheck'')))] @
     (if castVerdict args = ''fail'' then [(''failreason'', JStr (trimmed (jget args ''failReason'')))] else [])"

definition verifySubmission :: "agent_env \<Rightarrow> pin_writer \<Rightarrow> body \<Rightarrow> tool_run" where
  "verifySubmission env createPin args =
     (case agentIdentity env of
        Inl r \<Rightarrow> ([], Refused r)
      | Inr (metabotId, who) \<Rightarrow>
          (case voteTextRefusal args of
             Some r \<Rightarrow> ([], Refused (VoteRefused r))
           | None \<Rightarrow>
               (case find (\<lambda>e. ev_pinId e = arg_string args ''targetPinId'' \<and> ev_path e = ''submission'') (ae_events env) of
                  None \<Rightarrow> ([], Refused (VoteRefused (TargetNotFound (arg_string args ''targetPinId''))))
                | Some target \<Rightarrow>
                    (case independenceRefusal env who (ev_author target) (rootAuthorOf (ae_events env) target) of
                       Some r \<Rightarrow> ([], Refused (VoteRefused r))
                     | None \<Rightarrow> write_one createPin (protocol_pin metabotId ''verify'' (votePayload args))
                         (\<lambda>r. [(''verifyPinId'', JStr (pr_pinId r)), (''txids'', txids_json (pr_txids r))])))))"

section \<open>metatask_release\<close>

definition releaseRefusal :: "string \<Rightarrow> body \<Rightarrow> task_projection \<Rightarrow> refusal option" where
  "releaseRefusal who args detail =
     (if competitiveTask detail then Some CompetitiveRelease
      else (case (case jget (tp_nodeStates detail) (arg_string args ''node'') of None \<Rightarrow> None | Some np \<Rightarrow> np_holder np) of
              None \<Rightarrow> Some NotTheHolder
            | Some h \<Rightarrow> first_refusal
                [refuse_if (ho_pinId h \<noteq> arg_string args ''claimPinId'') NotTheHolder,
                 refuse_if (ho_claimant h \<noteq> who) NotYourClaim]))"

definition releaseClaim :: "agent_env \<Rightarrow> pin_writer \<Rightarrow> body \<Rightarrow> tool_run" where
  "releaseClaim env createPin args =
     (case agentIdentity env of
        Inl r \<Rightarrow> ([], Refused r)
      | Inr (metabotId, who) \<Rightarrow>
          (case projectionAfterRefresh env (arg_string args ''rootPinId'') of
             None \<Rightarrow> ([], Refused (TaskNotFound (arg_string args ''rootPinId'')))
           | Some detail \<Rightarrow>
               (case releaseRefusal who args detail of
                  Some r \<Rightarrow> ([], Refused r)
                | None \<Rightarrow> write_one createPin
                    (protocol_pin metabotId ''release''
                      [(''taskid'', JStr (arg_string args ''rootPinId'')), (''node'', JStr (arg_string args ''node'')),
                       (''claimid'', JStr (arg_string args ''claimPinId''))])
                    (\<lambda>r. [(''releasePinId'', JStr (pr_pinId r)), (''txids'', txids_json (pr_txids r))]))))"

end
