(* ===== verification/AgentPublish.thy ===== *)
theory AgentPublish
  imports AgentTools
begin

text \<open>
  libs/metataskAgentTools.ts, the publisher's tools: publish a task (roster, tree, spec and task
  pins, in this order), publish a standalone spec, amend a tree. Every check runs before the first
  pin. A publish that fails on the way has written the pins up to there.
\<close>

section \<open>What is published\<close>

record publish_input =
  pi_title :: string
  pi_brief :: string
  pi_nodes :: "json list"
  pi_policy :: json
  pi_tags :: "json option"
  pi_spec :: spec_input
  pi_taskId :: "string option" \<comment> \<open>given in file mode\<close>

definition publishInlineKeys :: "string list" where
  "publishInlineKeys = [''title'', ''brief'', ''nodes'', ''spec'', ''policy'', ''tags'']"

definition inlineProvided :: "string list \<Rightarrow> body \<Rightarrow> bool" where
  "inlineProvided keys args = list_ex (\<lambda>k. jget args k \<noteq> None) keys"

definition specOfArgs :: "json option \<Rightarrow> spec_input" where
  "specOfArgs v =
     \<lparr>si_name = jopt v ''name'', si_lang = jopt v ''lang'', si_entry = jopt v ''entry'', si_script = jopt v ''script'',
      si_input = jopt v ''input'', si_output = jopt v ''output'', si_validation = jopt v ''validation'',
      si_workspace = jopt v ''workspace''\<rparr>"

definition inlineInput :: "body \<Rightarrow> publish_input" where
  "inlineInput args =
     \<lparr>pi_title = trimmed (jget args ''title''), pi_brief = asStr (jget args ''brief'') '''',
      pi_nodes = arr_or_empty (jget args ''nodes''),
      pi_policy = or_null (nullish (jget args ''policy'') (Some (JObj []))),
      pi_tags = jget args ''tags'', pi_spec = specOfArgs (jget args ''spec''), pi_taskId = None\<rparr>"

definition fileInput :: "string \<Rightarrow> drafts_input \<Rightarrow> publish_input" where
  "fileInput taskId d =
     \<lparr>pi_title = js_trim (df_title d), pi_brief = df_brief d, pi_nodes = df_nodes d, pi_policy = df_policy d,
      pi_tags = df_tags d, pi_spec = df_spec d, pi_taskId = Some taskId\<rparr>"

definition publishInput :: "(string \<Rightarrow> json option) \<Rightarrow> body \<Rightarrow> refusal + publish_input" where
  "publishInput fileContent args =
     (case (trimmed (jget args ''draftsFile''), trimmed (jget args ''taskId'')) of (draftsFile, taskId) \<Rightarrow>
        if draftsFile \<noteq> '''' \<or> taskId \<noteq> '''' then
          (if draftsFile = '''' \<or> taskId = '''' then Inl (PublishRefused ModeHalfGiven)
           else if inlineProvided publishInlineKeys args then Inl (PublishRefused ModesMixed)
           else (case readDraftsFile fileContent draftsFile of
                   Inl r \<Rightarrow> Inl (DraftsRefused r)
                 | Inr drafts \<Rightarrow>
                     (case taskFromDrafts drafts taskId
                             (case jget args ''specPinByKey'' of Some (JObj kv) \<Rightarrow> kv | _ \<Rightarrow> []) of
                        Inl r \<Rightarrow> Inl (DraftsRefused r)
                      | Inr d \<Rightarrow> Inr (fileInput taskId d))))
        else if jget args ''specPinByKey'' \<noteq> None then Inl (PublishRefused SpecPinsWithoutFile)
        else Inr (inlineInput args))"

record draft_node =
  dn_id :: string
  dn_parent :: "string option"
  dn_title :: string
  dn_kind :: string
  dn_specid :: "string option"
  dn_params :: json
  dn_deps :: "string list"
  dn_weight :: "rat option" \<comment> \<open>\<open>Number(raw.weight)\<close>\<close>

definition optional_text :: "json option \<Rightarrow> string option" where
  "optional_text v = (if is_nullish v then None else Some (asStr v ''''))"

definition paramsOf :: "json option \<Rightarrow> json" where
  "paramsOf v = (if is_object v then or_null v else JObj [])"

definition draftNode :: "json \<Rightarrow> draft_node" where
  "draftNode raw =
     \<lparr>dn_id = asStr (jprop raw ''id'') '''', dn_parent = optional_text (jprop raw ''parent''),
      dn_title = asStr (jprop raw ''title'') '''', dn_kind = asStr (jprop raw ''kind'') ''proof'',
      dn_specid = optional_text (jprop raw ''specid''), dn_params = paramsOf (jprop raw ''params''),
      dn_deps = map js_string (arr_or_empty (jprop raw ''deps'')), dn_weight = js_number (jprop raw ''weight'')\<rparr>"

section \<open>Checks of the policy\<close>

definition policyNumber :: "json \<Rightarrow> string \<Rightarrow> rat \<Rightarrow> rat option" where
  "policyNumber policy key fallback = js_number (nullish (jprop policy key) (Some (JNum fallback)))"

definition modeRaw :: "json \<Rightarrow> string" where "modeRaw policy = trimmed (jprop policy ''mode'')"
definition finalnodeOf :: "json \<Rightarrow> string" where "finalnodeOf policy = trimmed (jprop policy ''finalnode'')"
definition competitivePolicy :: "json \<Rightarrow> bool" where "competitivePolicy policy \<longleftrightarrow> modeRaw policy = ''competitive''"

definition positiveInteger :: "rat option \<Rightarrow> bool" where
  "positiveInteger n = (case js_integer n of None \<Rightarrow> False | Some i \<Rightarrow> 0 < i)"

definition policyRefusal :: "mt_board option \<Rightarrow> bool \<Rightarrow> publish_input \<Rightarrow> refusal option" where
  "policyRefusal bd allowPreActivation inp = first_refusal
     [refuse_if (pi_title inp = '''') (PublishRefused TitleEmpty),
      refuse_if (\<not> positiveInteger (policyNumber (pi_policy inp) ''verifyQuorum'' 0)) (PublishRefused QuorumInvalid),
      refuse_if (modeRaw (pi_policy inp) \<notin> {'''', ''tree'', ''competitive''}) (PublishRefused (ModeUnknown (modeRaw (pi_policy inp)))),
      refuse_if (\<not> competitivePolicy (pi_policy inp) \<and> finalnodeOf (pi_policy inp) \<noteq> '''') (PublishRefused FinalnodeInTreeMode),
      refuse_if (competitivePolicy (pi_policy inp) \<and> finalnodeOf (pi_policy inp) = '''') (PublishRefused FinalnodeMissing),
      (if competitivePolicy (pi_policy inp) then map_option GateRefused (hAct3GateRefusal bd allowPreActivation) else None),
      refuse_if (\<not> competitivePolicy (pi_policy inp) \<and> \<not> positiveInteger (policyNumber (pi_policy inp) ''claimTtlHours'' 0))
        (PublishRefused ClaimTtlInvalid),
      refuse_if (\<not> competitivePolicy (pi_policy inp) \<and> \<not> positiveInteger (policyNumber (pi_policy inp) ''verifyWindowHours'' 0))
        (PublishRefused VerifyWindowInvalid)]"

text \<open>The clocks carry no semantics in competitive mode: what is given is normalised to 0.\<close>

definition normalizedHours :: "json \<Rightarrow> string \<Rightarrow> rat option" where
  "normalizedHours policy key = (if competitivePolicy policy then Some 0 else policyNumber policy key 0)"

definition policyWarnings :: "json \<Rightarrow> string list" where
  "policyWarnings policy =
     map snd (filter (\<lambda>(key, _). policyNumber policy key 0 \<noteq> Some 0)
       [(''claimTtlHours'', ''claim_ttl_hours''), (''verifyWindowHours'', ''verify_window_hours'')])"

section \<open>Checks of the nodes\<close>

definition draftsById :: "draft_node list \<Rightarrow> (string, draft_node) jsmap" where
  "draftsById nodes = foldl (\<lambda>m n. jset (dn_id n) n m) [] nodes"

definition draftParent :: "(string, draft_node) jsmap \<Rightarrow> string \<Rightarrow> string option" where
  "draftParent byId c = (case jget byId c of None \<Rightarrow> None | Some n \<Rightarrow> dn_parent n)"

function draft_walk :: "(string, draft_node) jsmap \<Rightarrow> string list \<Rightarrow> string option \<Rightarrow> bool" where
  "draft_walk byId seen None = True"
| "draft_walk byId seen (Some c) = (if c \<in> set seen then False else draft_walk byId (c # seen) (draftParent byId c))"
  by pat_completeness auto
termination
proof (relation "measures [\<lambda>(byId, seen, cur). card (fst ` set byId - set seen), \<lambda>(byId, seen, cur). case cur of None \<Rightarrow> 0 | Some _ \<Rightarrow> 1]")
  fix byId :: "(string, draft_node) jsmap" and seen :: "string list" and c :: string
  assume new: "c \<notin> set seen"
  show "((byId, c # seen, draftParent byId c), byId, seen, Some c)
    \<in> measures [\<lambda>(byId, seen, cur). card (fst ` set byId - set seen), \<lambda>(byId, seen, cur). case cur of None \<Rightarrow> 0 | Some _ \<Rightarrow> 1]"
  proof (cases "c \<in> fst ` set byId")
    case True
    then show ?thesis using card_unseen [OF _ True new] by simp
  next
    case False
    then have "draftParent byId c = None" "fst ` set byId - set (c # seen) = fst ` set byId - set seen"
      by (auto simp: draftParent_def map_of_eq_None_iff [THEN iffD2])
    then show ?thesis by simp
  qed
qed simp

definition weightOf :: "draft_node \<Rightarrow> int option" where
  "weightOf n = (case js_integer (dn_weight n) of None \<Rightarrow> None | Some w \<Rightarrow> if 1 \<le> w \<and> w \<le> 10000 then Some w else None)"

definition nodeRefusal :: "(string, draft_node) jsmap \<Rightarrow> draft_node \<Rightarrow> publish_refusal option" where
  "nodeRefusal byId n = first_refusal
     (refuse_if (weightOf n = None) (WeightOutOfRange (dn_id n)) #
      refuse_if (case dn_parent n of None \<Rightarrow> False | Some p \<Rightarrow> \<not> jhas byId p)
        (ParentUnknown (dn_id n) (case dn_parent n of None \<Rightarrow> '''' | Some p \<Rightarrow> p)) #
      map (\<lambda>dep. refuse_if (\<not> jhas byId dep) (DepUnknown (dn_id n) dep)) (dn_deps n))"

definition totalWeight :: "draft_node list \<Rightarrow> int" where
  "totalWeight nodes = sum_list (map (\<lambda>n. case weightOf n of None \<Rightarrow> 0 | Some w \<Rightarrow> w) nodes)"

definition rootNodes :: "draft_node list \<Rightarrow> draft_node list" where
  "rootNodes nodes = filter (\<lambda>n. dn_parent n = None) nodes"

definition nodesRefusal :: "draft_node list \<Rightarrow> publish_refusal option" where
  "nodesRefusal nodes = first_refusal
     ([refuse_if (nodes = []) NodesEmpty,
       refuse_if (\<not> distinct (map dn_id nodes)) NodeIdsRepeat,
       refuse_if (list_ex (\<lambda>n. dn_id n = '''' \<or> dn_title n = '''') nodes) NodeIdOrTitleEmpty,
       refuse_if (length (rootNodes nodes) \<noteq> 1) (RootCount (length (rootNodes nodes)))] @
      map (nodeRefusal (draftsById nodes)) nodes @
      [refuse_if (totalWeight nodes \<noteq> 10000) (WeightsSum (totalWeight nodes)),
       refuse_if (\<not> list_all (\<lambda>n. draft_walk (draftsById nodes) [] (Some (dn_id n))) nodes) ParentsCyclic])"

definition shapeOf :: "draft_node \<Rightarrow> comp_shape" where
  "shapeOf n = \<lparr>gn_id = dn_id n, gn_deps = dn_deps n, gn_params = dn_params n\<rparr>"

definition competitiveRefusal :: "draft_node list \<Rightarrow> string \<Rightarrow> refusal option" where
  "competitiveRefusal nodes finalnode = first_refusal
     (map_option GraphRefused (competitiveGraphRefusal (map shapeOf nodes) finalnode) #
      map (\<lambda>n. map_option RubricRefused (competitiveRubricRefusal (dn_id n) (dn_params n))) nodes)"

definition publishRefusal :: "mt_board option \<Rightarrow> bool \<Rightarrow> publish_input \<Rightarrow> refusal option" where
  "publishRefusal bd allowPreActivation inp = first_refusal
     [policyRefusal bd allowPreActivation inp,
      map_option PublishRefused (nodesRefusal (map draftNode (pi_nodes inp))),
      (if competitivePolicy (pi_policy inp)
       then competitiveRefusal (map draftNode (pi_nodes inp)) (finalnodeOf (pi_policy inp)) else None),
      refuse_if (trimmed (si_name (pi_spec inp)) = '''' \<or> trimmed (si_entry (pi_spec inp)) = '''') (PublishRefused SpecNameOrEntryEmpty),
      map_option SpecRefused (specWorkspaceRefusal (si_workspace (pi_spec inp)))]"

section \<open>metatask_publish\<close>

definition text_or_null :: "string option \<Rightarrow> json" where
  "text_or_null v = (case v of None \<Rightarrow> JNull | Some s \<Rightarrow> JStr s)"

definition draftJson :: "draft_node \<Rightarrow> json" where
  "draftJson n = JObj
     [(''id'', JStr (dn_id n)), (''parent'', text_or_null (dn_parent n)), (''title'', JStr (dn_title n)),
      (''kind'', JStr (dn_kind n)), (''specid'', text_or_null (dn_specid n)), (''params'', dn_params n),
      (''deps'', JArr (map JStr (dn_deps n))), (''weight'', json_number (dn_weight n))]"

definition treePayload :: "draft_node list \<Rightarrow> body" where
  "treePayload nodes =
     [(''root'', JStr (dn_id (hd (rootNodes nodes)))), (''nodes'', JArr (map draftJson nodes))]"

definition integer_or :: "json option \<Rightarrow> rat \<Rightarrow> json" where
  "integer_or v fallback = (case v of Some (JNum q) \<Rightarrow> JNum (if is_integer q then q else fallback) | _ \<Rightarrow> JNum fallback)"

definition taskPayload :: "publish_input \<Rightarrow> string \<Rightarrow> string \<Rightarrow> json \<Rightarrow> body" where
  "taskPayload inp treeid specid rosterid =
     (let policy = pi_policy inp in
      [(''title'', JStr (pi_title inp)), (''brief'', JStr (pi_brief inp)), (''treeid'', JStr treeid), (''specid'', JStr specid),
       (''policy'', JObj
         ([(''claim_ttl_hours'', json_number (normalizedHours policy ''claimTtlHours'')),
           (''verify_quorum'', json_number (policyNumber policy ''verifyQuorum'' 0)),
           (''verify_window_hours'', json_number (normalizedHours policy ''verifyWindowHours'')),
           (''reward_sat'', integer_or (jprop policy ''rewardSat'') 0),
           (''challenge_ttl_days'', integer_or (jprop policy ''challengeTtlDays'') 14)] @
          (if competitivePolicy policy
           then [(''mode'', JStr ''competitive''), (''finalnode'', JStr (finalnodeOf policy))] else []) @
          [(''split'', JObj [(''submitterShareBP'', json_number (policyNumber policy ''submitterShareBP'' 8000)),
                             (''rosterid'', rosterid)])])),
       (''tags'', JArr (map (\<lambda>t. JStr (js_string t)) (arr_or_empty (pi_tags inp))))])"

definition rosterWrite :: "agent_env \<Rightarrow> int \<Rightarrow> string list \<Rightarrow> pin_write" where
  "rosterWrite env metabotId roster =
     \<lparr>wr_metabotId = metabotId, wr_path = metataskPoolPath METATASK_ROSTER_SEGMENT,
      wr_payload = JObj [(''groups'', JArr [JArr (map JStr roster)]), (''owner'', JStr ''idbots-local-roster''),
                         (''createdAt'', JNum (of_int (ae_now env)))]\<rparr>"

text \<open>The roster pin is written when there are two local bots; a failure leaves it out.\<close>

definition rosterPin :: "agent_env \<Rightarrow> pin_writer \<Rightarrow> int \<Rightarrow> pin_write list \<times> json" where
  "rosterPin env createPin metabotId =
     (case nonempty_ids (ae_localRoster env) of roster \<Rightarrow>
        if length roster < 2 then ([], JNull)
        else (case createPin (rosterWrite env metabotId roster) of
                None \<Rightarrow> ([], JNull)
              | Some r \<Rightarrow> ([rosterWrite env metabotId roster], JStr (pr_pinId r))))"

definition publishReply ::
  "publish_input \<Rightarrow> bool \<Rightarrow> json \<Rightarrow> pin_result \<Rightarrow> pin_result \<Rightarrow> pin_result \<Rightarrow> body" where
  "publishReply inp allowPreActivation rosterid treePin specPin taskPin =
     [(''taskRootPinId'', JStr (pr_pinId taskPin)), (''treePinId'', JStr (pr_pinId treePin)),
      (''specPinId'', JStr (pr_pinId specPin)), (''rosterPinId'', rosterid),
      (''txids'', txids_json (pr_txids treePin @ pr_txids specPin @ pr_txids taskPin)),
      (''source'', JStr (if pi_taskId inp = None then ''inline'' else ''draftsFile''))] @
     (case pi_taskId inp of None \<Rightarrow> [] | Some i \<Rightarrow> [(''taskId'', JStr i)]) @
     (if competitivePolicy (pi_policy inp)
      then [(''mode'', JStr ''competitive''), (''finalnode'', JStr (finalnodeOf (pi_policy inp)))] @
           (if allowPreActivation then [(''preActivationOverride'', JBool True)] else []) @
           (if policyWarnings (pi_policy inp) \<noteq> []
            then [(''policyWarnings'', JArr (map JStr (policyWarnings (pi_policy inp))))] else [])
      else [])"

definition publishWrites :: "agent_env \<Rightarrow> pin_writer \<Rightarrow> int \<Rightarrow> publish_input \<Rightarrow> bool \<Rightarrow> tool_run" where
  "publishWrites env createPin metabotId inp allowPreActivation =
     (case rosterPin env createPin metabotId of (written, rosterid) \<Rightarrow>
        (case protocol_pin metabotId ''tree'' (treePayload (map draftNode (pi_nodes inp))) of treeWrite \<Rightarrow>
           (case createPin treeWrite of
              None \<Rightarrow> (written, Failed)
            | Some treePin \<Rightarrow>
                (case protocol_pin metabotId ''spec'' (buildSpecPayload (pi_spec inp)) of specWrite \<Rightarrow>
                   (case createPin specWrite of
                      None \<Rightarrow> (written @ [treeWrite], Failed)
                    | Some specPin \<Rightarrow>
                        (case protocol_pin metabotId ''task'' (taskPayload inp (pr_pinId treePin) (pr_pinId specPin) rosterid) of taskWrite \<Rightarrow>
                           (case createPin taskWrite of
                              None \<Rightarrow> (written @ [treeWrite, specWrite], Failed)
                            | Some taskPin \<Rightarrow>
                                (written @ [treeWrite, specWrite, taskWrite],
                                 Reply (JObj (publishReply inp allowPreActivation rosterid treePin specPin taskPin))))))))))"

definition allowsPreActivation :: "body \<Rightarrow> bool" where
  "allowsPreActivation args \<longleftrightarrow> jget args ''allowPreActivation'' = Some (JBool True)"

definition publishTask :: "agent_env \<Rightarrow> pin_writer \<Rightarrow> body \<Rightarrow> tool_run" where
  "publishTask env createPin args =
     (case agentIdentity env of
        Inl r \<Rightarrow> ([], Refused r)
      | Inr (metabotId, _) \<Rightarrow>
          (case publishInput (ae_drafts env) args of
             Inl r \<Rightarrow> ([], Refused r)
           | Inr inp \<Rightarrow>
               (case publishRefusal (ae_board env) (allowsPreActivation args) inp of
                  Some r \<Rightarrow> ([], Refused r)
                | None \<Rightarrow> publishWrites env createPin metabotId inp (allowsPreActivation args))))"

section \<open>metatask_publish_spec\<close>

definition specInlineKeys :: "string list" where
  "specInlineKeys =
     [''name'', ''lang'', ''entry'', ''script'', ''input'', ''output'', ''workspace'', ''validation'']"

definition publishSpecInput :: "(string \<Rightarrow> json option) \<Rightarrow> body \<Rightarrow> refusal + spec_input" where
  "publishSpecInput fileContent args =
     (case (trimmed (jget args ''draftsFile''), trimmed (jget args ''specKey'')) of (draftsFile, specKey) \<Rightarrow>
        if draftsFile \<noteq> '''' \<or> specKey \<noteq> '''' then
          (if draftsFile = '''' \<or> specKey = '''' then Inl (PublishRefused ModeHalfGiven)
           else if inlineProvided specInlineKeys args then Inl (PublishRefused ModesMixed)
           else (case readDraftsFile fileContent draftsFile of
                   Inl r \<Rightarrow> Inl (DraftsRefused r)
                 | Inr drafts \<Rightarrow>
                     (case specFromDrafts drafts specKey of Inl r \<Rightarrow> Inl (DraftsRefused r) | Inr spec \<Rightarrow> Inr spec)))
        else Inr (specOfArgs (Some (JObj args))))"

definition specRefusal :: "body \<Rightarrow> spec_input \<Rightarrow> refusal option" where
  "specRefusal args spec = first_refusal
     [refuse_if (trimmed (si_name spec) = '''' \<or> trimmed (si_entry spec) = '''') (PublishRefused SpecNameOrEntryEmpty),
      map_option SpecRefused (specScriptRefusal (si_script spec)),
      map_option SpecRefused (specWorkspaceRefusal (si_workspace spec)),
      (if jget args ''enforceHAct2Validation'' = Some (JBool False) then None
       else map_option SpecRefused (specValidationRefusal (si_validation spec)))]"

text \<open>A script reference is trimmed, an inline script is published as it is.\<close>

definition publishedScript :: "json option \<Rightarrow> string" where
  "publishedScript script =
     (if SPEC_REF_RE (trimmed script) then trimmed script else asStr script '''')"

definition publishSpec :: "agent_env \<Rightarrow> pin_writer \<Rightarrow> body \<Rightarrow> tool_run" where
  "publishSpec env createPin args =
     (case agentIdentity env of
        Inl r \<Rightarrow> ([], Refused r)
      | Inr (metabotId, _) \<Rightarrow>
          (case publishSpecInput (ae_drafts env) args of
             Inl r \<Rightarrow> ([], Refused r)
           | Inr spec \<Rightarrow>
               (case specRefusal args spec of
                  Some r \<Rightarrow> ([], Refused r)
                | None \<Rightarrow> write_one createPin
                    (protocol_pin metabotId ''spec''
                      (buildSpecPayload (spec\<lparr>si_name := Some (JStr (trimmed (si_name spec))),
                         si_entry := Some (JStr (trimmed (si_entry spec))),
                         si_script := Some (JStr (publishedScript (si_script spec)))\<rparr>)))
                    (\<lambda>r. [(''specPinId'', JStr (pr_pinId r)), (''txids'', txids_json (pr_txids r)),
                          (''totalCost'', JNum (pr_totalCost r)), (''name'', JStr (trimmed (si_name spec))),
                          (''lang'', JStr (langOf (si_lang spec))), (''entry'', JStr (trimmed (si_entry spec))),
                          (''hasValidation'', JBool (is_plain_object (si_validation spec))),
                          (''source'', JStr (if trimmed (jget args ''draftsFile'') \<noteq> '''' then ''draftsFile'' else ''inline''))] @
                         (if trimmed (jget args ''draftsFile'') \<noteq> ''''
                          then [(''specKey'', JStr (trimmed (jget args ''specKey'')))] else [])))))"

end
