(* ===== verification/AgentAmend.thy ===== *)
theory AgentAmend
  imports AgentPublish
begin

text \<open>
  libs/metataskAgentTools.ts: \<open>metatask_amend\<close>, the publisher's amend with its checks on a scratch
  tree, and what \<open>metatask_get\<close> and \<open>metatask_list\<close> derive for a bot. The subtree walk of
  \<open>remove_node\<close> is the unbounded loop of the engine's fold, so a run can fail to return.
\<close>

section \<open>The scratch tree\<close>

record amend_view =
  av_detail :: task_projection
  av_competitive :: bool
  av_claimedEver :: "string list"

definition amendView :: "agent_env \<Rightarrow> string \<Rightarrow> task_projection \<Rightarrow> amend_view" where
  "amendView env rootPinId detail =
     \<lparr>av_detail = detail, av_competitive = competitiveTask detail,
      av_claimedEver = map (\<lambda>e. body_str e ''node'')
        (filter (\<lambda>e. ev_path e = ''claim'' \<and> body_str e ''taskid'' = rootPinId) (ae_events env))\<rparr>"

definition statusIn :: "task_projection \<Rightarrow> string \<Rightarrow> node_status option" where
  "statusIn p nid = map_option np_status (jget (tp_nodeStates p) nid)"

definition satisfiedNow :: "amend_view \<Rightarrow> string \<Rightarrow> bool" where
  "satisfiedNow v nid \<longleftrightarrow> statusIn (av_detail v) nid = Some StVerified"

definition isFrozen :: "amend_view \<Rightarrow> string \<Rightarrow> bool" where
  "isFrozen v nid \<longleftrightarrow> (if av_competitive v then satisfiedNow v nid else nid \<in> set (av_claimedEver v))"

definition holderIn :: "task_projection \<Rightarrow> string \<Rightarrow> holder option" where
  "holderIn p nid = (case jget (tp_nodeStates p) nid of None \<Rightarrow> None | Some np \<Rightarrow> np_holder np)"

definition parentFrozen :: "amend_view \<Rightarrow> string \<Rightarrow> bool" where
  "parentFrozen v parent \<longleftrightarrow>
     (if av_competitive v then satisfiedNow v parent
      else satisfiedNow v parent \<or> holderIn (av_detail v) parent \<noteq> None)"

definition scratchOf :: "task_projection \<Rightarrow> tree" where
  "scratchOf detail = foldl (\<lambda>m nd. jset (js_string_opt (jprop nd ''id'')) (spread nd) m) [] (tp_nodes detail)"

section \<open>One op\<close>

type_synonym amend_result = "(refusal + tree) option"

definition addedNode :: "string \<Rightarrow> string \<Rightarrow> json option \<Rightarrow> json" where
  "addedNode nid parent raw = JObj
     [(''id'', JStr nid), (''parent'', JStr parent), (''title'', JStr (asStr (jopt raw ''title'') '''')),
      (''kind'', JStr (asStr (jopt raw ''kind'') ''proof'')), (''specid'', text_or_null (optional_text (jopt raw ''specid''))),
      (''params'', paramsOf (jopt raw ''params'')),
      (''deps'', JArr (map (\<lambda>d. JStr (js_string d)) (arr_or_empty (jopt raw ''deps'')))),
      (''weight'', json_number (js_number (jopt raw ''weight'')))]"

definition addDepRefusal :: "amend_view \<Rightarrow> tree \<Rightarrow> string \<Rightarrow> string \<Rightarrow> refusal option" where
  "addDepRefusal v byId nid dep = first_refusal
     [refuse_if (\<not> jhas byId dep) (AmendRefused (AddNodeDepUnknown nid dep)),
      refuse_if (satisfiedNow v dep) (AmendRefused (AddNodeDepFrozen nid dep))]"

definition addRefusal :: "amend_view \<Rightarrow> tree \<Rightarrow> string \<Rightarrow> string \<Rightarrow> json option \<Rightarrow> refusal option" where
  "addRefusal v byId nid parent raw = first_refusal
     ([refuse_if (raw = None \<or> nid = '''' \<or> jhas byId nid) (AmendRefused AddNodeIdTaken),
       refuse_if (\<not> jhas byId parent) (AmendRefused (AddNodeParentUnknown parent)),
       refuse_if (parentFrozen v parent) (AmendRefused (AddNodeParentFrozen parent))] @
      (if av_competitive v
       then map (\<lambda>dep. addDepRefusal v byId nid (js_string dep)) (arr_or_empty (jopt raw ''deps'')) @
            [map_option RubricRefused (competitiveRubricRefusal nid (paramsOf (jopt raw ''params'')))]
       else []))"

definition amendAdd :: "amend_view \<Rightarrow> tree \<Rightarrow> json \<Rightarrow> amend_result" where
  "amendAdd v byId rawOp =
     (case (if is_object (jprop rawOp ''node'') then jprop rawOp ''node'' else None) of raw \<Rightarrow>
        (case (asStr (jopt raw ''id'') '''', asStr (jopt raw ''parent'') '''') of (nid, parent) \<Rightarrow>
           (case addRefusal v byId nid parent raw of
              Some r \<Rightarrow> Some (Inl r)
            | None \<Rightarrow> Some (Inr (jset nid (addedNode nid parent raw) byId)))))"

definition referencingIds :: "tree \<Rightarrow> string \<Rightarrow> string list" where
  "referencingIds byId nid =
     map fst (filter (\<lambda>(i, nd). i \<noteq> nid \<and> JStr nid \<in> set (arr_or_empty (jprop nd ''deps''))) byId)"

definition amendRemove :: "amend_view \<Rightarrow> tree \<Rightarrow> string \<Rightarrow> amend_result" where
  "amendRemove v byId nid =
     (case removeWalk (isFrozen v) byId [nid] of
        None \<Rightarrow> None
      | Some ok \<Rightarrow>
          if \<not> ok then Some (Inl (AmendRefused (SubtreeFrozen nid)))
          else if av_competitive v \<and> referencingIds byId nid \<noteq> []
            then Some (Inl (AmendRefused (ListedInDeps nid (referencingIds byId nid))))
          else Some (Inr (jdel nid byId)))"

definition amendOp :: "amend_view \<Rightarrow> tree \<Rightarrow> json \<Rightarrow> amend_result" where
  "amendOp v byId rawOp =
     (case (op_kind rawOp, op_target rawOp) of (kind, nid) \<Rightarrow>
        if kind = ''add_node'' then amendAdd v byId rawOp
        else (case jget byId nid of
                None \<Rightarrow> Some (Inl (AmendRefused (TargetUnknown nid)))
              | Some target \<Rightarrow>
                  if isFrozen v nid then Some (Inl (AmendRefused (NodeFrozen nid)))
                  else if kind = ''remove_node'' then amendRemove v byId nid
                  else if kind = ''reweight'' then
                    Some (Inr (jset nid (jassign target ''weight'' (json_number (js_number (jprop rawOp ''weight'')))) byId))
                  else if kind = ''retitle'' then
                    Some (Inr (jset nid (jassign target ''title'' (JStr (asStr (jprop rawOp ''title'') ''''))) byId))
                  else if kind = ''respec'' then
                    Some (Inr (jset nid (jassign target ''specid'' (JStr (asStr (jprop rawOp ''specid'') ''''))) byId))
                  else Some (Inl (AmendRefused (OpUnknown kind)))))"

fun amendOps :: "amend_view \<Rightarrow> tree \<Rightarrow> json list \<Rightarrow> amend_result" where
  "amendOps v byId [] = Some (Inr byId)"
| "amendOps v byId (rawOp # ops) =
     (case amendOp v byId rawOp of
        Some (Inr byId') \<Rightarrow> amendOps v byId' ops
      | stop \<Rightarrow> stop)"

section \<open>Checks on the folded tree\<close>

definition foldedWeight :: "json \<Rightarrow> int option" where
  "foldedWeight nd =
     (case js_integer (js_number (jprop nd ''weight'')) of
        None \<Rightarrow> None | Some w \<Rightarrow> if 1 \<le> w \<and> w \<le> 10000 then Some w else None)"

definition foldedTotal :: "tree \<Rightarrow> int" where
  "foldedTotal byId = sum_list (map (\<lambda>(_, nd). case foldedWeight nd of None \<Rightarrow> 0 | Some w \<Rightarrow> w) byId)"

definition foldedShapes :: "tree \<Rightarrow> comp_shape list" where
  "foldedShapes byId =
     map (\<lambda>(i, nd). \<lparr>gn_id = i, gn_deps = map js_string (arr_or_empty (jprop nd ''deps'')),
       gn_params = or_null (nullish (jprop nd ''params'') (Some (JObj [])))\<rparr>) byId"

definition danglingDep :: "tree \<Rightarrow> (string \<times> string) option" where
  "danglingDep byId =
     find (\<lambda>(_, dep). \<not> jhas byId dep) (concat (map (\<lambda>n. map (\<lambda>dep. (gn_id n, dep)) (gn_deps n)) (foldedShapes byId)))"

definition terminalRefusal :: "tree \<Rightarrow> string \<Rightarrow> amend_refusal option" where
  "terminalRefusal byId finalnode = first_refusal
     [map_option (\<lambda>(nid, dep). AmendDepDangling nid dep) (danglingDep byId),
      refuse_if (\<not> depsGraphAcyclic (foldedShapes byId)) AmendDepsCyclic,
      refuse_if (\<not> jhas byId finalnode) (AmendFinalnodeGone finalnode),
      refuse_if (finalnode \<notin> set (depsSinkIds (foldedShapes byId)))
        (AmendSinkMoved finalnode (sort (depsSinkIds (foldedShapes byId))))]"

definition finalOf :: "task_projection \<Rightarrow> string" where
  "finalOf p = js_trim (case po_finalNode (tp_policy p) of None \<Rightarrow> '''' | Some f \<Rightarrow> f)"

definition foldedRefusal :: "amend_view \<Rightarrow> tree \<Rightarrow> refusal option" where
  "foldedRefusal v byId = map_option AmendRefused (first_refusal
     [refuse_if (list_ex (\<lambda>(_, nd). foldedWeight nd = None) byId) AmendWeightInvalid,
      refuse_if (foldedTotal byId \<noteq> 10000) (AmendWeightsSum (foldedTotal byId)),
      (if av_competitive v then terminalRefusal byId (finalOf (av_detail v)) else None)])"

section \<open>metatask_amend\<close>

definition publishedOp :: "json \<Rightarrow> json" where
  "publishedOp rawOp =
     (if op_kind rawOp = ''add_node'' then JObj ((''op'', JStr ''add_node'') #
        (case jprop rawOp ''node'' of None \<Rightarrow> [] | Some n \<Rightarrow> [(''node'', n)]))
      else JObj (concat (map (\<lambda>k. case jprop rawOp k of None \<Rightarrow> [] | Some x \<Rightarrow> [(k, x)])
        [''op'', ''node'', ''weight'', ''title'', ''specid''])))"

definition amendRefusal :: "string \<Rightarrow> task_projection \<Rightarrow> refusal option" where
  "amendRefusal who detail = first_refusal
     [refuse_if (tp_publisher detail \<noteq> who) (AmendRefused NotThePublisher),
      refuse_if (tp_taskComplete detail) (AmendRefused TaskFinalized)]"

definition amendWrite :: "pin_writer \<Rightarrow> int \<Rightarrow> string \<Rightarrow> task_projection \<Rightarrow> json list \<Rightarrow> tool_run" where
  "amendWrite createPin metabotId rootPinId detail ops =
     write_one createPin
       (protocol_pin metabotId ''amend''
         [(''taskid'', JStr rootPinId), (''bases'', JStr (tp_amendHead detail)), (''ops'', JArr (map publishedOp ops))])
       (\<lambda>r. [(''amendPinId'', JStr (pr_pinId r)), (''bases'', JStr (tp_amendHead detail)), (''txids'', txids_json (pr_txids r))])"

definition amendTree :: "agent_env \<Rightarrow> pin_writer \<Rightarrow> body \<Rightarrow> tool_run option" where
  "amendTree env createPin args =
     (case agentIdentity env of
        Inl r \<Rightarrow> Some ([], Refused r)
      | Inr (metabotId, who) \<Rightarrow>
          (case (arg_string args ''rootPinId'', arr_or_empty (jget args ''ops'')) of (rootPinId, ops) \<Rightarrow>
             (case projectionAfterRefresh env rootPinId of
                None \<Rightarrow> Some ([], Refused (TaskNotFound rootPinId))
              | Some detail \<Rightarrow>
                  (case amendRefusal who detail of
                     Some r \<Rightarrow> Some ([], Refused r)
                   | None \<Rightarrow>
                       (case amendOps (amendView env rootPinId detail) (scratchOf detail) ops of
                          None \<Rightarrow> None
                        | Some (Inl r) \<Rightarrow> Some ([], Refused r)
                        | Some (Inr byId) \<Rightarrow>
                            (case foldedRefusal (amendView env rootPinId detail) byId of
                               Some r \<Rightarrow> Some ([], Refused r)
                             | None \<Rightarrow> Some (amendWrite createPin metabotId rootPinId detail ops)))))))"

section \<open>Reads\<close>

definition openNodes :: "task_projection \<Rightarrow> string list" where
  "openNodes p = map (\<lambda>(_, np). np_id np) (filter (\<lambda>(_, np). np_status np = StOpen) (own_order (tp_nodeStates p)))"

text \<open>Submitted nodes a local bot must not review.\<close>

definition sameSideExcluded :: "string list \<Rightarrow> task_projection \<Rightarrow> string list" where
  "sameSideExcluded localRoster p =
     map (\<lambda>(_, np). np_id np)
       (filter (\<lambda>(_, np). case np_submission np of
            None \<Rightarrow> False
          | Some s \<Rightarrow> sv_submitter s \<in> set (nonempty_ids localRoster) \<or> tp_publisher p \<in> set (nonempty_ids localRoster))
         (own_order (tp_nodeStates p)))"

definition shownEstimation :: "task_projection \<Rightarrow> estimation option" where
  "shownEstimation p = (case tp_settlement p of None \<Rightarrow> Some (estimateMetaTaskShares p) | Some _ \<Rightarrow> None)"

text \<open>\<open>metatask_replay\<close>: the table a fresh replay gives.\<close>

record replay_table =
  rt_taskComplete :: bool
  rt_progress :: progress
  rt_nodeStates :: "(string \<times> node_status \<times> bool \<times> string option \<times> nat) list"
  rt_settlement :: "settlement option"
  rt_ignoredEvents :: ignored
  rt_freshness :: freshness

definition replayTable :: "task_projection \<Rightarrow> replay_table" where
  "replayTable p =
     \<lparr>rt_taskComplete = tp_taskComplete p, rt_progress = tp_progress p,
      rt_nodeStates = map (\<lambda>(i, np). (i, np_status np, np_disputed np, map_option ho_claimant (np_holder np), np_passVotes np))
        (own_order (tp_nodeStates p)),
      rt_settlement = tp_settlement p, rt_ignoredEvents = tp_ignoredEvents p, rt_freshness = tp_freshness p\<rparr>"

definition replayTask :: "agent_env \<Rightarrow> body \<Rightarrow> (refusal + replay_table) option" where
  "replayTask env args =
     (case replayMetaTask (ae_sha env) (ae_events env) (guardOptions env (arg_string args ''rootPinId'')) of
        None \<Rightarrow> None
      | Some (Inl _) \<Rightarrow> Some (Inl ReplayFailed)
      | Some (Inr p) \<Rightarrow> Some (Inr (replayTable p)))"

end
