(* ===== verification/AgentFacts.thy ===== *)
theory AgentFacts
  imports AgentAmend ReplayFacts
begin

text \<open>
  What a publish that passed its checks puts on the chain: the tree pin, read the way the replay
  reads it, meets the invariants that the amend folds keep, and in competitive mode the final
  node is its one sink.
\<close>

section \<open>The published tree\<close>

definition publishedTree :: "draft_node list \<Rightarrow> tree" where
  "publishedTree nodes = initialNodesOf (Some (treePayload nodes))"

definition checked_nodes :: "draft_node list \<Rightarrow> bool" where
  "checked_nodes nodes \<longleftrightarrow> nodesRefusal nodes = None"

lemma checked_nodesD:
  assumes "checked_nodes nodes"
  shows "distinct (map dn_id nodes)" "\<And>n. n \<in> set nodes \<Longrightarrow> dn_id n \<noteq> ''''" "length (rootNodes nodes) = 1"
    "\<And>n. n \<in> set nodes \<Longrightarrow> nodeRefusal (draftsById nodes) n = None" "totalWeight nodes = 10000"
    "\<And>n. n \<in> set nodes \<Longrightarrow> draft_walk (draftsById nodes) [] (Some (dn_id n))"
  using assms by (auto simp: checked_nodes_def nodesRefusal_def list_ex_iff list_all_iff)

lemma draftsById_map: "checked_nodes nodes \<Longrightarrow> draftsById nodes = map (\<lambda>n. (dn_id n, n)) nodes"
  using foldl_jset_map [of dn_id nodes "\<lambda>n. n"] checked_nodesD(1) by (simp add: draftsById_def)

lemma publishedTree_map: "checked_nodes nodes \<Longrightarrow> publishedTree nodes = map (\<lambda>n. (dn_id n, draftJson n)) nodes"
proof -
  assume c: "checked_nodes nodes"
  have "foldl (\<lambda>m raw. if is_object (Some raw) then jset (js_string_opt (jprop raw ''id'')) raw m else m) m (map draftJson ns) =
      foldl (\<lambda>m n. jset (dn_id n) (draftJson n) m) m ns" for m ns
    by (induction ns arbitrary: m) (simp_all add: draftJson_def js_string_opt_def)
  then show ?thesis
    using foldl_jset_map [OF checked_nodesD(1) [OF c], of draftJson]
    by (simp add: publishedTree_def initialNodesOf_def treePayload_def arr_or_empty_def)
qed

lemma published_get:
  "checked_nodes nodes \<Longrightarrow> n \<in> set nodes \<Longrightarrow> jget (publishedTree nodes) (dn_id n) = Some (draftJson n)"
  using jget_map_keyed [OF checked_nodesD(1)] by (simp add: publishedTree_map)

lemma drafts_get: "checked_nodes nodes \<Longrightarrow> n \<in> set nodes \<Longrightarrow> jget (draftsById nodes) (dn_id n) = Some n"
  using jget_map_keyed [OF checked_nodesD(1), of nodes n "\<lambda>n. n"] by (simp add: draftsById_map)

lemma published_keys: "checked_nodes nodes \<Longrightarrow> fst ` set (publishedTree nodes) = dn_id ` set nodes"
  by (simp add: publishedTree_map image_image)

lemma drafts_keys: "checked_nodes nodes \<Longrightarrow> fst ` set (draftsById nodes) = dn_id ` set nodes"
  by (simp add: draftsById_map image_image)

lemma checked_node:
  assumes "checked_nodes nodes" "n \<in> set nodes"
  shows "weightOf n \<noteq> None" "\<And>p. dn_parent n = Some p \<Longrightarrow> p \<in> dn_id ` set nodes" "set (dn_deps n) \<subseteq> dn_id ` set nodes"
  using checked_nodesD(4) [OF assms] drafts_keys [OF assms(1)]
  by (auto simp: nodeRefusal_def jhas_iff)

lemma published_parent: "checked_nodes nodes \<Longrightarrow> parentOf (publishedTree nodes) c = draftParent (draftsById nodes) c"
proof (cases "c \<in> dn_id ` set nodes")
  case True
  assume c: "checked_nodes nodes"
  obtain n where n: "n \<in> set nodes" "c = dn_id n" using True by blast
  have "p \<noteq> ''''" if "dn_parent n = Some p" for p
    using checked_node(2) [OF c n(1) that] checked_nodesD(2) [OF c] by auto
  then show ?thesis
    using published_get [OF c n(1)] drafts_get [OF c n(1)] n(2)
    by (auto simp: parentOf_def draftParent_def draftJson_def text_or_null_def split: option.splits)
next
  case False
  assume c: "checked_nodes nodes"
  then have "jget (publishedTree nodes) c = None" "jget (draftsById nodes) c = None"
    using False by (simp_all add: map_of_eq_None_iff published_keys drafts_keys)
  then show ?thesis by (simp add: parentOf_def draftParent_def)
qed

lemma published_walk:
  assumes c: "checked_nodes nodes"
  shows "cur \<noteq> Some '''' \<Longrightarrow> parent_walk (publishedTree nodes) seen cur = draft_walk (draftsById nodes) seen cur"
proof (induction "draftsById nodes" seen cur rule: draft_walk.induct)
  case (2 seen x)
  have "draftParent (draftsById nodes) x \<noteq> Some ''''"
    using published_parent [OF c, of x] parentOf_nonempty by metis
  then show ?case using 2 published_parent [OF c] by (simp add: parent_walk.simps(2))
qed (simp add: parent_walk.simps)

lemma published_acyclic: "checked_nodes nodes \<Longrightarrow> isAcyclic (publishedTree nodes)"
proof -
  assume c: "checked_nodes nodes"
  have "parent_walk (publishedTree nodes) [] (Some (dn_id n))" if "n \<in> set nodes" for n
    using published_walk [OF c, of "Some (dn_id n)" "[]"] checked_nodesD(2,6) [OF c that] by simp
  then show ?thesis by (simp add: isAcyclic_def list_all_iff publishedTree_map [OF c])
qed

lemma weightOf_json: "weightOf n = Some w \<Longrightarrow> int_in_range (jprop (draftJson n) ''weight'') 1 10000 = Some w"
  by (auto simp: weightOf_def js_integer_Some draftJson_def json_number_def int_in_range_def is_integer_def
      split: option.splits if_splits)

lemma published_weights: "checked_nodes nodes \<Longrightarrow> sumWeights (publishedTree nodes) = 10000"
proof -
  assume c: "checked_nodes nodes"
  have "sumWeights_from acc (map draftJson ns) = acc + totalWeight ns" if "\<forall>n \<in> set ns. weightOf n \<noteq> None" for acc ns
    using that
  proof (induction ns arbitrary: acc)
    case (Cons n ns)
    then obtain w where "weightOf n = Some w" by auto
    then show ?case using Cons by (simp add: totalWeight_def weightOf_json)
  qed (simp add: totalWeight_def)
  from this [of nodes 0] show ?thesis
    using checked_node(1) [OF c] checked_nodesD(5) [OF c] by (simp add: sumWeights_def publishedTree_map [OF c] comp_def)
qed

lemma published_tree_invariants: "checked_nodes nodes \<Longrightarrow> tree_invariants (publishedTree nodes)"
  by (simp add: tree_invariants_def published_acyclic published_weights)

section \<open>Competitive trees\<close>

lemma str_items_JStr [simp]: "str_items (map JStr xs) = xs"
  by (induction xs) auto

lemma published_deps:
  assumes c: "checked_nodes nodes" and n: "n \<in> set nodes"
  shows "compDepsOf (publishedTree nodes) (dn_id n) = dn_deps n"
  using published_get [OF c n] by (simp add: compDepsOf_def node_deps_def draftJson_def arr_or_empty_def)

lemma published_deps_rel:
  assumes c: "checked_nodes nodes"
  shows "deps_rel (publishedTree nodes) = shape_rel (map shapeOf nodes)"
proof -
  have "(x, d) \<in> deps_rel (publishedTree nodes) \<longleftrightarrow> (\<exists>n \<in> set nodes. x = dn_id n \<and> d \<in> set (dn_deps n))" for x d
  proof
    assume "(x, d) \<in> deps_rel (publishedTree nodes)"
    then have d: "d \<in> set (compDepsOf (publishedTree nodes) x)" by (simp add: deps_rel_def)
    then have "x \<in> dn_id ` set nodes" using compDepsOf_key published_keys [OF c] by blast
    then show "\<exists>n \<in> set nodes. x = dn_id n \<and> d \<in> set (dn_deps n)" using d published_deps [OF c] by auto
  next
    assume "\<exists>n \<in> set nodes. x = dn_id n \<and> d \<in> set (dn_deps n)"
    then obtain n where n: "n \<in> set nodes" "x = dn_id n" "d \<in> set (dn_deps n)" by blast
    then have "d \<in> fst ` set (publishedTree nodes)" using checked_node(3) [OF c n(1)] published_keys [OF c] by auto
    then show "(x, d) \<in> deps_rel (publishedTree nodes)" using n published_deps [OF c n(1)] by (simp add: deps_rel_def)
  qed
  moreover have "(x, d) \<in> shape_rel (map shapeOf nodes) \<longleftrightarrow> (\<exists>n \<in> set nodes. x = dn_id n \<and> d \<in> set (dn_deps n))" for x d
    by (force simp: shape_rel_def shapeOf_def)
  ultimately show ?thesis by (simp add: set_eq_iff)
qed

lemma checked_linked: "checked_nodes nodes \<Longrightarrow> well_linked (map shapeOf nodes)"
  using checked_nodesD(1) checked_node(3)
  by (fastforce simp: well_linked_def list_all_iff shapeOf_def comp_def image_image)

lemma published_sinks:
  assumes c: "checked_nodes nodes"
  shows "compSinkNodeIds (publishedTree nodes) = depsSinkIds (map shapeOf nodes)"
proof -
  have "set (referenced_deps (publishedTree nodes)) = set (concat (map dn_deps nodes))"
    using published_deps [OF c] by (auto simp: referenced_deps_def publishedTree_map [OF c] draftJson_def)
  then show ?thesis
    by (simp add: compSinkNodeIds_def depsSinkIds_def publishedTree_map [OF c] comp_def shapeOf_def filter_map)
qed

lemma published_comp_tree:
  assumes c: "checked_nodes nodes" and g: "competitiveGraphRefusal (map shapeOf nodes) f = None"
  shows "comp_tree_ok (publishedTree nodes)" "compSinkNodeIds (publishedTree nodes) = [f]"
proof -
  have ok: "acyclic (shape_rel (map shapeOf nodes))" "depsSinkIds (map shapeOf nodes) = [f]"
    using g unfolding graph_check_cases [OF checked_linked [OF c]] by (auto split: if_splits list.splits)
  show "compSinkNodeIds (publishedTree nodes) = [f]" using ok(2) published_sinks [OF c] by simp
  have "compDepsAcyclic (publishedTree nodes)" using ok(1) by (simp add: compDepsAcyclic_iff published_deps_rel [OF c])
  moreover have "compDepsRefsValid (publishedTree nodes)"
    using checked_node(3) [OF c] published_deps [OF c] published_keys [OF c]
    by (auto simp: compDepsRefsValid_def list_all_iff jhas_iff publishedTree_map [OF c])
  ultimately show "comp_tree_ok (publishedTree nodes)"
    by (simp add: comp_tree_ok_def published_acyclic [OF c] published_weights [OF c])
qed

end
