(* ===== verification/AgentParity.thy ===== *)
theory AgentParity
  imports AgentFacts CompFacts
begin

text \<open>
  What the participation tools write, as the replay reads it: a competitive submission that the
  tool lets through refers to its parents the way the engine asks for exactly when the node lists
  no dep twice; a vote it lets through passes the engine's gates; an aggregate's published
  hashes are not those of the published result.
\<close>

section \<open>Writes of one pin\<close>

lemma write_one_written: "write_one createPin w reply = ([v], Reply r) \<Longrightarrow> v = w"
  by (auto simp: write_one_def split: option.splits)

section \<open>Aggregate hashes\<close>

lemma length_join_comma: "xs \<noteq> [] \<Longrightarrow> length (join_comma xs) = sum_list (map length xs) + length xs - 1"
  by (induction xs rule: join_comma.induct) auto

definition rendered :: "body \<Rightarrow> string list" where
  "rendered kv = map (\<lambda>(k, t). json_quote k @ '':'' @ t) (own_order (map (\<lambda>(k, v). (k, stringify v)) kv))"

lemma sum_mset_cong: "mset xs = mset ys \<Longrightarrow> sum_list (map f xs) = (sum_list (map f ys) :: nat)"
  by (metis mset_map sum_mset_sum_list)

definition entry_length :: "string \<times> json \<Rightarrow> nat" where
  "entry_length e = length (json_quote (fst e)) + 1 + length (stringify (snd e))"

lemma length_stringify_obj:
  "kv \<noteq> [] \<Longrightarrow> length (stringify (JObj kv)) = sum_list (map entry_length kv) + length kv + 1"
proof -
  assume ne: "kv \<noteq> []"
  let ?m = "map (\<lambda>(k, v). (k, stringify v)) kv" and ?f = "\<lambda>(k, t). length (json_quote k @ '':'' @ t)"
  have ms: "mset (own_order ?m) = mset ?m" by (rule mset_own_order)
  have len: "length (own_order ?m) = length kv" using ms by (metis length_map size_mset)
  have "rendered kv \<noteq> []" using len ne by (auto simp: rendered_def)
  then have "length (join_comma (rendered kv)) = sum_list (map length (rendered kv)) + length (rendered kv) - 1"
    by (rule length_join_comma)
  moreover have "length (rendered kv) = length kv" by (simp add: rendered_def len)
  moreover have "sum_list (map length (rendered kv)) = sum_list (map ?f (own_order ?m))"
    by (simp add: rendered_def comp_def case_prod_unfold)
  moreover have "\<dots> = sum_list (map ?f ?m)" by (rule sum_mset_cong [OF ms])
  moreover have "\<dots> = sum_list (map entry_length kv)"
    by (rule arg_cong [where f = sum_list]) (auto simp: entry_length_def)
  ultimately show ?thesis using ne by (simp add: rendered_def length_greater_0_conv [symmetric] del: length_greater_0_conv)
qed

lemma length_canon_obj:
  "kv \<noteq> [] \<Longrightarrow> length (canonJ (JObj kv)) = sum_list (map (\<lambda>(k, v). entry_length (k, sortDeep v)) kv) + length kv + 1"
proof -
  assume ne: "kv \<noteq> []"
  let ?s = "sort_key fst (map (\<lambda>(k, v). (k, sortDeep v)) kv)"
  have "?s \<noteq> []" using ne by (metis length_map length_sort list.size(3) length_0_conv)
  then have "length (canonJ (JObj kv)) = sum_list (map entry_length ?s) + length ?s + 1"
    unfolding canonJ_def sortDeep.simps by (rule length_stringify_obj)
  moreover have "sum_list (map entry_length ?s) = sum_list (map entry_length (map (\<lambda>(k, v). (k, sortDeep v)) kv))"
    by (rule sum_mset_cong) simp
  ultimately show ?thesis by (simp add: comp_def case_prod_unfold)
qed

lemma canon_longer: "kv \<noteq> [] \<Longrightarrow> length (canonJ (JObj kv)) < length (canonJ (JObj (kv @ [(k, v)])))"
  by (simp add: length_canon_obj)

lemma jset_new: "k \<notin> fst ` set kv \<Longrightarrow> jset k v kv = kv @ [(k, v)]"
  by (induction kv) auto

lemma filter_jset: "\<not> P k \<Longrightarrow> filter (\<lambda>(i, _). P i) (jset k v kv) = filter (\<lambda>(i, _). P i) kv"
  by (induction kv) auto

lemma filter_jdel: "\<not> P k \<Longrightarrow> filter (\<lambda>(i, _). P i) (jdel k kv) = filter (\<lambda>(i, _). P i) kv"
  by (induction kv) (auto simp: AList.delete_eq)

definition resultArg :: "body \<Rightarrow> body" where
  "resultArg args = (case jget args ''result'' of Some (JObj kv) \<Rightarrow> kv | _ \<Rightarrow> [])"

lemma submitPayload_result:
  "jget (submitPayload sha competitive rootPinId node claimPinId childIds refs args) ''result'' =
     Some (JObj (if \<not> competitive \<and> childIds \<noteq> []
       then jset ''childids'' (JArr (map JStr childIds)) (hashedResult sha (resultArg args)) else hashedResult sha (resultArg args)))"
  "jget (submitPayload sha competitive rootPinId node claimPinId childIds refs args) ''hash'' =
     Some (JStr (outerHash sha (hashedResult sha (resultArg args))))"
  by (simp_all add: submitPayload_def resultArg_def Let_def)

lemma hashedResult_hash: "jget (hashedResult sha kv) ''hash'' = Some (JStr (innerHash sha (jdel ''hash'' kv)))"
  by (simp add: hashedResult_def Let_def)

lemma innerHash_hashed: "innerHash sha (jset ''hash'' v kv) = innerHash sha kv" "innerHash sha (jdel ''hash'' kv) = innerHash sha kv"
  by (simp_all add: innerHash_def filter_jset [where P = "\<lambda>k. k \<noteq> ''hash''"] filter_jdel [where P = "\<lambda>k. k \<noteq> ''hash''"])

text \<open>Without children the hashes are those of the published result; with children neither is.\<close>

lemma leaf_hashes:
  "jget (hashedResult sha kv) ''hash'' = Some (JStr (innerHash sha (hashedResult sha kv)))"
  by (simp add: hashedResult_hash innerHash_hashed hashedResult_def Let_def)

lemma aggregate_outer:
  assumes "inj sha" "''childids'' \<notin> fst ` set kv"
  shows "outerHash sha (jset ''childids'' v (hashedResult sha kv)) \<noteq> outerHash sha (hashedResult sha kv)"
proof -
  have keys: "''childids'' \<notin> fst ` set (hashedResult sha kv)"
    using assms(2) by (auto simp: hashedResult_def Let_def keys_jset keys_jdel)
  have "hashedResult sha kv \<noteq> []" using hashedResult_hash [of sha kv] by auto
  from canon_longer [OF this] show ?thesis
    unfolding jset_new [OF keys] outerHash_def using assms(1) by (metis inj_eq less_irrefl)
qed

lemma filter_hashed:
  assumes "''childids'' \<notin> fst ` set kv"
  shows "innerHash sha (jset ''childids'' v (hashedResult sha kv)) =
    sha (canonJ (JObj (filter (\<lambda>(k, _). k \<noteq> ''hash'') kv @ [(''childids'', v)])))"
proof -
  have keys: "''childids'' \<notin> fst ` set (hashedResult sha kv)"
    using assms by (auto simp: hashedResult_def Let_def keys_jset keys_jdel)
  have "filter (\<lambda>(k, _). k \<noteq> ''hash'') (hashedResult sha kv) = filter (\<lambda>(k, _). k \<noteq> ''hash'') kv"
    by (simp add: hashedResult_def Let_def filter_jset [where P = "\<lambda>k. k \<noteq> ''hash''"] filter_jdel [where P = "\<lambda>k. k \<noteq> ''hash''"])
  then show ?thesis unfolding jset_new [OF keys] innerHash_def by simp
qed

lemma aggregate_inner:
  assumes "inj sha" "''childids'' \<notin> fst ` set kv"
  shows "jget (hashedResult sha kv) ''hash'' \<noteq> Some (JStr (innerHash sha (jset ''childids'' v (hashedResult sha kv))))"
proof
  let ?core = "filter (\<lambda>(k, _). k \<noteq> ''hash'') kv"
  assume "jget (hashedResult sha kv) ''hash'' = Some (JStr (innerHash sha (jset ''childids'' v (hashedResult sha kv))))"
  then have "sha (canonJ (JObj ?core)) = sha (canonJ (JObj (?core @ [(''childids'', v)])))"
    unfolding hashedResult_hash innerHash_hashed filter_hashed [OF assms(2)] by (simp add: innerHash_def)
  then have c: "canonJ (JObj ?core) = canonJ (JObj (?core @ [(''childids'', v)]))" using assms(1) by (simp add: inj_eq)
  show False
  proof (cases "?core = []")
    case True
    have "length (canonJ (JObj (?core @ [(''childids'', v)]))) > 2"
      by (subst length_canon_obj) (simp_all add: True entry_length_def json_quote_def)
    moreover have "length (canonJ (JObj ?core)) = 2" by (simp only: True) (simp add: canonJ_def own_order_def)
    ultimately show False using c by simp
  next
    case False
    from canon_longer [OF this, of "''childids''" v] c show False by simp
  qed
qed

section \<open>Votes that pass the tool\<close>

lemma truthy_trimmed: "trimmed v \<noteq> '''' \<Longrightarrow> truthyStr (Some (JStr (trimmed v)))"
  by (simp add: truthyStr_def trimmed_def)

lemma sameSide_local:
  assumes "\<forall>g \<in> set groups. who \<in> set g \<longrightarrow> set g \<subseteq> set local" "x \<notin> set (nonempty_ids local)" "who \<noteq> x"
  shows "\<not> sameSide groups who x"
  using assms by (auto simp: sameSide_def nonempty_ids_def list_ex_iff)

text \<open>What an accepted run has checked.\<close>

lemma verify_accepted:
  assumes "verifySubmission env createPin args = ([w], Reply r)"
  obtains metabotId who target where "agentIdentity env = Inr (metabotId, who)"
    "w = protocol_pin metabotId ''verify'' (votePayload args)" "voteTextRefusal args = None"
    "find (\<lambda>e. ev_pinId e = arg_string args ''targetPinId'' \<and> ev_path e = ''submission'') (ae_events env) = Some target"
    "independenceRefusal env who (ev_author target) (rootAuthorOf (ae_events env) target) = None"
proof -
  obtain metabotId who target where t: "agentIdentity env = Inr (metabotId, who)" "voteTextRefusal args = None"
    "find (\<lambda>e. ev_pinId e = arg_string args ''targetPinId'' \<and> ev_path e = ''submission'') (ae_events env) = Some target"
    "independenceRefusal env who (ev_author target) (rootAuthorOf (ae_events env) target) = None"
    and w: "write_one createPin (protocol_pin metabotId ''verify'' (votePayload args))
      (\<lambda>r. [(''verifyPinId'', JStr (pr_pinId r)), (''txids'', txids_json (pr_txids r))]) = ([w], Reply r)"
    using assms by (auto simp: verifySubmission_def split: sum.splits option.splits)
  show thesis using that [OF t(1) write_one_written [OF w] t(2-4)] .
qed

lemma vote_payload_valid: "voteTextRefusal args = None \<Longrightarrow> voteInvalidReason (votePayload args) height hAct = None"
  using truthy_trimmed
  by (auto simp: voteTextRefusal_def voteInvalidReason_def votePayload_def castVerdict_def split: if_splits)

lemma submissionMap_of:
  assumes "distinct (map ev_pinId events)" "s \<in> set (ts_submissions (buildEventSet (byPathOf events) rt))"
  shows "jget (submissionMap f (buildEventSet (byPathOf events) rt)) (ev_pinId s) = Some (f s)"
  using jget_map_keyed [OF ts_submissions_distinct [OF assms(1), of rt], of s f] assms(2)
    foldl_jset_map [OF ts_submissions_distinct [OF assms(1), of rt], of f]
  by (simp add: submissionMap_def)

lemma find_by_pin:
  assumes "distinct (map ev_pinId events)" "e \<in> set events" "P e" "\<And>x. P x \<Longrightarrow> ev_pinId x = ev_pinId e"
  shows "find P events = Some e"
proof (cases "find P events")
  case None
  then show ?thesis using assms(2,3) by (simp add: find_None_iff)
next
  case (Some x)
  from find_SomeD [OF this] have "x \<in> set events" "ev_pinId x = ev_pinId e" using assms(4) by auto
  moreover have "inj_on ev_pinId (set events)" using assms(1) by (simp add: distinct_map)
  ultimately have "x = e" using assms(2) by (auto dest: inj_onD)
  then show ?thesis using Some by simp
qed

lemma accepted_vote:
  assumes run: "verifySubmission env createPin args = ([w], Reply r)" and good: "good_pool (ae_events env)"
    and rt: "rt \<in> set (ae_events env)" "ev_path rt = ''task''"
    and known: "arg_string args ''targetPinId'' \<in> set (ts_knownTargets (buildEventSet (byPathOf (ae_events env)) rt))"
    and e: "wr_payload w = JObj (ev_body e)" "agentIdentity env = Inr (metabotId, ev_author e)"
    and side: "\<forall>g \<in> set (vc_rosterGroups (voteCtxOf opts (buildEventSet (byPathOf (ae_events env)) rt))).
      ev_author e \<in> set g \<longrightarrow> set g \<subseteq> set (ae_localRoster env)"
  shows "vote_counts (voteCtxOf opts (buildEventSet (byPathOf (ae_events env)) rt)) e \<and>
    ev_author e \<noteq> jget_or (submissionMap ev_author (buildEventSet (byPathOf (ae_events env)) rt)) (body_str e ''targetid'') '''' \<and>
    ev_author e \<noteq> ev_author rt"
proof -
  let ?ts = "buildEventSet (byPathOf (ae_events env)) rt" and ?pid = "arg_string args ''targetPinId''"
  have dist: "distinct (map ev_pinId (ae_events env))" using good by (simp add: good_pool_def)
  from run obtain target where t: "w = protocol_pin metabotId ''verify'' (votePayload args)" "voteTextRefusal args = None"
      "find (\<lambda>e. ev_pinId e = ?pid \<and> ev_path e = ''submission'') (ae_events env) = Some target"
      "independenceRefusal env (ev_author e) (ev_author target) (rootAuthorOf (ae_events env) target) = None"
    by (rule verify_accepted) (use e(2) in auto)
  have body: "ev_body e = votePayload args" using t(1) e(1) by (simp add: protocol_pin_def)
  have tid: "body_str e ''targetid'' = ?pid" by (simp add: body_str_def body_get_def body votePayload_def asStr_def)
  obtain s where s: "s \<in> set (ts_submissions ?ts)" "ev_pinId s = ?pid"
    using known by (auto simp: buildEventSet_def Let_def)
  then have s': "s \<in> set (ae_events env)" "ev_path s = ''submission''" "body_str s ''taskid'' = ev_pinId rt"
    by (simp_all add: ts_submissions_in)
  have "find (\<lambda>e. ev_pinId e = ?pid \<and> ev_path e = ''submission'') (ae_events env) = Some s"
    by (rule find_by_pin [OF dist s'(1)]) (use s(2) s'(2) in simp_all)
  then have "target = s" using t(3) by simp
  have "find (\<lambda>e. ev_path e = ''task'' \<and> ev_pinId e = body_str s ''taskid'') (ae_events env) = Some rt"
    by (rule find_by_pin [OF dist rt(1)]) (use rt(2) s'(3) in simp_all)
  then have "rootAuthorOf (ae_events env) s = ev_author rt"
    unfolding rootAuthorOf_def by (simp only: option.case)
  then have ind: "ev_author e \<noteq> ev_author s" "ev_author e \<noteq> ev_author rt"
      "ev_author s \<notin> set (nonempty_ids (ae_localRoster env))" "ev_author rt \<notin> set (nonempty_ids (ae_localRoster env))"
    using t(4) \<open>target = s\<close> by (auto simp: independenceRefusal_def)
  have author: "jget_or (submissionMap ev_author ?ts) ?pid '''' = ev_author s"
    using submissionMap_of [OF dist s(1), of ev_author] s(2) by (simp add: jget_or_def)
  have root: "vc_rootAuthor (voteCtxOf opts ?ts) = ev_author rt" by (simp add: voteCtxOf_def buildEventSet_def Let_def)
  have "\<not> sameSide (vc_rosterGroups (voteCtxOf opts ?ts)) (ev_author e) (ev_author s)"
    "\<not> sameSide (vc_rosterGroups (voteCtxOf opts ?ts)) (ev_author e) (ev_author rt)"
    using sameSide_local [OF side] ind by auto
  then have "voteRejection (voteCtxOf opts ?ts) e = None"
    using vote_payload_valid [OF t(2)] author root
    by (simp add: voteRejection_def Let_def body tid [unfolded body_str_def] body_str_def) (simp add: voteCtxOf_def)
  moreover have "?pid \<noteq> ''''" using good s'(1) s(2) by (auto simp: good_pool_def list_all_iff space_free_def)
  ultimately show ?thesis using ind author known tid by (simp add: vote_counts_def voteCtxOf_def)
qed

section \<open>Competitive submissions that pass the tool\<close>

text \<open>A node as the writers publish it: under its own id, with deps that are strings.\<close>

definition plain_node :: "string \<Rightarrow> json \<Rightarrow> bool" where
  "plain_node k nd \<longleftrightarrow> jprop nd ''id'' = Some (JStr k) \<and> arr_or_empty (jprop nd ''deps'') = map JStr (node_deps nd)"

lemma find_plain:
  "list_all (\<lambda>(k, nd). plain_node k nd) tr \<Longrightarrow> find (\<lambda>nd. jprop nd ''id'' = Some (JStr node)) (map snd tr) = jget tr node"
  by (induction tr) (auto simp: plain_node_def)

lemma parentrefsOf_facts:
  "set (map fst (parentrefsOf deps refs)) = set deps" "distinct (map fst (parentrefsOf deps refs))"
  "dep \<in> set deps \<Longrightarrow> jget (parentrefsOf deps refs) dep = Some (jget_or refs dep '''')"
proof -
  have f: "fst ` set (foldl (\<lambda>m dep. jset dep (g dep) m) m ds) = fst ` set m \<union> set ds \<and>
      (distinct (map fst m) \<longrightarrow> distinct (map fst (foldl (\<lambda>m dep. jset dep (g dep) m) m ds))) \<and>
      (\<forall>d. jget (foldl (\<lambda>m dep. jset dep (g dep) m) m ds) d = (if d \<in> set ds then Some (g d) else jget m d))"
    for m :: "(string, string) jsmap" and ds and g :: "string \<Rightarrow> string"
  proof (induction ds arbitrary: m)
    case (Cons d ds)
    show ?case using Cons.IH [of "jset d (g d) m"] by (auto simp: keys_jset intro: distinct_jset)
  qed simp
  note f' = f [where m = "[]" and ds = deps and g = "\<lambda>dep. jget_or refs dep ''''"]
  show "set (map fst (parentrefsOf deps refs)) = set deps" "distinct (map fst (parentrefsOf deps refs))"
    "dep \<in> set deps \<Longrightarrow> jget (parentrefsOf deps refs) dep = Some (jget_or refs dep '''')"
    using f' by (simp_all add: parentrefsOf_def)
qed

lemma length_parentrefs: "length (parentrefsOf deps refs) = length deps \<longleftrightarrow> distinct deps"
proof -
  have "length (parentrefsOf deps refs) = card (set (map fst (parentrefsOf deps refs)))"
    using distinct_card [OF parentrefsOf_facts(2)] by simp
  also have "\<dots> = card (set deps)" by (simp only: parentrefsOf_facts(1))
  finally show ?thesis by (metis card_distinct distinct_card)
qed

lemma refs_accepted:
  assumes "submitCompRefusal subs node p deps refs = None" "dep \<in> set deps"
  shows "jget_or refs dep '''' \<noteq> ''''" "parentState p dep (jget_or refs dep '''') \<noteq> Doomed"
proof -
  have r: "refsRefusal subs node deps refs = None" and d: "doomedParents (parentsWith p deps (parentrefsOf deps refs)) = []"
    using assms(1) by (auto simp: submitCompRefusal_def split: option.splits list.splits)
  have "deps \<noteq> []" using assms(2) by auto
  then show "jget_or refs dep '''' \<noteq> ''''"
    using r assms(2) by (auto simp: refsRefusal_def filter_empty_conv split: if_splits)
  have "jget_or (parentrefsOf deps refs) dep '''' = jget_or refs dep ''''"
    using parentrefsOf_facts(3) [OF assms(2)] by (simp add: jget_or_def)
  then show "parentState p dep (jget_or refs dep '''') \<noteq> Doomed"
    using d assms(2) by (auto simp: doomedParents_def parentsWith_def filter_empty_conv)
qed

lemma jget_map_self: "jget (map (\<lambda>n. (n, f n)) ns) d = (if d \<in> set ns then Some (f d) else None)"
  by (induction ns) auto

lemma compProject_nodes:
  "tp_nodes (compProject sha ctx cv) = map snd (cv_tree cv)"
  "jget (tp_nodeStates (compProject sha ctx cv)) d =
     (if d \<in> fst ` set (cv_tree cv)
      then Some (compNodeState ctx cv (map (\<lambda>(_, oc). oc_node oc) (snd (compChallenges ctx cv))) d) else None)"
  by (simp_all add: compProject_def Let_def case_prod_unfold projectionOf_def jget_map_self nodeSort_def)

lemma compNode_submissions: "np_submissions (compNodeState ctx cv disputed d) = Some (map (candidateEntry ctx cv) (validOn cv d))"
  by (simp add: compNodeState_def Let_def split: option.split)

lemma live_parent:
  assumes cv: "compViewOf (poolCtx opts events rt) = Some cv"
    and live: "parentState (compProject sha (poolCtx opts events rt) cv) dep ref \<noteq> Doomed"
  shows "\<exists>target. jget (cv_subs cv) ref = Some target \<and> sb_node target = dep"
proof -
  let ?ctx = "poolCtx opts events rt"
  obtain c where c: "find (\<lambda>c. ca_pinId c = ref) (map (candidateEntry ?ctx cv) (validOn cv dep)) = Some c"
    using live by (auto simp: parentState_def compProject_nodes compNode_submissions split: option.splits if_splits)
  then obtain sub where sub: "sub \<in> set (validOn cv dep)" "sb_pinId sub = ref"
    by (auto dest!: find_SomeD simp: candidateEntry_def)
  then have "sub \<in> set (cv_valid cv)" "sb_node sub = dep" by (auto simp: validOn_def)
  then show ?thesis using comp_valid_sub [OF cv] sub(2) by blast
qed

lemma depsIn_plain:
  assumes "list_all (\<lambda>(k, nd). plain_node k nd) (cv_tree cv)"
  shows "depsIn (compProject sha ctx cv) node = compDepsOf (cv_tree cv) node"
proof (cases "jget (cv_tree cv) node")
  case (Some nd)
  then have "plain_node node nd" using assms by (auto simp: list_all_iff dest: jget_SomeD)
  then have "map js_string (arr_or_empty (jprop nd ''deps'')) = node_deps nd"
    by (simp add: plain_node_def comp_def)
  then show ?thesis using Some by (simp add: depsIn_def compProject_nodes find_plain [OF assms] compDepsOf_def)
qed (simp add: depsIn_def compProject_nodes find_plain [OF assms] compDepsOf_def)

text \<open>What an accepted competitive run has checked.\<close>

lemma submit_accepted:
  assumes run: "submitWork env createPin args = Some ([w], Reply r)"
    and comp: "\<And>p. projectionAfterRefresh env (arg_string args ''rootPinId'') = Some p \<Longrightarrow> competitiveTask p"
    and replay: "replayMetaTask (ae_sha env) (ae_events env) (guardOptions env (arg_string args ''rootPinId'')) = Some (Inr p)"
  obtains refs metabotId who where
    "jhas (tp_nodeStates p) (arg_string args ''node'')"
    "submitCompRefusal (taskSubmissions (ae_events env) (arg_string args ''rootPinId'')) (arg_string args ''node'') p
       (depsIn p (arg_string args ''node'')) refs = None"
    "wr_payload w = JObj (submitPayload (ae_sha env) True (arg_string args ''rootPinId'') (arg_string args ''node'')
       (arg_string args ''claimPinId'') (map js_string (arr_or_empty (jget args ''childIds'')))
       (if depsIn p (arg_string args ''node'') = [] then None else Some (parentrefsOf (depsIn p (arg_string args ''node'')) refs)) args)"
proof -
  obtain metabotId who where who: "agentIdentity env = Inr (metabotId, who)"
    using run by (auto simp: submitWork_def split: sum.splits)
  let ?root = "arg_string args ''rootPinId''" and ?node = "arg_string args ''node''"
  obtain detail ns where d: "projectionAfterRefresh env ?root = Some detail" "jget (tp_nodeStates detail) ?node = Some ns"
    using run who by (auto simp: submitWork_def split: option.splits)
  have c: "competitiveTask detail" by (rule comp [OF d(1)])
  let ?kids = "map js_string (arr_or_empty (jget args ''childIds''))" and ?deps = "depsIn p ?node"
  have guard: "guardKnownNode env ?root ?node = Some (if jhas (tp_nodeStates p) ?node then Inr p else Inl (NodeNotFound ?node))"
    by (simp add: guardKnownNode_def replay)
  obtain eff prefs opt where dec: "submitDecision env who ?root ?node args detail ns = Some (Inr (eff, prefs, opt))"
    and w: "write_one createPin (protocol_pin metabotId ''submission''
        (submitPayload (ae_sha env) True ?root ?node (arg_string args ''claimPinId'') ?kids prefs args))
        (submitReply (submitPayload (ae_sha env) True ?root ?node (arg_string args ''claimPinId'') ?kids prefs args) True prefs opt
          (trimmed (jget args ''claimPinId'') \<noteq> '''')) = ([w], Reply r)"
    using run who d c by (auto simp: submitWork_def split: option.splits sum.splits)
  have "submitComp env who ?root ?node ?kids args detail = Some (Inr (eff, prefs, opt))"
    using dec c by (simp add: submitDecision_def)
  then have "jhas (tp_nodeStates p) ?node \<and>
      submitCompRefusal (taskSubmissions (ae_events env) ?root) ?node p ?deps (givenRefs (jget args ''parentRefs'')) = None \<and>
      prefs = (if ?deps = [] then None else Some (parentrefsOf ?deps (givenRefs (jget args ''parentRefs''))))"
    by (auto simp: submitComp_def guard split: if_splits option.splits)
  then show thesis using that write_one_written [OF w] by (auto simp: protocol_pin_def)
qed

lemma submission_refs:
  assumes "ev_body e = submitPayload sha True rootId node claim kids prefs args"
  shows "sb_parentrefs (toCompSubmission e n) = map_option (map (\<lambda>(k, v). (k, JStr v))) prefs"
  using assms by (simp add: toCompSubmission_def body_get_def submitPayload_def Let_def plain_object_def split: option.split)

lemma refs_valid:
  assumes live: "\<And>dep. dep \<in> set deps \<Longrightarrow> \<exists>target. jget subs (g dep) = Some target \<and> sb_node target = dep \<and> g dep \<noteq> ''''"
    and node: "jhas tr (sb_node sub)" and deps: "compDepsOf tr (sb_node sub) = deps" "deps \<noteq> []"
    and refs: "sb_parentrefs sub = Some (map (\<lambda>(k, v). (k, JStr v)) prefs)"
      "\<And>dep. dep \<in> set deps \<Longrightarrow> jget prefs dep = Some (g dep)"
  shows "compParentrefsValid sub tr subs \<longleftrightarrow> length prefs = length deps"
proof -
  have "jget (map (\<lambda>(k, v). (k, JStr v)) prefs) dep = Some (JStr (g dep))" if "dep \<in> set deps" for dep
    using refs(2) [OF that] by (simp add: map_of_map)
  then have "list_all (\<lambda>dep. case jget (map (\<lambda>(k, v). (k, JStr v)) prefs) dep of
        Some (JStr ref) \<Rightarrow> ref \<noteq> '''' \<and> (case jget subs ref of None \<Rightarrow> False | Some target \<Rightarrow> sb_node target = dep)
      | _ \<Rightarrow> False) deps"
    using live by (fastforce simp: list_all_iff)
  then show ?thesis using node deps refs(1) by (simp add: compParentrefsValid_def Let_def)
qed

lemma accepted_submission:
  assumes run: "submitWork env createPin args = Some ([w], Reply r)"
    and comp: "\<And>p. projectionAfterRefresh env (arg_string args ''rootPinId'') = Some p \<Longrightarrow> competitiveTask p"
    and rt: "rootPinOf (byPathOf (ae_events env)) (Some (arg_string args ''rootPinId'')) = Some rt"
    and mode: "isCompetitive (policyOf (buildEventSet (byPathOf (ae_events env)) rt))"
    and cv: "compViewOf (poolCtx (guardOptions env (arg_string args ''rootPinId'')) (ae_events env) rt) = Some cv"
    and plain: "list_all (\<lambda>(k, nd). plain_node k nd) (cv_tree cv)"
    and e: "wr_payload w = JObj (ev_body e)"
  shows "compParentrefsValid (toCompSubmission e (arg_string args ''node'')) (cv_tree cv) (cv_subs cv) \<longleftrightarrow>
    distinct (compDepsOf (cv_tree cv) (arg_string args ''node''))"
proof -
  let ?node = "arg_string args ''node''"
  let ?ctx = "poolCtx (guardOptions env (arg_string args ''rootPinId'')) (ae_events env) rt"
  let ?p = "compProject (ae_sha env) ?ctx cv" and ?deps = "compDepsOf (cv_tree cv) ?node"
  have rp: "ro_rootPinId (guardOptions env (arg_string args ''rootPinId'')) = Some (arg_string args ''rootPinId'')"
    by (simp add: guardOptions_def)
  have pol: "isCompetitive (rc_policy ?ctx)" using mode by (simp only: poolCtx_def rc_sel)
  have replay: "replayMetaTask (ae_sha env) (ae_events env) (guardOptions env (arg_string args ''rootPinId'')) = Some (Inr ?p)"
    unfolding replay_run rp rt option.case if_P [OF pol] compReplay_def cv by simp
  from submit_accepted [OF run comp replay] obtain refs where
    n: "jhas (tp_nodeStates ?p) ?node" and ok: "submitCompRefusal (taskSubmissions (ae_events env) (arg_string args ''rootPinId''))
        ?node ?p ?deps refs = None"
    and body: "wr_payload w = JObj (submitPayload (ae_sha env) True (arg_string args ''rootPinId'') ?node
       (arg_string args ''claimPinId'') (map js_string (arr_or_empty (jget args ''childIds'')))
       (if ?deps = [] then None else Some (parentrefsOf ?deps refs)) args)"
    unfolding depsIn_plain [OF plain] by blast
  have "?node \<in> fst ` set (cv_tree cv)" using n unfolding jhas_get compProject_nodes by (simp split: if_splits)
  then have node: "jhas (cv_tree cv) ?node" by (simp only: jhas_iff)
  have refs: "sb_parentrefs (toCompSubmission e ?node) =
      map_option (map (\<lambda>(k, v). (k, JStr v))) (if ?deps = [] then None else Some (parentrefsOf ?deps refs))"
    by (rule submission_refs) (use body e in simp)
  have sn: "sb_node (toCompSubmission e ?node) = ?node" by (simp add: toCompSubmission_def)
  show ?thesis
  proof (cases "?deps = []")
    case True
    then show ?thesis using refs node by (simp add: compParentrefsValid_def Let_def sn)
  next
    case False
    have "compParentrefsValid (toCompSubmission e ?node) (cv_tree cv) (cv_subs cv) \<longleftrightarrow> length (parentrefsOf ?deps refs) = length ?deps"
    proof (rule refs_valid [where g = "\<lambda>dep. jget_or refs dep ''''"])
      show "\<exists>target. jget (cv_subs cv) (jget_or refs dep '''') = Some target \<and> sb_node target = dep \<and> jget_or refs dep '''' \<noteq> ''''"
        if "dep \<in> set ?deps" for dep
        using live_parent [OF cv refs_accepted(2) [OF ok that]] refs_accepted(1) [OF ok that] by blast
    qed (use node refs False parentrefsOf_facts(3) in \<open>simp_all add: sn\<close>)
    then show ?thesis by (simp only: length_parentrefs)
  qed
qed

end
