(* ===== verification/AgentProps.thy ===== *)
theory AgentProps
  imports AgentParity RefreshProps
begin

text \<open>
  Properties of the agent tools against the replay and the sweep: what they publish is sound for
  the engine, what they let through counts, and where a checked write fails on the chain.
\<close>

section \<open>Concrete calls\<close>

definition bot_env :: "string \<Rightarrow> chain_event list \<Rightarrow> (string \<Rightarrow> task_projection option) \<Rightarrow> agent_env" where
  "bot_env who events detail =
     \<lparr>ae_metabotId = Some 7, ae_globalMetaIdOf = (\<lambda>_. Some who), ae_localRoster = [who], ae_board = None,
      ae_detail = detail, ae_detailRefreshed = detail, ae_events = events, ae_now = 191600000, ae_sha = id,
      ae_drafts = (\<lambda>_. None)\<rparr>"

definition demo_pin :: pin_writer where
  "demo_pin w = Some \<lparr>pr_pinId = wr_path w, pr_txids = [], pr_totalCost = 0\<rparr>"

definition node_arg :: "string \<Rightarrow> json \<Rightarrow> rat \<Rightarrow> string list \<Rightarrow> json" where
  "node_arg nid parent weight deps =
     JObj [(''id'', JStr nid), (''parent'', parent), (''title'', JStr nid), (''kind'', JStr ''proof''),
       (''params'', JObj [(''rubric'', JArr [JStr ''sound''])]), (''deps'', JArr (map JStr deps)), (''weight'', JNum weight)]"

definition publish_args :: body where
  "publish_args =
     [(''title'', JStr ''demo''),
      (''nodes'', JArr [node_arg ''n1'' JNull 6000 [''n2''], node_arg ''n2'' (JStr ''n1'') 4000 []]),
      (''spec'', JObj [(''name'', JStr ''s''), (''lang'', JStr ''bash''), (''entry'', JStr ''run'')]),
      (''policy'', JObj [(''mode'', JStr ''competitive''), (''finalnode'', JStr ''n1''), (''verifyQuorum'', JNum 2)]),
      (''allowPreActivation'', JBool True)]"

definition demo_publish :: tool_run where
  "demo_publish = publishTask (bot_env ''pub'' [] (\<lambda>_. None)) demo_pin publish_args"







section \<open>Publishing\<close>

lemma publish_written:
  assumes "publishTask env createPin args = (written, reply)" "written \<noteq> []"
  obtains metabotId inp treeid specid rosterid where
    "publishRefusal (ae_board env) (allowsPreActivation args) inp = None"
    "set written \<subseteq> {rosterWrite env metabotId (nonempty_ids (ae_localRoster env)),
       protocol_pin metabotId ''tree'' (treePayload (map draftNode (pi_nodes inp))),
       protocol_pin metabotId ''spec'' (buildSpecPayload (pi_spec inp)),
       protocol_pin metabotId ''task'' (taskPayload inp treeid specid rosterid)}"
proof -
  obtain metabotId who inp where i: "publishRefusal (ae_board env) (allowsPreActivation args) inp = None"
    and run: "publishWrites env createPin metabotId inp (allowsPreActivation args) = (written, reply)"
    using assms by (auto simp: publishTask_def split: sum.splits option.splits prod.splits)
  obtain ros rid where ros: "rosterPin env createPin metabotId = (ros, rid)" by fastforce
  have r: "set ros \<subseteq> {rosterWrite env metabotId (nonempty_ids (ae_localRoster env))}"
    using ros by (auto simp: rosterPin_def split: if_splits option.splits)
  show thesis
  proof (cases "createPin (protocol_pin metabotId ''tree'' (treePayload (map draftNode (pi_nodes inp))))")
    case None
    then have "written = ros" using run by (simp add: publishWrites_def ros)
    then show ?thesis using r by (intro that [OF i, of metabotId]) auto
  next
    case tr: (Some tr)
    show ?thesis
    proof (cases "createPin (protocol_pin metabotId ''spec'' (buildSpecPayload (pi_spec inp)))")
      case None
      then have "written = ros @ [protocol_pin metabotId ''tree'' (treePayload (map draftNode (pi_nodes inp)))]"
        using run tr by (simp add: publishWrites_def ros)
      then show ?thesis using r by (intro that [OF i, of metabotId]) auto
    next
      case (Some sp)
      have "set written \<subseteq> set (ros @ [protocol_pin metabotId ''tree'' (treePayload (map draftNode (pi_nodes inp))),
          protocol_pin metabotId ''spec'' (buildSpecPayload (pi_spec inp)),
          protocol_pin metabotId ''task'' (taskPayload inp (pr_pinId tr) (pr_pinId sp) rid)])"
        using run tr Some by (auto simp: publishWrites_def ros split: option.splits)
      then show ?thesis using r by (intro that [OF i, of metabotId "pr_pinId tr" "pr_pinId sp" rid]) auto
    qed
  qed
qed

lemma protocol_path [simp]: "wr_path (protocol_pin m p b) = ''/protocols/metatask/'' @ p" "wr_payload (protocol_pin m p b) = JObj b"
  by (simp_all add: protocol_pin_def)

lemma rosterWrite_path [simp]: "wr_path (rosterWrite env m r) = ''/protocols/metatask-roster''"
  by (simp add: rosterWrite_def metataskPoolPath_def)

lemma taskPayload_policy:
  "isCompetitive (jget (taskPayload inp t s r) ''policy'') \<longleftrightarrow> competitivePolicy (pi_policy inp)"
  "competitivePolicy (pi_policy inp) \<Longrightarrow>
     jopt (jget (taskPayload inp t s r) ''policy'') ''finalnode'' = Some (JStr (finalnodeOf (pi_policy inp)))"
  by (simp_all add: taskPayload_def isCompetitive_def Let_def jopt_def)

lemma accepted_input:
  assumes "publishRefusal bd allow inp = None"
  shows "checked_nodes (map draftNode (pi_nodes inp))"
    "competitivePolicy (pi_policy inp) \<Longrightarrow>
       competitiveGraphRefusal (map shapeOf (map draftNode (pi_nodes inp))) (finalnodeOf (pi_policy inp)) = None"
  using assms by (auto simp: publishRefusal_def checked_nodes_def competitiveRefusal_def)

text \<open>C37. A tree that the publish tool writes is one the engine accepts: read by the replay, its
  weights add up to 10000 and its parents are acyclic; and if the task goes out in competitive mode,
  no dep dangles, the deps are acyclic and the final node the task names is their one sink.\<close>

lemma published_tree_is_sound:
  assumes "publishTask env createPin args = (written, reply)"
    "w \<in> set written" "wr_path w = ''/protocols/metatask/tree''" "wr_payload w = JObj tree"
  shows "tree_invariants (initialNodesOf (Some tree)) \<and>
    (\<forall>t task. t \<in> set written \<and> wr_path t = ''/protocols/metatask/task'' \<and> wr_payload t = JObj task \<and>
       isCompetitive (jget task ''policy'') \<longrightarrow>
       comp_tree_ok (initialNodesOf (Some tree)) \<and>
       compSinkNodeIds (initialNodesOf (Some tree)) = [asStr (jopt (jget task ''policy'') ''finalnode'') ''''])"
proof -
  have ne: "written \<noteq> []" using assms(2) by auto
  obtain metabotId inp treeid specid rosterid where
    ok: "publishRefusal (ae_board env) (allowsPreActivation args) inp = None"
    and wr: "set written \<subseteq> {rosterWrite env metabotId (nonempty_ids (ae_localRoster env)),
       protocol_pin metabotId ''tree'' (treePayload (map draftNode (pi_nodes inp))),
       protocol_pin metabotId ''spec'' (buildSpecPayload (pi_spec inp)),
       protocol_pin metabotId ''task'' (taskPayload inp treeid specid rosterid)}"
    by (rule publish_written [OF assms(1) ne])
  let ?nodes = "map draftNode (pi_nodes inp)"
  have "w = protocol_pin metabotId ''tree'' (treePayload ?nodes)"
    using subsetD [OF wr assms(2)] assms(3) by (elim insertE) simp_all
  then have tree: "initialNodesOf (Some tree) = publishedTree ?nodes"
    using assms(4) by (simp add: publishedTree_def)
  note c = accepted_input [OF ok]
  have "comp_tree_ok (publishedTree ?nodes) \<and>
      compSinkNodeIds (publishedTree ?nodes) = [asStr (jopt (jget task ''policy'') ''finalnode'') '''']"
    if t: "t \<in> set written" "wr_path t = ''/protocols/metatask/task''" "wr_payload t = JObj task"
      and m: "isCompetitive (jget task ''policy'')" for t task
  proof -
    have "t = protocol_pin metabotId ''task'' (taskPayload inp treeid specid rosterid)"
      using subsetD [OF wr t(1)] t(2) by (elim insertE) simp_all
    then have "task = taskPayload inp treeid specid rosterid" using t(3) by simp
    then show ?thesis using published_comp_tree [OF c(1) c(2)] m by (simp add: taskPayload_policy asStr_def)
  qed
  then show ?thesis using published_tree_invariants [OF c(1)] tree by auto
qed

lemma demo_publish_run:
  "map wr_path (fst demo_publish) = [''/protocols/metatask/tree'', ''/protocols/metatask/spec'', ''/protocols/metatask/task'']"
  "map (\<lambda>w. case wr_payload w of JObj kv \<Rightarrow> map fst kv | _ \<Rightarrow> []) (fst demo_publish) =
     [[''root'', ''nodes''], [''name'', ''lang'', ''entry'', ''script'', ''input'', ''output''],
      [''title'', ''brief'', ''treeid'', ''specid'', ''policy'', ''tags'']]"
  by code_simp+

lemma published_tree_is_sound_witness:
  "\<exists>w \<in> set (fst demo_publish). \<exists>tree. wr_payload w = JObj tree \<and> tree_invariants (initialNodesOf (Some tree))"
proof -
  obtain w rest where w: "fst demo_publish = w # rest" "wr_path w = ''/protocols/metatask/tree''"
    using demo_publish_run(1) by (cases "fst demo_publish") auto
  then obtain tree where t: "wr_payload w = JObj tree" using demo_publish_run(2) by (cases "wr_payload w") auto
  have run: "publishTask (bot_env ''pub'' [] (\<lambda>_. None)) demo_pin publish_args = (fst demo_publish, snd demo_publish)"
    by (simp add: demo_publish_def)
  have "w \<in> set (fst demo_publish)" using w(1) by simp
  then show ?thesis using published_tree_is_sound [OF run _ w(2) t] t by blast
qed

text \<open>C38. On a tree with distinct ids and no dangling dep, the competitive graph check accepts exactly
  when the deps are acyclic and the final node is their one sink; the two reachability legs never
  refuse.\<close>

lemma graph_check_is_sink_rule:
  assumes "well_linked nodes"
  shows "(competitiveGraphRefusal nodes f = None \<longleftrightarrow> acyclic (shape_rel nodes) \<and> depsSinkIds nodes = [f]) \<and>
    competitiveGraphRefusal nodes f \<noteq> Some (OffTheFlow n) \<and> competitiveGraphRefusal nodes f \<noteq> Some (FeedsNothing n f)"
  using graph_check_cases [OF assms, of f] sink_known [of nodes f] by (auto split: list.splits if_splits)

lemma graph_check_is_sink_rule_witness:
  "acyclic (shape_rel (map shapeOf (map draftNode [node_arg ''n1'' JNull 6000 [''n2''], node_arg ''n2'' (JStr ''n1'') 4000 []])))"
proof -
  let ?nodes = "map shapeOf (map draftNode [node_arg ''n1'' JNull 6000 [''n2''], node_arg ''n2'' (JStr ''n1'') 4000 []])"
  have "well_linked ?nodes" "competitiveGraphRefusal ?nodes ''n1'' = None" by code_simp+
  then show ?thesis using graph_check_is_sink_rule [of ?nodes "''n1''" "''n1''"] by blast
qed

section \<open>Submitting\<close>





text \<open>The hashes of an aggregate's submission are not those of the result it publishes: the
  children are added to the result after hashing, so with a hash function without collisions
  neither the outer hash nor the inner one can be recomputed from the pin.\<close>

lemma aggregate_hashes_are_stale:
  assumes "inj sha" "childIds \<noteq> []" "''childids'' \<notin> fst ` set (resultArg args)"
    "body = submitPayload sha False rootPinId node claimPinId childIds refs args" "jget body ''result'' = Some (JObj result)"
  shows "jget body ''hash'' \<noteq> Some (JStr (outerHash sha result)) \<and> jget result ''hash'' \<noteq> Some (JStr (innerHash sha result))"
proof -
  have r: "result = jset ''childids'' (JArr (map JStr childIds)) (hashedResult sha (resultArg args))"
    using assms(2,5) unfolding assms(4) submitPayload_result by simp
  then have "jget result ''hash'' = jget (hashedResult sha (resultArg args)) ''hash''" by simp
  then show ?thesis
    using aggregate_outer [OF assms(1,3), of "JArr (map JStr childIds)", symmetric]
      aggregate_inner [OF assms(1,3), of "JArr (map JStr childIds)"]
    unfolding assms(4) submitPayload_result r by auto
qed

lemma aggregate_hashes_are_stale_witness:
  "jget (submitPayload id False ''T'' ''n1'' ''C1'' [''S2''] None [(''result'', JObj [(''type'', JStr ''table'')])]) ''hash'' \<noteq>
     Some (JStr (outerHash id (jset ''childids'' (JArr [JStr ''S2'']) (hashedResult id [(''type'', JStr ''table'')]))))"
  using aggregate_hashes_are_stale [of id "[''S2'']" "[(''result'', JObj [(''type'', JStr ''table'')])]"
      "submitPayload id False ''T'' ''n1'' ''C1'' [''S2''] None [(''result'', JObj [(''type'', JStr ''table'')])]" "''T''" "''n1''" "''C1''" None
      "jset ''childids'' (JArr [JStr ''S2'']) (hashedResult id [(''type'', JStr ''table'')])"]
  by (simp add: resultArg_def submitPayload_result)

section \<open>Reviewing\<close>



section \<open>The activation gate after a clean sweep\<close>

text \<open>After a sweep in which no root needed a replay the activation gate refuses every competitive
  publish, whatever the height of the chain: the boundary block it reads is -1.\<close>

lemma clean_sweep_blocks_publish:
  assumes "runRefresh sha (Inr c) nowMs store = Some (res, store')"
    "es = loadEvents (upsertEvents (co_events c) store)"
    "list_all (\<lambda>r. sweep_replays sha es (ms_rows store) nowMs r = []) (rootIdsOf es)"
  shows "rs_boundaryBlock (ms_refresh store') = -1 \<and>
    hAct3GateRefusal (Some (board roster store')) False = Some (GateBoundaryUnknown 192800)"
proof -
  have rows: "ms_rows (upsertEvents (co_events c) (setRefreshing True store)) = ms_rows store"
    "loadEvents (upsertEvents (co_events c) (setRefreshing True store)) = es"
    by (simp_all add: upsertEvents_def setRefreshing_def loadEvents_def assms(2))
  obtain sw where sw: "sweepRoots sha es (ms_rows store) nowMs \<lparr>sw_projections = [], sw_dirtyKeys = []\<rparr> (rootIdsOf es) = Some sw"
    "store' = bumpSeq (markRefreshDone True None (sweptBoundary (sw_projections sw))
       (saveProjections (sw_projections sw) (rootIdsOf es) (sw_dirtyKeys sw)
         (upsertEvents (co_events c) (setRefreshing True store))))"
    using assms(1) unfolding runRefresh_def Let_def sum.case rows by (auto split: option.splits)
  have "sw_projections sw = []" using sweepRoots_run [OF sw(1)] assms(3) by (simp add: list_all_iff)
  then have "rs_boundaryBlock (ms_refresh store') = -1"
    by (simp add: sw(2) bumpSeq_def markRefreshDone_def sweptBoundary_def)
  then show ?thesis by (simp add: hAct3GateRefusal_def announcedHeight_def board_def H_ACT3_def Let_def)
qed

end
