(* ===== verification/OrderStore.thy ===== *)
theory OrderStore
  imports JsText Steps
begin

text \<open>
  services/serviceOrderState.ts and serviceOrderStore.ts: the orders of bought and sold services.
  The table \<open>service_orders\<close> is a map from ids to rows in insertion order; every \<open>UPDATE\<close> is a
  function on a row, \<open>COALESCE\<close> is \<open>coalesce\<close>, and \<open>saveDb\<close> counts a revision. Rows that tie in an
  \<open>ORDER BY\<close> stay in insertion order. The schema's migrations are left out; its check on the
  currency, a trigger, is an error value.
\<close>

section \<open>States and deadlines\<close>

datatype order_role = Buyer | Seller

datatype order_status = OsAwaitingFirstResponse | OsInProgress | OsRatingPending | OsCompleted | OsFailed
  | OsRefundPending | OsRefunded

definition SERVICE_ORDER_RATING_TIMEOUT_MS :: int where "SERVICE_ORDER_RATING_TIMEOUT_MS = 15 * 60000"
definition REFUND_HIDE_AFTER_MS :: int where "REFUND_HIDE_AFTER_MS = 72 * 60 * 60000"

definition computeOrderDeadlines :: "int \<Rightarrow> int \<times> int" where
  "computeOrderDeadlines now = (now + 5 * 60000, now + 15 * 60000)"

datatype timeout_transition = FirstResponseTimeout | DeliveryTimeout

definition timeout_reason :: "timeout_transition \<Rightarrow> string" where
  "timeout_reason t = (case t of FirstResponseTimeout \<Rightarrow> ''first_response_timeout'' | DeliveryTimeout \<Rightarrow> ''delivery_timeout'')"

section \<open>The row\<close>

datatype settlement_kind = NativeCoin | Mrc20

record service_order =
  so_id :: string
  so_role :: order_role
  so_localMetabotId :: int
  so_counterparty :: string
  so_servicePinId :: "string option"
  so_orderPinId :: "string option"
  so_serviceName :: string
  so_paymentTxid :: string
  so_paymentChain :: string
  so_paymentAmount :: string
  so_paymentCurrency :: string
  so_settlementKind :: settlement_kind
  so_mrc20Ticker :: "string option"
  so_mrc20Id :: "string option"
  so_paymentCommitTxid :: "string option"
  so_orderMessagePinId :: "string option"
  so_orderMessageTxid :: "string option"
  so_coworkSessionId :: "string option"
  so_status :: order_status
  so_firstResponseDeadlineAt :: int
  so_deliveryDeadlineAt :: int
  so_firstResponseAt :: "int option"
  so_deliveryMessagePinId :: "string option"
  so_deliveredAt :: "int option"
  so_ratingRequestedAt :: "int option"
  so_ratingDeadlineAt :: "int option"
  so_orderEndMessagePinId :: "string option"
  so_orderEndedAt :: "int option"
  so_orderEndReason :: "string option"
  so_failedAt :: "int option"
  so_failureReason :: "string option"
  so_refundRequestPinId :: "string option"
  so_refundFinalizePinId :: "string option"
  so_refundTxid :: "string option"
  so_refundRequestedAt :: "int option"
  so_refundCompletedAt :: "int option"
  so_refundApplyRetryCount :: int
  so_nextRetryAt :: "int option"
  so_createdAt :: int
  so_updatedAt :: int

definition getTimedOutOrderTransition :: "service_order \<Rightarrow> int \<Rightarrow> timeout_transition option" where
  "getTimedOutOrderTransition o1 now =
     (if so_status o1 = OsAwaitingFirstResponse \<and> now > so_firstResponseDeadlineAt o1 then Some FirstResponseTimeout
      else if so_status o1 = OsInProgress \<and> now > so_deliveryDeadlineAt o1 then Some DeliveryTimeout
      else None)"

text \<open>The two stamps \<open>shouldHideProviderForUnresolvedRefund\<close> reads.\<close>

definition hasUnresolvedRefund :: "int option \<Rightarrow> int option \<Rightarrow> bool" where
  "hasUnresolvedRefund requestedAt completedAt \<longleftrightarrow> requestedAt \<noteq> None \<and> completedAt = None"

definition shouldHideProviderForUnresolvedRefund :: "int option \<Rightarrow> int option \<Rightarrow> int \<Rightarrow> bool" where
  "shouldHideProviderForUnresolvedRefund requestedAt completedAt now \<longleftrightarrow>
     hasUnresolvedRefund requestedAt completedAt \<and>
     (case requestedAt of None \<Rightarrow> False | Some t \<Rightarrow> now - t \<ge> REFUND_HIDE_AFTER_MS)"

section \<open>Normalising what callers give\<close>

definition normalizeOptionalText :: "string option \<Rightarrow> string option" where
  "normalizeOptionalText v =
     (case v of None \<Rightarrow> None | Some s \<Rightarrow> if js_trim s = '''' then None else Some (js_trim s))"

definition normalizePaymentTxid :: "string option \<Rightarrow> string" where
  "normalizePaymentTxid v = (case v of None \<Rightarrow> '''' | Some s \<Rightarrow> js_trim s)"

definition payment_chains :: "string list" where "payment_chains = [''btc'', ''doge'', ''mvc'']"

definition normalizePaymentChain :: "string option \<Rightarrow> string" where
  "normalizePaymentChain chain =
     (let normalized = js_lower (js_trim (case chain of None \<Rightarrow> ''mvc'' | Some c \<Rightarrow> if c = '''' then ''mvc'' else c))
      in if normalized \<in> set payment_chains then normalized else ''mvc'')"

definition inferPaymentChainFromCurrency :: "string option \<Rightarrow> string" where
  "inferPaymentChainFromCurrency currency =
     (let normalized = js_upper (js_trim (case currency of None \<Rightarrow> '''' | Some c \<Rightarrow> c))
      in if normalized = ''BTC'' then ''btc'' else if normalized = ''DOGE'' then ''doge'' else ''mvc'')"

definition derivePaymentCurrency :: "string \<Rightarrow> string" where
  "derivePaymentCurrency chain = (if chain = ''btc'' then ''BTC'' else if chain = ''doge'' then ''DOGE'' else ''SPACE'')"

definition normalizeOrderMessageTxid :: "string option \<Rightarrow> string option" where
  "normalizeOrderMessageTxid v =
     (case v of None \<Rightarrow> None | Some s \<Rightarrow> let n = js_lower (js_trim s) in if hex64 n then Some n else None)"

text \<open>\<open>/^([0-9a-f]{64})i\d+$/i\<close>\<close>

definition deriveOrderMessageTxidFromPinId :: "string option \<Rightarrow> string option" where
  "deriveOrderMessageTxidFromPinId v =
     (case v of None \<Rightarrow> None
      | Some s \<Rightarrow> (let n = js_lower (js_trim s); digits = drop 65 n in
          if hex64 (take 64 n) \<and> take 1 (drop 64 n) = ''i'' \<and> digits \<noteq> '''' \<and> list_all is_digit_char digits
          then Some (take 64 n) else None))"

section \<open>The settlement asset\<close>

text \<open>shared/gigSquareSettlementAsset.js. The errors are the two it throws, and a write that the
  table's trigger or an index refuses.\<close>

datatype order_error = Mrc20TickerMissing | Mrc20TickerInvalid | WriteAborted

record settlement_asset =
  sa_selectorCurrency :: string
  sa_protocolCurrency :: string
  sa_kind :: settlement_kind
  sa_chain :: string
  sa_ticker :: "string option"
  sa_mrc20Id :: "string option"

definition ticker_char :: "char \<Rightarrow> bool" where
  "ticker_char c \<longleftrightarrow> is_digit_char c \<or> (65 \<le> (of_char c :: int) \<and> (of_char c :: int) \<le> 90)"

definition MRC20_TICKER_PATTERN :: "string \<Rightarrow> bool" where
  "MRC20_TICKER_PATTERN s \<longleftrightarrow> s \<noteq> '''' \<and> list_all ticker_char s"

definition MRC20_SUFFIX :: string where "MRC20_SUFFIX = ''-MRC20''"

definition deriveNativePaymentChain :: "string \<Rightarrow> string" where
  "deriveNativePaymentChain c = (if c = ''BTC'' then ''btc'' else if c = ''DOGE'' then ''doge'' else ''mvc'')"

definition normalizeNativeCurrencyUnit :: "string \<Rightarrow> string" where
  "normalizeNativeCurrencyUnit v =
     (let n = js_upper (js_trim v) in
      if n \<in> set ['''', ''MVC'', ''MICROVISIONCHAIN''] then ''SPACE''
      else if n = ''BITCOIN'' then ''BTC'' else if n = ''DOGECOIN'' then ''DOGE'' else n)"

text \<open>\<open>/^([A-Z0-9]+)-MRC20$/\<close>\<close>

definition parseTickerFromProtocolCurrency :: "string \<Rightarrow> string" where
  "parseTickerFromProtocolCurrency currency =
     (let n = js_upper (js_trim currency); ticker = take (length n - 6) n in
      if drop (length n - 6) n = MRC20_SUFFIX \<and> MRC20_TICKER_PATTERN ticker then ticker else '''')"

definition normalizeMrc20Ticker :: "string \<Rightarrow> order_error + string" where
  "normalizeMrc20Ticker v =
     (let n = js_upper (js_trim v) in
      if n = '''' then Inl Mrc20TickerMissing
      else if \<not> MRC20_TICKER_PATTERN n then Inl Mrc20TickerInvalid
      else Inr n)"

definition or_text :: "string option \<Rightarrow> string" where
  "or_text v = (case v of None \<Rightarrow> '''' | Some s \<Rightarrow> s)"

definition nativeAsset :: "string \<Rightarrow> settlement_asset" where
  "nativeAsset currency =
     \<lparr>sa_selectorCurrency = normalizeNativeCurrencyUnit currency, sa_protocolCurrency = normalizeNativeCurrencyUnit currency,
      sa_kind = NativeCoin, sa_chain = deriveNativePaymentChain (normalizeNativeCurrencyUnit currency),
      sa_ticker = None, sa_mrc20Id = None\<rparr>"

definition mrc20Asset :: "string \<Rightarrow> string option \<Rightarrow> settlement_asset" where
  "mrc20Asset ticker mrc20Id =
     \<lparr>sa_selectorCurrency = ''MRC20'', sa_protocolCurrency = ticker @ MRC20_SUFFIX, sa_kind = Mrc20, sa_chain = ''btc'',
      sa_ticker = Some ticker, sa_mrc20Id = normalizeOptionalText mrc20Id\<rparr>"

definition normalizeGigSquareSettlementDraft ::
  "string option \<Rightarrow> string option \<Rightarrow> string option \<Rightarrow> order_error + settlement_asset" where
  "normalizeGigSquareSettlementDraft currency mrc20Ticker mrc20Id =
     (let primary = js_upper (js_trim (or_text currency)) in
      if primary \<noteq> ''MRC20'' then Inr (nativeAsset primary)
      else case normalizeMrc20Ticker (or_text mrc20Ticker) of
          Inl e \<Rightarrow> Inl e
        | Inr ticker \<Rightarrow> if normalizeOptionalText mrc20Id = None then Inl Mrc20TickerMissing
            else Inr (mrc20Asset ticker mrc20Id))"

definition parseGigSquareSettlementAsset ::
  "string option \<Rightarrow> string option \<Rightarrow> string option \<Rightarrow> string option \<Rightarrow> order_error + settlement_asset" where
  "parseGigSquareSettlementAsset currency settlementKind mrc20Ticker mrc20Id =
     (let protocolCurrency = js_upper (js_trim (or_text currency));
          structuredKind = js_lower (js_trim (or_text settlementKind));
          tickerFromCurrency = parseTickerFromProtocolCurrency protocolCurrency in
      if \<not> (tickerFromCurrency \<noteq> '''' \<or> (protocolCurrency = '''' \<and> structuredKind = ''mrc20''))
      then Inr (nativeAsset protocolCurrency)
      else if tickerFromCurrency \<noteq> '''' then Inr (mrc20Asset tickerFromCurrency mrc20Id)
      else (case js_trim (or_text mrc20Ticker) of providedTicker \<Rightarrow>
              if providedTicker = '''' then Inl Mrc20TickerMissing
              else map_sum id (\<lambda>t. mrc20Asset t mrc20Id) (normalizeMrc20Ticker providedTicker)))"

record order_input =
  oi_role :: order_role
  oi_localMetabotId :: int
  oi_counterparty :: string
  oi_servicePinId :: "string option"
  oi_orderPinId :: "string option"
  oi_serviceName :: string
  oi_paymentTxid :: "string option"
  oi_paymentChain :: "string option"
  oi_paymentAmount :: string
  oi_paymentCurrency :: "string option"
  oi_settlementKind :: "string option"
  oi_mrc20Ticker :: "string option"
  oi_mrc20Id :: "string option"
  oi_paymentCommitTxid :: "string option"
  oi_orderMessagePinId :: "string option"
  oi_orderMessageTxid :: "string option"
  oi_coworkSessionId :: "string option"
  oi_status :: "order_status option"
  oi_now :: int

definition given :: "string option \<Rightarrow> bool" where
  "given v = (case v of None \<Rightarrow> False | Some s \<Rightarrow> s \<noteq> '''')"

record structured_settlement =
  ss_paymentChain :: string
  ss_paymentCurrency :: string
  ss_kind :: settlement_kind
  ss_ticker :: "string option"
  ss_mrc20Id :: "string option"

definition resolveStructuredSettlement :: "order_input \<Rightarrow> order_error + structured_settlement" where
  "resolveStructuredSettlement input =
     (let hinted = (if given (oi_paymentChain input) then normalizePaymentChain (oi_paymentChain input)
            else inferPaymentChainFromCurrency (oi_paymentCurrency input)) in
      case parseGigSquareSettlementAsset
          (Some (case normalizeOptionalText (oi_paymentCurrency input) of Some c \<Rightarrow> c | None \<Rightarrow> derivePaymentCurrency hinted))
          (normalizeOptionalText (oi_settlementKind input)) (normalizeOptionalText (oi_mrc20Ticker input))
          (normalizeOptionalText (oi_mrc20Id input)) of
        Inl e \<Rightarrow> Inl e
      | Inr settlement \<Rightarrow>
          (case sa_kind settlement of
             Mrc20 \<Rightarrow> Inr \<lparr>ss_paymentChain = ''btc'', ss_paymentCurrency = sa_protocolCurrency settlement, ss_kind = Mrc20,
               ss_ticker = sa_ticker settlement, ss_mrc20Id = sa_mrc20Id settlement\<rparr>
           | NativeCoin \<Rightarrow> Inr \<lparr>ss_paymentChain = hinted, ss_paymentCurrency = derivePaymentCurrency hinted, ss_kind = NativeCoin,
               ss_ticker = None, ss_mrc20Id = None\<rparr>))"

section \<open>The table\<close>

record order_store =
  os_orders :: "(string, service_order) jsmap"
  os_revision :: int

definition saveDb :: "order_store \<Rightarrow> order_store" where
  "saveDb st = st\<lparr>os_revision := os_revision st + 1\<rparr>"

definition order_rows :: "order_store \<Rightarrow> service_order list" where
  "order_rows st = map snd (os_orders st)"

text \<open>\<open>ORDER BY updated_at DESC, created_at DESC\<close>\<close>

definition newest_first :: "service_order list \<Rightarrow> service_order list" where
  "newest_first rs = sort_key (\<lambda>o1. (- so_updatedAt o1, - so_createdAt o1)) rs"

definition select_newest :: "(service_order \<Rightarrow> bool) \<Rightarrow> order_store \<Rightarrow> service_order list" where
  "select_newest P st = newest_first (filter P (order_rows st))"

text \<open>the same with \<open>id DESC\<close> as the last key\<close>

definition select_latest :: "(service_order \<Rightarrow> bool) \<Rightarrow> order_store \<Rightarrow> service_order list" where
  "select_latest P st = rev (sort_key (\<lambda>o1. (so_updatedAt o1, so_createdAt o1, so_id o1)) (filter P (order_rows st)))"

definition first_of :: "'a list \<Rightarrow> 'a option" where
  "first_of xs = (case xs of [] \<Rightarrow> None | x # _ \<Rightarrow> Some x)"

definition getOrderById :: "order_store \<Rightarrow> string \<Rightarrow> service_order option" where
  "getOrderById st oid = jget (os_orders st) oid"

definition listOrdersByRole :: "order_store \<Rightarrow> order_role \<Rightarrow> service_order list" where
  "listOrdersByRole st role = sort_key (\<lambda>o1. - so_createdAt o1) (filter (\<lambda>o1. so_role o1 = role) (order_rows st))"

definition listOrdersByPaymentTxid :: "order_store \<Rightarrow> string \<Rightarrow> service_order list" where
  "listOrdersByPaymentTxid st paymentTxid =
     (case js_trim paymentTxid of txid \<Rightarrow> if txid = '''' then [] else select_newest (\<lambda>o1. so_paymentTxid o1 = txid) st)"

definition listOrdersByOrderPinId :: "order_store \<Rightarrow> string \<Rightarrow> service_order list" where
  "listOrdersByOrderPinId st orderPinId =
     (case js_trim orderPinId of pin \<Rightarrow> if pin = '''' then [] else select_newest (\<lambda>o1. so_orderPinId o1 = Some pin) st)"

definition findLatestOrderBySessionId :: "order_store \<Rightarrow> string \<Rightarrow> service_order option" where
  "findLatestOrderBySessionId st sid = first_of (select_newest (\<lambda>o1. so_coworkSessionId o1 = Some sid) st)"

record session_summary =
  sy_role :: order_role
  sy_status :: order_status
  sy_servicePinId :: "string option"
  sy_serviceName :: string
  sy_paymentTxid :: string
  sy_failureReason :: "string option"
  sy_refundRequestPinId :: "string option"
  sy_refundTxid :: "string option"

definition getSessionSummary :: "order_store \<Rightarrow> string \<Rightarrow> session_summary option" where
  "getSessionSummary st sid = map_option (\<lambda>o1. \<lparr>sy_role = so_role o1, sy_status = so_status o1,
     sy_servicePinId = so_servicePinId o1, sy_serviceName = so_serviceName o1, sy_paymentTxid = so_paymentTxid o1,
     sy_failureReason = so_failureReason o1, sy_refundRequestPinId = so_refundRequestPinId o1,
     sy_refundTxid = so_refundTxid o1\<rparr>)
     (first_of (select_newest (\<lambda>o1. so_coworkSessionId o1 = Some sid) st))"

definition listOrdersByStatuses :: "order_store \<Rightarrow> order_role \<Rightarrow> order_status list \<Rightarrow> service_order list" where
  "listOrdersByStatuses st role statuses = select_newest (\<lambda>o1. so_role o1 = role \<and> so_status o1 \<in> set statuses) st"

definition due :: "int option \<Rightarrow> int \<Rightarrow> bool" where
  "due t now = (case t of None \<Rightarrow> True | Some t \<Rightarrow> t \<le> now)"

definition listRefundRequestRetryCandidates :: "order_store \<Rightarrow> order_role \<Rightarrow> int \<Rightarrow> service_order list" where
  "listRefundRequestRetryCandidates st role now =
     select_newest (\<lambda>o1. so_role o1 = role \<and> so_status o1 = OsFailed \<and> so_refundRequestPinId o1 = None \<and>
       due (so_nextRetryAt o1) now) st"

definition hasActiveOrderForPrivateChatSuppression :: "order_store \<Rightarrow> int \<Rightarrow> string \<Rightarrow> bool" where
  "hasActiveOrderForPrivateChatSuppression st mb counterparty =
     (case js_trim counterparty of peer \<Rightarrow>
        peer \<noteq> '''' \<and>
        list_ex (\<lambda>o1. so_localMetabotId o1 = mb \<and> so_counterparty o1 = peer \<and>
          (so_status o1 \<in> {OsAwaitingFirstResponse, OsInProgress, OsRatingPending, OsRefundPending} \<or>
           (so_role o1 = Buyer \<and> so_status o1 = OsFailed \<and> so_refundRequestPinId o1 = None \<and>
            so_refundTxid o1 = None \<and> so_refundCompletedAt o1 = None))) (order_rows st))"

definition listRatingTimeoutCandidates :: "order_store \<Rightarrow> order_role \<Rightarrow> int \<Rightarrow> service_order list" where
  "listRatingTimeoutCandidates st role now =
     sort_key (\<lambda>o1. (case so_ratingDeadlineAt o1 of None \<Rightarrow> 0 | Some t \<Rightarrow> t, so_updatedAt o1, so_createdAt o1))
       (filter (\<lambda>o1. so_role o1 = role \<and> so_status o1 = OsRatingPending \<and>
          (case so_ratingDeadlineAt o1 of None \<Rightarrow> False | Some t \<Rightarrow> t \<le> now) \<and> so_orderEndedAt o1 = None) (order_rows st))"

definition of_pair :: "order_role \<Rightarrow> int \<Rightarrow> string \<Rightarrow> service_order \<Rightarrow> bool" where
  "of_pair role mb counterparty o1 \<longleftrightarrow>
     so_role o1 = role \<and> so_localMetabotId o1 = mb \<and> so_counterparty o1 = counterparty"

definition findOrderByPayment :: "order_store \<Rightarrow> order_role \<Rightarrow> int \<Rightarrow> string \<Rightarrow> string \<Rightarrow> service_order option" where
  "findOrderByPayment st role mb counterparty paymentTxid =
     (case js_trim paymentTxid of txid \<Rightarrow>
        if txid = '''' then None
        else find (\<lambda>o1. of_pair role mb counterparty o1 \<and> so_paymentTxid o1 = txid) (order_rows st))"

definition findOrderByOrderPinId :: "order_store \<Rightarrow> order_role \<Rightarrow> int \<Rightarrow> string \<Rightarrow> string \<Rightarrow> service_order option" where
  "findOrderByOrderPinId st role mb counterparty orderPinId =
     (case js_trim orderPinId of pin \<Rightarrow>
        if pin = '''' then None
        else find (\<lambda>o1. of_pair role mb counterparty o1 \<and> so_orderPinId o1 = Some pin) (order_rows st))"

definition findOrderByOrderMessageTxid :: "order_store \<Rightarrow> order_role \<Rightarrow> int \<Rightarrow> string \<Rightarrow> string \<Rightarrow> service_order option" where
  "findOrderByOrderMessageTxid st role mb counterparty txid =
     (case normalizeOrderMessageTxid (Some txid) of
        None \<Rightarrow> None
      | Some t \<Rightarrow> first_of (select_latest (\<lambda>o1. of_pair role mb counterparty o1 \<and> so_orderMessageTxid o1 = Some t) st))"

definition findLatestOpenOrderForPair :: "order_store \<Rightarrow> order_role \<Rightarrow> int \<Rightarrow> string \<Rightarrow> service_order option" where
  "findLatestOpenOrderForPair st role mb counterparty =
     first_of (select_latest (\<lambda>o1. of_pair role mb counterparty o1 \<and> so_status o1 \<notin> {OsCompleted, OsRefunded}) st)"

definition findByRefundRequestPinId :: "order_store \<Rightarrow> string \<Rightarrow> service_order option" where
  "findByRefundRequestPinId st pin = find (\<lambda>o1. so_refundRequestPinId o1 = Some pin) (order_rows st)"

definition listByRefundRequestPinId :: "order_store \<Rightarrow> string \<Rightarrow> service_order list" where
  "listByRefundRequestPinId st pin = select_newest (\<lambda>o1. so_refundRequestPinId o1 = Some pin) st"

record refund_risk =
  rr_provider :: string
  rr_oldest :: int
  rr_count :: nat

definition refund_risk_of :: "string \<Rightarrow> service_order list \<Rightarrow> refund_risk" where
  "refund_risk_of provider rs =
     \<lparr>rr_provider = provider,
      rr_oldest = (case sort (List.map_filter so_refundRequestedAt rs) of [] \<Rightarrow> 0 | t # _ \<Rightarrow> t),
      rr_count = length rs\<rparr>"

definition listProviderRefundRisks :: "order_store \<Rightarrow> refund_risk list" where
  "listProviderRefundRisks st =
     sort_key rr_oldest (map (\<lambda>(provider, rs). refund_risk_of provider rs)
       (group_on so_counterparty (filter (\<lambda>o1. so_role o1 = Buyer \<and> so_refundRequestPinId o1 \<noteq> None \<and>
          so_refundCompletedAt o1 = None) (order_rows st))))"

section \<open>Creating an order\<close>

definition coalesce :: "'a option \<Rightarrow> 'a option \<Rightarrow> 'a option" where
  "coalesce a b = (case a of None \<Rightarrow> b | Some _ \<Rightarrow> a)"

text \<open>The triggers on \<open>payment_currency\<close>.\<close>

definition currency_admitted :: "settlement_kind \<Rightarrow> string \<Rightarrow> string option \<Rightarrow> string option \<Rightarrow> string \<Rightarrow> bool" where
  "currency_admitted kind chain ticker mrc20Id currency =
     (case kind of
        NativeCoin \<Rightarrow> currency \<in> {''SPACE'', ''BTC'', ''DOGE''}
      | Mrc20 \<Rightarrow> chain = ''btc'' \<and>
          (case ticker of None \<Rightarrow> False
           | Some t \<Rightarrow> sql_trim t \<noteq> '''' \<and> currency = sql_upper (sql_trim t) @ ''-MRC20'') \<and>
          (case mrc20Id of None \<Rightarrow> False | Some i \<Rightarrow> sql_trim i \<noteq> ''''))"

definition same_side :: "order_input \<Rightarrow> service_order \<Rightarrow> bool" where
  "same_side input o1 \<longleftrightarrow> so_localMetabotId o1 = oi_localMetabotId input \<and> so_role o1 = oi_role input"

definition existing_order :: "order_store \<Rightarrow> order_input \<Rightarrow> service_order option" where
  "existing_order st input = coalesce
     (case normalizeOptionalText (oi_orderPinId input) of
        None \<Rightarrow> None
      | Some pin \<Rightarrow> find (\<lambda>o1. same_side input o1 \<and> so_orderPinId o1 = Some pin) (order_rows st))
     (case normalizePaymentTxid (oi_paymentTxid input) of txid \<Rightarrow>
        if txid = '''' then None
        else find (\<lambda>o1. same_side input o1 \<and> so_paymentTxid o1 = txid) (order_rows st))"

definition new_order :: "string \<Rightarrow> order_input \<Rightarrow> structured_settlement \<Rightarrow> service_order" where
  "new_order newId input settlement =
     \<lparr>so_id = newId, so_role = oi_role input, so_localMetabotId = oi_localMetabotId input,
      so_counterparty = oi_counterparty input, so_servicePinId = oi_servicePinId input,
      so_orderPinId = normalizeOptionalText (oi_orderPinId input), so_serviceName = oi_serviceName input,
      so_paymentTxid = normalizePaymentTxid (oi_paymentTxid input), so_paymentChain = ss_paymentChain settlement,
      so_paymentAmount = oi_paymentAmount input, so_paymentCurrency = ss_paymentCurrency settlement,
      so_settlementKind = ss_kind settlement, so_mrc20Ticker = ss_ticker settlement, so_mrc20Id = ss_mrc20Id settlement,
      so_paymentCommitTxid = (if ss_kind settlement = Mrc20 then normalizeOptionalText (oi_paymentCommitTxid input) else None),
      so_orderMessagePinId = oi_orderMessagePinId input,
      so_orderMessageTxid = coalesce (normalizeOrderMessageTxid (oi_orderMessageTxid input))
        (deriveOrderMessageTxidFromPinId (oi_orderMessagePinId input)),
      so_coworkSessionId = oi_coworkSessionId input,
      so_status = (case oi_status input of None \<Rightarrow> OsAwaitingFirstResponse | Some s \<Rightarrow> s),
      so_firstResponseDeadlineAt = fst (computeOrderDeadlines (oi_now input)),
      so_deliveryDeadlineAt = snd (computeOrderDeadlines (oi_now input)),
      so_firstResponseAt = None, so_deliveryMessagePinId = None, so_deliveredAt = None, so_ratingRequestedAt = None,
      so_ratingDeadlineAt = None, so_orderEndMessagePinId = None, so_orderEndedAt = None, so_orderEndReason = None,
      so_failedAt = None, so_failureReason = None, so_refundRequestPinId = None, so_refundFinalizePinId = None,
      so_refundTxid = None, so_refundRequestedAt = None, so_refundCompletedAt = None, so_refundApplyRetryCount = 0,
      so_nextRetryAt = None, so_createdAt = oi_now input, so_updatedAt = oi_now input\<rparr>"

text \<open>The insert fails on the trigger, on the primary key, or on a unique index: a payment or an order pin may stand once
  per bot and role (spaces alone do not count). After a failure the code looks once more for the row
  that won a race. The order pin is read before the payment, as on the way in.\<close>

definition unique_violation :: "order_store \<Rightarrow> service_order \<Rightarrow> bool" where
  "unique_violation st o1 =
     list_ex (\<lambda>r. so_id r = so_id o1 \<or> so_localMetabotId r = so_localMetabotId o1 \<and> so_role r = so_role o1 \<and>
       ((sql_trim (so_paymentTxid o1) \<noteq> '''' \<and> so_paymentTxid r = so_paymentTxid o1) \<or>
        (case so_orderPinId o1 of None \<Rightarrow> False | Some pin \<Rightarrow> sql_trim pin \<noteq> '''' \<and> so_orderPinId r = Some pin)))
       (order_rows st)"

definition insert_order :: "order_store \<Rightarrow> service_order \<Rightarrow> order_store option" where
  "insert_order st o1 =
     (if unique_violation st o1 \<or>
         \<not> currency_admitted (so_settlementKind o1) (so_paymentChain o1) (so_mrc20Ticker o1) (so_mrc20Id o1) (so_paymentCurrency o1)
      then None
      else Some (st\<lparr>os_orders := os_orders st @ [(so_id o1, o1)]\<rparr>))"

definition createOrder :: "string \<Rightarrow> order_input \<Rightarrow> order_store \<Rightarrow> order_error + service_order \<times> order_store" where
  "createOrder newId input st =
     (case resolveStructuredSettlement input of
        Inl e \<Rightarrow> Inl e
      | Inr settlement \<Rightarrow>
          (case existing_order st input of
             Some o1 \<Rightarrow> Inr (o1, st)
           | None \<Rightarrow>
               (case insert_order st (new_order newId input settlement) of
                  Some st' \<Rightarrow> Inr (new_order newId input settlement, saveDb st')
                | None \<Rightarrow>
                    (case existing_order st input of
                       Some o1 \<Rightarrow> Inr (o1, st)
                     | None \<Rightarrow> Inl WriteAborted))))"

section \<open>Updates\<close>

text \<open>Every \<open>mark\<close> method reads the row, may return it as it is, and else updates and saves.\<close>

definition update_order ::
  "string \<Rightarrow> (service_order \<Rightarrow> bool) \<Rightarrow> (service_order \<Rightarrow> service_order) \<Rightarrow> order_store \<Rightarrow>
   service_order option \<times> order_store" where
  "update_order oid skip f st =
     (case getOrderById st oid of
        None \<Rightarrow> (None, st)
      | Some o1 \<Rightarrow> if skip o1 then (Some o1, st)
          else (Some (f o1), saveDb (st\<lparr>os_orders := jset oid (f o1) (os_orders st)\<rparr>)))"

definition time_given :: "int option \<Rightarrow> bool" where
  "time_given t = (case t of None \<Rightarrow> False | Some t \<Rightarrow> t \<noteq> 0)"

text \<open>delivered or ended, as the guards of \<open>markFailed\<close> and \<open>markRefundPending\<close> read it\<close>

definition served :: "service_order \<Rightarrow> bool" where
  "served o1 \<longleftrightarrow> given (so_deliveryMessagePinId o1) \<or> time_given (so_deliveredAt o1) \<or>
     time_given (so_orderEndedAt o1) \<or> given (so_orderEndMessagePinId o1)"

definition markFirstResponseReceived :: "string \<Rightarrow> int \<Rightarrow> order_store \<Rightarrow> service_order option \<times> order_store" where
  "markFirstResponseReceived oid receivedAt = update_order oid
     (\<lambda>o1. so_status o1 \<notin> {OsAwaitingFirstResponse, OsInProgress})
     (\<lambda>o1. o1\<lparr>so_status := (if so_status o1 = OsAwaitingFirstResponse then OsInProgress else so_status o1),
        so_firstResponseAt := coalesce (so_firstResponseAt o1) (Some receivedAt), so_updatedAt := receivedAt\<rparr>)"

definition markDelivered :: "string \<Rightarrow> string option \<Rightarrow> int \<Rightarrow> order_store \<Rightarrow> service_order option \<times> order_store" where
  "markDelivered oid deliveryMessagePinId deliveredAt = update_order oid
     (\<lambda>o1. so_status o1 \<in> {OsFailed, OsRefundPending, OsRefunded})
     (\<lambda>o1. o1\<lparr>so_status := (if so_status o1 = OsCompleted then OsCompleted else OsRatingPending),
        so_firstResponseAt := coalesce (so_firstResponseAt o1) (Some deliveredAt),
        so_deliveryMessagePinId := coalesce deliveryMessagePinId (so_deliveryMessagePinId o1),
        so_deliveredAt := Some deliveredAt, so_updatedAt := deliveredAt\<rparr>)"

definition markRatingRequested :: "string \<Rightarrow> int \<Rightarrow> order_store \<Rightarrow> service_order option \<times> order_store" where
  "markRatingRequested oid requestedAt = update_order oid
     (\<lambda>o1. so_status o1 \<in> {OsFailed, OsRefundPending, OsRefunded, OsCompleted})
     (\<lambda>o1. o1\<lparr>so_status := OsRatingPending, so_ratingRequestedAt := coalesce (so_ratingRequestedAt o1) (Some requestedAt),
        so_ratingDeadlineAt := coalesce (so_ratingDeadlineAt o1) (Some (requestedAt + SERVICE_ORDER_RATING_TIMEOUT_MS)),
        so_updatedAt := requestedAt\<rparr>)"

definition markOrderEnded ::
  "string \<Rightarrow> string option \<Rightarrow> string option \<Rightarrow> int \<Rightarrow> order_store \<Rightarrow> service_order option \<times> order_store" where
  "markOrderEnded oid reason orderEndMessagePinId endedAt = update_order oid
     (\<lambda>o1. so_status o1 = OsRefunded)
     (\<lambda>o1. o1\<lparr>so_status := (if so_status o1 \<in> {OsFailed, OsRefundPending} then so_status o1 else OsCompleted),
        so_orderEndMessagePinId := coalesce orderEndMessagePinId (so_orderEndMessagePinId o1),
        so_orderEndedAt := coalesce (so_orderEndedAt o1) (Some endedAt),
        so_orderEndReason := coalesce (so_orderEndReason o1) (normalizeOptionalText reason), so_updatedAt := endedAt\<rparr>)"

definition markFailed :: "string \<Rightarrow> string \<Rightarrow> int \<Rightarrow> order_store \<Rightarrow> service_order option \<times> order_store" where
  "markFailed oid failureReason failedAt = update_order oid
     (\<lambda>o1. so_status o1 \<in> {OsCompleted, OsRefundPending, OsRefunded} \<or> served o1)
     (\<lambda>o1. o1\<lparr>so_status := OsFailed, so_failedAt := coalesce (so_failedAt o1) (Some failedAt),
        so_failureReason := coalesce (so_failureReason o1) (Some failureReason), so_updatedAt := failedAt\<rparr>)"

definition markRefundPending :: "string \<Rightarrow> string option \<Rightarrow> int \<Rightarrow> order_store \<Rightarrow> service_order option \<times> order_store" where
  "markRefundPending oid refundRequestPinId requestedAt = update_order oid
     (\<lambda>o1. so_status o1 \<in> {OsCompleted, OsRefunded} \<or> served o1)
     (\<lambda>o1. o1\<lparr>so_status := OsRefundPending,
        so_refundRequestPinId := coalesce refundRequestPinId (so_refundRequestPinId o1),
        so_refundRequestedAt := coalesce (so_refundRequestedAt o1) (Some requestedAt), so_nextRetryAt := None,
        so_updatedAt := requestedAt\<rparr>)"

definition markRefundRequestRetry :: "string \<Rightarrow> int \<Rightarrow> int \<Rightarrow> order_store \<Rightarrow> service_order option \<times> order_store" where
  "markRefundRequestRetry oid attemptedAt nextRetryAt = update_order oid
     (\<lambda>o1. so_status o1 \<in> {OsRefundPending, OsRefunded})
     (\<lambda>o1. o1\<lparr>so_refundApplyRetryCount := so_refundApplyRetryCount o1 + 1, so_nextRetryAt := Some nextRetryAt,
        so_updatedAt := attemptedAt\<rparr>)"

definition markRefunded :: "string \<Rightarrow> string \<Rightarrow> string \<Rightarrow> int \<Rightarrow> order_store \<Rightarrow> service_order option \<times> order_store" where
  "markRefunded oid refundTxid refundFinalizePinId refundCompletedAt = update_order oid
     (\<lambda>o1. so_status o1 = OsRefunded)
     (\<lambda>o1. o1\<lparr>so_status := OsRefunded, so_refundTxid := Some refundTxid, so_refundFinalizePinId := Some refundFinalizePinId,
        so_refundCompletedAt := Some refundCompletedAt, so_nextRetryAt := None, so_updatedAt := refundCompletedAt\<rparr>)"

definition markRefundedLocally :: "string \<Rightarrow> int \<Rightarrow> string option \<Rightarrow> order_store \<Rightarrow> service_order option \<times> order_store" where
  "markRefundedLocally oid resolvedAt failureReason = update_order oid
     (\<lambda>o1. so_status o1 = OsRefunded)
     (\<lambda>o1. o1\<lparr>so_status := OsRefunded, so_failedAt := coalesce (so_failedAt o1) (Some resolvedAt),
        so_failureReason := (if \<not> given (so_failureReason o1) \<and> normalizeOptionalText failureReason \<noteq> None
          then normalizeOptionalText failureReason else so_failureReason o1),
        so_refundRequestedAt := coalesce (so_refundRequestedAt o1) (Some resolvedAt),
        so_refundCompletedAt := coalesce (so_refundCompletedAt o1) (Some resolvedAt), so_nextRetryAt := None,
        so_updatedAt := resolvedAt\<rparr>)"

definition setCoworkSessionId :: "string \<Rightarrow> string \<Rightarrow> int \<Rightarrow> order_store \<Rightarrow> service_order option \<times> order_store" where
  "setCoworkSessionId oid coworkSessionId now = update_order oid
     (\<lambda>o1. js_trim coworkSessionId = '''' \<or> so_coworkSessionId o1 = Some (js_trim coworkSessionId))
     (\<lambda>o1. o1\<lparr>so_coworkSessionId := Some (js_trim coworkSessionId), so_updatedAt := now\<rparr>)"

definition repairOrderServiceReference ::
  "string \<Rightarrow> string \<Rightarrow> string option \<Rightarrow> order_store \<Rightarrow> service_order option \<times> order_store" where
  "repairOrderServiceReference oid servicePinId serviceName =
     (case (js_trim servicePinId, js_trim (or_text serviceName)) of (pin, name) \<Rightarrow> update_order oid
        (\<lambda>o1. pin = '''' \<or> (so_servicePinId o1 = Some pin \<and> (name = '''' \<or> so_serviceName o1 = name)))
        (\<lambda>o1. o1\<lparr>so_servicePinId := Some pin, so_serviceName := (if name \<noteq> '''' then name else so_serviceName o1)\<rparr>))"

definition recordRefundTransfer :: "string \<Rightarrow> string \<Rightarrow> int \<Rightarrow> order_store \<Rightarrow> service_order option \<times> order_store" where
  "recordRefundTransfer oid refundTxid recordedAt = update_order oid
     (\<lambda>o1. so_status o1 = OsRefunded \<or> given (so_refundTxid o1))
     (\<lambda>o1. o1\<lparr>so_refundTxid := Some refundTxid, so_updatedAt := recordedAt\<rparr>)"

text \<open>The one update the currency trigger watches.\<close>

definition repairOrderPaymentAmount ::
  "string \<Rightarrow> string \<Rightarrow> string \<Rightarrow> int \<Rightarrow> order_store \<Rightarrow> order_error + service_order option \<times> order_store" where
  "repairOrderPaymentAmount oid paymentAmount paymentCurrency now st =
     (case (js_trim paymentAmount, js_upper (js_trim paymentCurrency)) of (amount, currency) \<Rightarrow>
        (case getOrderById st oid of
           None \<Rightarrow> Inr (None, st)
         | Some o1 \<Rightarrow>
             if amount = '''' \<or> currency = '''' \<or> (so_paymentAmount o1 = amount \<and> so_paymentCurrency o1 = currency)
             then Inr (Some o1, st)
             else if \<not> currency_admitted (so_settlementKind o1) (so_paymentChain o1) (so_mrc20Ticker o1) (so_mrc20Id o1) currency
             then Inl WriteAborted
             else Inr (update_order oid (\<lambda>_. False)
               (\<lambda>o1. o1\<lparr>so_paymentAmount := amount, so_paymentCurrency := currency, so_updatedAt := now\<rparr>) st)))"

end
