(* ===== verification/OrderLifecycle.thy ===== *)
theory OrderLifecycle
  imports OrderStore
begin

text \<open>
  services/serviceOrderLifecycleService.ts: what a buyer and a seller do with an order, the scan for
  timed-out orders, refund requests and the repair of orders a bot placed with itself. The service's
  own state (reservations, the cached scan) and the outside world (events raised, pins written) are
  one record; the chain writers are functions of the environment that may fail (\<open>None\<close>). Event
  listeners do not throw. The texts of the pins are left out.
\<close>

section \<open>Environment and state\<close>

record pin_ids =
  pi_pin :: "string option"
  pi_txid :: "string option"

record order_env =
  oe_now :: int
  oe_newId :: string
  oe_resolve :: "int \<Rightarrow> string option" \<comment> \<open>the global id of a local bot\<close>
  oe_refundRequestPin :: "(service_order \<Rightarrow> pin_ids option) option"
  oe_orderEndPin :: "(service_order \<Rightarrow> pin_ids option) option"
  oe_retryDelay :: int

definition DEFAULT_REFUND_REQUEST_RETRY_DELAY_MS :: int where "DEFAULT_REFUND_REQUEST_RETRY_DELAY_MS = 60000"

datatype order_event_type = EvCreated | EvFirstResponse | EvDelivered | EvFailed | EvRatingRequested | EvRefundRequested
  | EvRefunded | EvOrderEnded

datatype order_effect =
    Experience order_event_type service_order
  | OrderEvent order_event_type service_order
  | RefundRequestPin service_order
  | OrderEndPin service_order

record lifecycle =
  lc_store :: order_store
  lc_pending :: "string list"
  lc_cache :: "(int \<times> service_order list) option"
  lc_effects :: "order_effect list"

definition lift_store :: "(order_store \<Rightarrow> 'a \<times> order_store) \<Rightarrow> lifecycle \<Rightarrow> 'a \<times> lifecycle" where
  "lift_store f lc = (case f (lc_store lc) of (r, st) \<Rightarrow> (r, lc\<lparr>lc_store := st\<rparr>))"

definition emit :: "order_effect list \<Rightarrow> lifecycle \<Rightarrow> lifecycle" where
  "emit es lc = lc\<lparr>lc_effects := lc_effects lc @ es\<rparr>"

definition emitExperienceEvent :: "order_event_type \<Rightarrow> service_order option \<Rightarrow> lifecycle \<Rightarrow> lifecycle" where
  "emitExperienceEvent t o1 lc = (case o1 of None \<Rightarrow> lc | Some o1 \<Rightarrow> emit [Experience t o1] lc)"

definition emitOrderEvents :: "order_event_type \<Rightarrow> service_order list \<Rightarrow> lifecycle \<Rightarrow> lifecycle" where
  "emitOrderEvents t orders = emit (concat (map (\<lambda>o1. [Experience t o1, OrderEvent t o1]) orders))"

section \<open>Orders of a bot with itself\<close>

datatype lifecycle_error = SelfOrder | OpenOrderExists string | StoreError order_error

definition isSelfDirectedPair :: "order_env \<Rightarrow> int \<Rightarrow> string \<Rightarrow> bool" where
  "isSelfDirectedPair env mb counterparty =
     (case normalizeOptionalText (oe_resolve env mb) of
        None \<Rightarrow> False | Some own \<Rightarrow> normalizeOptionalText (Some counterparty) = Some own)"

definition isSelfDirectedOrder :: "order_env \<Rightarrow> service_order \<Rightarrow> bool" where
  "isSelfDirectedOrder env o1 = isSelfDirectedPair env (so_localMetabotId o1) (so_counterparty o1)"

definition SELF_DIRECTED_REPAIR_CANDIDATE_STATUSES :: "order_status list" where
  "SELF_DIRECTED_REPAIR_CANDIDATE_STATUSES = [OsAwaitingFirstResponse, OsInProgress, OsFailed, OsRefundPending]"

definition repair_scan :: "order_store \<Rightarrow> service_order list" where
  "repair_scan st = concat (map (\<lambda>role. listOrdersByStatuses st role SELF_DIRECTED_REPAIR_CANDIDATE_STATUSES) [Buyer, Seller])"

text \<open>the scan, cached until the store's revision moves\<close>

definition listSelfDirectedRepairCandidates :: "lifecycle \<Rightarrow> service_order list \<times> lifecycle" where
  "listSelfDirectedRepairCandidates lc =
     (let fresh = repair_scan (lc_store lc); rev = os_revision (lc_store lc);
          scanned = (fresh, lc\<lparr>lc_cache := Some (rev, fresh)\<rparr>) in
      case lc_cache lc of
        None \<Rightarrow> scanned
      | Some (r, orders) \<Rightarrow> if r = rev then (orders, lc) else scanned)"

text \<open>Marks each order of a list as refunded locally, in order; the rows it skips are those the list
  shows as completed or refunded.\<close>

definition refund_locally ::
  "(service_order \<Rightarrow> bool) \<Rightarrow> int \<Rightarrow> string \<Rightarrow> service_order list \<Rightarrow> order_store \<Rightarrow> service_order list \<times> order_store" where
  "refund_locally skip resolvedAt reason orders st = foldl
     (\<lambda>(done, st) o1. if skip o1 then (done, st)
        else (case markRefundedLocally (so_id o1) resolvedAt (Some reason) st of
                (None, st') \<Rightarrow> (done, st') | (Some o2, st') \<Rightarrow> (done @ [o2], st')))
     ([], st) orders"

definition settled :: "service_order \<Rightarrow> bool" where
  "settled o1 \<longleftrightarrow> so_status o1 \<in> {OsCompleted, OsRefunded}"

definition SELF_ORDER_REASON :: string where "SELF_ORDER_REASON = ''self_order_not_allowed''"

definition repair_keys :: "order_env \<Rightarrow> service_order list \<Rightarrow> string list \<times> string list" where
  "repair_keys env orders = foldl
     (\<lambda>(pins, txids) o1. if \<not> isSelfDirectedOrder env o1 then (pins, txids)
        else if given (so_orderPinId o1) then (set_add (or_text (so_orderPinId o1)) pins, txids)
        else if so_paymentTxid o1 \<noteq> '''' then (pins, set_add (so_paymentTxid o1) txids)
        else (pins, txids))
     ([], []) orders"

definition repair_group ::
  "int \<Rightarrow> (order_store \<Rightarrow> service_order list) \<Rightarrow> service_order list \<times> order_store \<Rightarrow> service_order list \<times> order_store" where
  "repair_group now select acc =
     (case acc of (done, st) \<Rightarrow>
        (case refund_locally settled now SELF_ORDER_REASON (select st) st of (more1, st') \<Rightarrow> (done @ more1, st')))"

definition repair_orders :: "order_env \<Rightarrow> service_order list \<Rightarrow> order_store \<Rightarrow> service_order list \<times> order_store" where
  "repair_orders env candidates st =
     (case repair_keys env candidates of (pins, txids) \<Rightarrow>
        foldl (\<lambda>acc txid. repair_group (oe_now env) (\<lambda>st. listOrdersByPaymentTxid st txid) acc)
          (foldl (\<lambda>acc pin. repair_group (oe_now env) (\<lambda>st. listOrdersByOrderPinId st pin) acc) ([], st) pins) txids)"

definition repairSelfDirectedOrders :: "order_env \<Rightarrow> lifecycle \<Rightarrow> service_order list \<times> lifecycle" where
  "repairSelfDirectedOrders env lc =
     (case listSelfDirectedRepairCandidates lc of (candidates, lc) \<Rightarrow> lift_store (repair_orders env candidates) lc)"

section \<open>Placing an order\<close>

definition getBuyerOrderAvailability :: "order_env \<Rightarrow> int \<Rightarrow> string \<Rightarrow> lifecycle \<Rightarrow> bool \<times> lifecycle" where
  "getBuyerOrderAvailability env mb counterparty lc =
     (\<not> isSelfDirectedPair env mb counterparty, snd (repairSelfDirectedOrders env lc))"

definition getBuyerOrderReservationKey :: "int \<Rightarrow> string \<Rightarrow> string option \<Rightarrow> string option \<Rightarrow> string option" where
  "getBuyerOrderReservationKey mb counterparty paymentTxid orderPinId =
     (case normalizeOptionalText orderPinId of
        Some pin \<Rightarrow> Some (num_string (of_int mb) @ '':'' @ counterparty @ '':order-pin:'' @ pin)
      | None \<Rightarrow> map_option (\<lambda>txid. num_string (of_int mb) @ '':'' @ counterparty @ '':payment:'' @ txid)
          (normalizeOptionalText paymentTxid))"

text \<open>A reservation is its key, or nothing when the order has neither pin nor payment. The closure that
  releases it acts on its first call only; that call is \<open>releaseReservation\<close>.\<close>

definition reserveBuyerOrderCreation ::
  "order_env \<Rightarrow> int \<Rightarrow> string \<Rightarrow> string option \<Rightarrow> string option \<Rightarrow> lifecycle \<Rightarrow> lifecycle_error + string option \<times> lifecycle" where
  "reserveBuyerOrderCreation env mb counterparty paymentTxid orderPinId lc =
     (let lc = snd (repairSelfDirectedOrders env lc) in
      if isSelfDirectedPair env mb counterparty then Inl SelfOrder
      else (case getBuyerOrderReservationKey mb counterparty paymentTxid orderPinId of
              None \<Rightarrow> Inr (None, lc)
            | Some key \<Rightarrow> if key \<in> set (lc_pending lc) then Inl (OpenOrderExists key)
                else Inr (Some key, lc\<lparr>lc_pending := set_add key (lc_pending lc)\<rparr>)))"

definition releaseReservation :: "string option \<Rightarrow> lifecycle \<Rightarrow> lifecycle" where
  "releaseReservation key lc =
     (case key of None \<Rightarrow> lc | Some k \<Rightarrow> lc\<lparr>lc_pending := removeAll k (lc_pending lc)\<rparr>)"

definition create_as :: "order_role \<Rightarrow> order_env \<Rightarrow> order_input \<Rightarrow> lifecycle \<Rightarrow> lifecycle_error + service_order \<times> lifecycle" where
  "create_as role env input lc =
     (if isSelfDirectedPair env (oi_localMetabotId input) (oi_counterparty input) then Inl SelfOrder
      else (case createOrder (oe_newId env)
              (input\<lparr>oi_role := role, oi_status := Some OsAwaitingFirstResponse, oi_now := oe_now env\<rparr>) (lc_store lc) of
              Inl e \<Rightarrow> Inl (StoreError e)
            | Inr (o1, st) \<Rightarrow> Inr (o1, emitExperienceEvent EvCreated (Some o1) (lc\<lparr>lc_store := st\<rparr>))))"

definition createBuyerOrder :: "order_env \<Rightarrow> order_input \<Rightarrow> lifecycle \<Rightarrow> lifecycle_error + service_order \<times> lifecycle" where
  "createBuyerOrder = create_as Buyer"

definition createSellerOrder :: "order_env \<Rightarrow> order_input \<Rightarrow> lifecycle \<Rightarrow> lifecycle_error + service_order \<times> lifecycle" where
  "createSellerOrder = create_as Seller"

section \<open>Finding the order a message is about\<close>

record order_match =
  om_localMetabotId :: int
  om_counterparty :: string
  om_orderPinId :: "string option"
  om_paymentTxid :: "string option"
  om_orderMessageTxid :: "string option"
  om_coworkSessionId :: "string option"

definition findOrderForMatch :: "order_store \<Rightarrow> order_role \<Rightarrow> order_match \<Rightarrow> service_order option" where
  "findOrderForMatch st role m =
     (let mb = om_localMetabotId m; cp = om_counterparty m;
          by = (\<lambda>key look. case normalizeOptionalText key of None \<Rightarrow> None | Some k \<Rightarrow> look k) in
      coalesce (by (om_orderPinId m) (findOrderByOrderPinId st role mb cp))
        (coalesce (by (om_paymentTxid m) (findOrderByPayment st role mb cp))
          (coalesce (by (om_orderMessageTxid m) (findOrderByOrderMessageTxid st role mb cp))
            (by (om_coworkSessionId m) (\<lambda>sid. case findLatestOrderBySessionId st sid of
               None \<Rightarrow> None | Some o1 \<Rightarrow> if of_pair role mb cp o1 then Some o1 else None)))))"

text \<open>The shape the \<open>mark\<close> methods share: find, update, tell the listener.\<close>

definition mark_matched ::
  "order_role \<Rightarrow> order_match \<Rightarrow> order_event_type \<Rightarrow> (string \<Rightarrow> order_store \<Rightarrow> service_order option \<times> order_store) \<Rightarrow>
   lifecycle \<Rightarrow> service_order option \<times> lifecycle" where
  "mark_matched role m t mark lc =
     (case findOrderForMatch (lc_store lc) role m of
        None \<Rightarrow> (None, lc)
      | Some o1 \<Rightarrow> (case lift_store (mark (so_id o1)) lc of (updated, lc) \<Rightarrow> (updated, emitExperienceEvent t updated lc)))"

definition or_now :: "order_env \<Rightarrow> int option \<Rightarrow> int" where
  "or_now env t = (case t of None \<Rightarrow> oe_now env | Some t \<Rightarrow> t)"

definition or_reason :: "string \<Rightarrow> string \<Rightarrow> string" where
  "or_reason reason fallback = (if reason = '''' then fallback else reason)"

definition markBuyerOrderFirstResponseReceived ::
  "order_env \<Rightarrow> order_match \<Rightarrow> int option \<Rightarrow> lifecycle \<Rightarrow> service_order option \<times> lifecycle" where
  "markBuyerOrderFirstResponseReceived env m receivedAt =
     mark_matched Buyer m EvFirstResponse (\<lambda>oid. markFirstResponseReceived oid (or_now env receivedAt))"

definition markSellerOrderFirstResponseSent ::
  "order_env \<Rightarrow> order_match \<Rightarrow> int option \<Rightarrow> lifecycle \<Rightarrow> service_order option \<times> lifecycle" where
  "markSellerOrderFirstResponseSent env m sentAt =
     mark_matched Seller m EvFirstResponse (\<lambda>oid. markFirstResponseReceived oid (or_now env sentAt))"

definition markSellerOrderFailed ::
  "order_env \<Rightarrow> order_match \<Rightarrow> string \<Rightarrow> int option \<Rightarrow> lifecycle \<Rightarrow> service_order option \<times> lifecycle" where
  "markSellerOrderFailed env m failureReason failedAt =
     mark_matched Seller m EvFailed
       (\<lambda>oid. markFailed oid (or_reason failureReason ''skill_scope_unresolved'') (or_now env failedAt))"

definition markBuyerOrderDelivered ::
  "order_env \<Rightarrow> order_match \<Rightarrow> string option \<Rightarrow> int option \<Rightarrow> lifecycle \<Rightarrow> service_order option \<times> lifecycle" where
  "markBuyerOrderDelivered env m deliveryMessagePinId deliveredAt =
     mark_matched Buyer m EvDelivered (\<lambda>oid. markDelivered oid deliveryMessagePinId (or_now env deliveredAt))"

definition markSellerOrderDelivered ::
  "order_env \<Rightarrow> order_match \<Rightarrow> string option \<Rightarrow> int option \<Rightarrow> lifecycle \<Rightarrow> service_order option \<times> lifecycle" where
  "markSellerOrderDelivered env m deliveryMessagePinId deliveredAt =
     mark_matched Seller m EvDelivered (\<lambda>oid. markDelivered oid deliveryMessagePinId (or_now env deliveredAt))"

definition markOrderRatingRequested ::
  "order_env \<Rightarrow> order_role \<Rightarrow> order_match \<Rightarrow> int option \<Rightarrow> lifecycle \<Rightarrow> service_order option \<times> lifecycle" where
  "markOrderRatingRequested env role m requestedAt =
     mark_matched role m EvRatingRequested (\<lambda>oid. markRatingRequested oid (or_now env requestedAt))"

definition lifecycleOrderEnded ::
  "order_env \<Rightarrow> order_role \<Rightarrow> order_match \<Rightarrow> string option \<Rightarrow> string option \<Rightarrow> int option \<Rightarrow> lifecycle \<Rightarrow>
   service_order option \<times> lifecycle" where
  "lifecycleOrderEnded env role m reason orderEndMessagePinId endedAt =
     mark_matched role m EvOrderEnded (\<lambda>oid. markOrderEnded oid reason orderEndMessagePinId (or_now env endedAt))"

definition attachCoworkSessionToSellerOrder ::
  "order_env \<Rightarrow> order_match \<Rightarrow> string \<Rightarrow> lifecycle \<Rightarrow> service_order option \<times> lifecycle" where
  "attachCoworkSessionToSellerOrder env m sid lc =
     (case findOrderForMatch (lc_store lc) Seller m of
        None \<Rightarrow> (None, lc)
      | Some o1 \<Rightarrow> lift_store (setCoworkSessionId (so_id o1) sid (oe_now env)) lc)"

section \<open>Refund requests\<close>

definition isZeroAmount :: "string \<Rightarrow> bool" where
  "isZeroAmount v \<longleftrightarrow> js_number (Some (JStr (js_trim v))) = Some 0"

definition listRelatedOrders :: "order_store \<Rightarrow> service_order \<Rightarrow> service_order list" where
  "listRelatedOrders st o1 =
     (if given (so_orderPinId o1) then listOrdersByOrderPinId st (or_text (so_orderPinId o1))
      else if so_paymentTxid o1 \<noteq> '''' then listOrdersByPaymentTxid st (so_paymentTxid o1)
      else if given (so_coworkSessionId o1) then
        (case findLatestOrderBySessionId st (or_text (so_coworkSessionId o1)) of None \<Rightarrow> [o1] | Some s \<Rightarrow> [s])
      else [o1])"

definition pending_all ::
  "string option \<Rightarrow> int \<Rightarrow> service_order list \<Rightarrow> order_store \<Rightarrow> service_order list \<times> order_store" where
  "pending_all pin at1 orders st = foldl
     (\<lambda>(done, st) o1. case markRefundPending (so_id o1) pin at1 st of
        (None, st') \<Rightarrow> (done, st') | (Some o2, st') \<Rightarrow> (done @ [o2], st'))
     ([], st) orders"

definition mirrorRefundPendingToCounterparts ::
  "service_order \<Rightarrow> string option \<Rightarrow> int \<Rightarrow> order_store \<Rightarrow> service_order list \<times> order_store" where
  "mirrorRefundPendingToCounterparts o1 pin requestedAt st =
     pending_all pin requestedAt
       (filter (\<lambda>c. so_id c \<noteq> so_id o1 \<and> so_role c \<noteq> so_role o1) (listRelatedOrders st o1)) st"

definition opt_list :: "'a option \<Rightarrow> 'a list" where
  "opt_list v = (case v of None \<Rightarrow> [] | Some x \<Rightarrow> [x])"

definition FREE_REFUND_REASON :: string where "FREE_REFUND_REASON = ''free_order_no_refund_required''"

definition refund_free :: "service_order \<Rightarrow> int \<Rightarrow> lifecycle \<Rightarrow> service_order option \<times> lifecycle" where
  "refund_free o1 attemptedAt lc =
     (case lift_store (refund_locally (\<lambda>_. False) attemptedAt FREE_REFUND_REASON (listRelatedOrders (lc_store lc) o1)) lc of
        (updated, lc) \<Rightarrow>
          (coalesce (find (\<lambda>c. so_id c = so_id o1) updated) (getOrderById (lc_store lc) (so_id o1)),
           emitOrderEvents EvRefunded updated lc))"

definition request_refund :: "order_env \<Rightarrow> service_order \<Rightarrow> int \<Rightarrow> lifecycle \<Rightarrow> service_order option \<times> lifecycle" where
  "request_refund env o1 attemptedAt lc =
     (case (case oe_refundRequestPin env of None \<Rightarrow> None | Some write \<Rightarrow> write o1) of
        None \<Rightarrow> lift_store (markRefundRequestRetry (so_id o1) attemptedAt (attemptedAt + oe_retryDelay env)) lc
      | Some ids \<Rightarrow>
          (let pin = coalesce (pi_pin ids) (pi_txid ids); lc = emit [RefundRequestPin o1] lc in
           case lift_store (markRefundPending (so_id o1) pin attemptedAt) lc of (updated, lc) \<Rightarrow>
             (case lift_store (mirrorRefundPendingToCounterparts o1 pin attemptedAt) lc of (mirrored, lc) \<Rightarrow>
                (updated, emitOrderEvents EvRefundRequested (mirrored @ opt_list updated) lc))))"

definition tryCreateRefundRequest :: "order_env \<Rightarrow> string \<Rightarrow> int \<Rightarrow> lifecycle \<Rightarrow> service_order option \<times> lifecycle" where
  "tryCreateRefundRequest env orderId attemptedAt lc =
     (case getOrderById (lc_store lc) orderId of
        None \<Rightarrow> (None, lc)
      | Some o1 \<Rightarrow>
          if so_role o1 \<noteq> Buyer \<or> so_status o1 \<in> {OsRefundPending, OsRefunded} \<or> given (so_refundRequestPinId o1) \<or>
             so_status o1 \<noteq> OsFailed then (Some o1, lc)
          else if isZeroAmount (so_paymentAmount o1) then refund_free o1 attemptedAt lc
          else request_refund env o1 attemptedAt lc)"

definition markBuyerOrderFailedAndRequestRefund ::
  "order_env \<Rightarrow> order_match \<Rightarrow> string \<Rightarrow> int option \<Rightarrow> lifecycle \<Rightarrow> service_order option \<times> lifecycle" where
  "markBuyerOrderFailedAndRequestRefund env m failureReason failedAt lc =
     (let at1 = or_now env failedAt in
      case mark_matched Buyer m EvFailed (\<lambda>oid. markFailed oid (or_reason failureReason ''delivery_artifact_failed'') at1) lc of
        (None, lc) \<Rightarrow> (None, lc)
      | (Some failedOrder, lc) \<Rightarrow>
          if so_status failedOrder \<noteq> OsFailed then (Some failedOrder, lc)
          else tryCreateRefundRequest env (so_id failedOrder) at1 lc)"

section \<open>The scan\<close>

definition OPEN_STATUSES :: "order_status list" where
  "OPEN_STATUSES = [OsAwaitingFirstResponse, OsInProgress]"

definition scan_buyer :: "order_env \<Rightarrow> service_order \<Rightarrow> lifecycle \<Rightarrow> lifecycle" where
  "scan_buyer env o1 lc =
     (case getTimedOutOrderTransition o1 (oe_now env) of
        None \<Rightarrow> lc
      | Some t \<Rightarrow>
          (case lift_store (markFailed (so_id o1) (timeout_reason t) (oe_now env)) lc of
             (None, lc) \<Rightarrow> lc
           | (Some failedOrder, lc) \<Rightarrow>
               snd (tryCreateRefundRequest env (so_id failedOrder) (oe_now env)
                 (emitExperienceEvent EvFailed (Some failedOrder) lc))))"

definition scan_seller :: "order_env \<Rightarrow> service_order \<Rightarrow> lifecycle \<Rightarrow> lifecycle" where
  "scan_seller env o1 lc =
     (if js_trim (so_paymentTxid o1) = '''' then lc
      else (case getTimedOutOrderTransition o1 (oe_now env) of
              None \<Rightarrow> lc
            | Some t \<Rightarrow>
                (case lift_store (markFailed (so_id o1) (timeout_reason t) (oe_now env)) lc of (updated, lc) \<Rightarrow>
                   emitExperienceEvent EvFailed updated lc)))"

definition scan_retry :: "order_env \<Rightarrow> service_order \<Rightarrow> lifecycle \<Rightarrow> lifecycle" where
  "scan_retry env o1 lc = snd (tryCreateRefundRequest env (so_id o1) (oe_now env) lc)"

definition tryEndRatingTimedOutOrder :: "order_env \<Rightarrow> service_order \<Rightarrow> lifecycle \<Rightarrow> lifecycle" where
  "tryEndRatingTimedOutOrder env o1 lc =
     (if so_role o1 \<noteq> Seller \<or> so_status o1 \<noteq> OsRatingPending then lc
      else (case oe_orderEndPin env of
              None \<Rightarrow> lc
            | Some write \<Rightarrow>
                (case write o1 of
                   None \<Rightarrow> lc
                 | Some ids \<Rightarrow>
                     (case lift_store (markOrderEnded (so_id o1) (Some ''rating_timeout'') (coalesce (pi_pin ids) (pi_txid ids))
                         (oe_now env)) (emit [OrderEndPin o1] lc) of
                        (updated, lc) \<Rightarrow> emitOrderEvents EvOrderEnded (opt_list updated) lc))))"

definition scanTimedOutOrders :: "order_env \<Rightarrow> lifecycle \<Rightarrow> lifecycle" where
  "scanTimedOutOrders env lc =
     (let lc = snd (repairSelfDirectedOrders env lc);
          lc = foldl (\<lambda>lc o1. scan_buyer env o1 lc) lc (listOrdersByStatuses (lc_store lc) Buyer OPEN_STATUSES);
          lc = foldl (\<lambda>lc o1. scan_seller env o1 lc) lc (listOrdersByStatuses (lc_store lc) Seller OPEN_STATUSES);
          lc = foldl (\<lambda>lc o1. scan_retry env o1 lc) lc (listRefundRequestRetryCandidates (lc_store lc) Buyer (oe_now env))
      in foldl (\<lambda>lc o1. tryEndRatingTimedOutOrder env o1 lc) lc
           (listRatingTimeoutCandidates (lc_store lc) Seller (oe_now env)))"

end
