(* ===== verification/OrderRefund.thy ===== *)
theory OrderRefund
  imports OrderLifecycle
begin

text \<open>
  services/serviceRefundSettlementService.ts (a seller pays a refund) and serviceRefundSyncService.ts
  (refund requests and refund proofs read from the chain). Pin payloads are JSON values; parsing a
  text, the transfer, the pin writers and the verifiers are functions of the environment. A run
  returns what it did to the store and outside together with its result, as an error may come after
  money has moved.
\<close>

section \<open>Payloads\<close>

definition object_of :: "(string \<Rightarrow> json option) \<Rightarrow> json \<Rightarrow> json option" where
  "object_of parse content =
     (case (case content of JStr s \<Rightarrow> parse s | j \<Rightarrow> Some j) of
        Some (JObj kv) \<Rightarrow> Some (JObj kv)
      | _ \<Rightarrow> None)"

definition is_text :: "json option \<Rightarrow> bool" where
  "is_text v = (case v of Some (JStr _) \<Rightarrow> True | _ \<Rightarrow> False)"

definition parseRefundRequestPayload :: "(string \<Rightarrow> json option) \<Rightarrow> json \<Rightarrow> json option" where
  "parseRefundRequestPayload parse content =
     (case object_of parse content of None \<Rightarrow> None
      | Some p \<Rightarrow> if is_text (jprop p ''paymentTxid'') then Some p else None)"

definition parseRefundFinalizePayload :: "(string \<Rightarrow> json option) \<Rightarrow> json \<Rightarrow> json option" where
  "parseRefundFinalizePayload parse content =
     (case object_of parse content of None \<Rightarrow> None
      | Some p \<Rightarrow> if list_all (\<lambda>k. is_text (jprop p k)) [''refundRequestPinId'', ''refundTxid'', ''paymentTxid'']
          then Some p else None)"

text \<open>\<open>String(payload.x || '')\<close>, and the same trimmed.\<close>

definition text_of :: "json \<Rightarrow> string \<Rightarrow> string" where
  "text_of p k = (if js_truthy (jprop p k) then js_string_opt (jprop p k) else '''')"

definition trimmed_of :: "json \<Rightarrow> string \<Rightarrow> string" where
  "trimmed_of p k = js_trim (text_of p k)"

text \<open>\<open>own && payload.x && String(payload.x).trim() !== own\<close>\<close>

definition differs :: "string \<Rightarrow> json \<Rightarrow> string \<Rightarrow> bool" where
  "differs own p k \<longleftrightarrow> own \<noteq> '''' \<and> js_truthy (jprop p k) \<and> trimmed_of p k \<noteq> own"

section \<open>Paying a refund\<close>

datatype refund_error = RefundOrderMissing | NotSeller | AlreadyRefunded | NoPendingRequest | RequestUnreadable
  | RequestInvalid | RequestTxidMismatch | RequestServiceMismatch | RequestBuyerMismatch | RequestSellerMismatch
  | NoRefundAddress | TransferFailed | NoTransferTxid | FinalizeFailed | NoFinalizePin | ReloadFailed

record refund_transfer =
  rt_orderId :: string
  rt_address :: string
  rt_amount :: string
  rt_currency :: string

record transfer_reply =
  tr_success :: "bool option"
  tr_txId :: "string option"

datatype refund_effect = RefundTransfer refund_transfer | RefundFinalizePin service_order string
  | RefundEvent order_event_type service_order

record refund_env =
  re_now :: int
  re_parse :: "string \<Rightarrow> json option"
  re_resolve :: "int \<Rightarrow> string option"
  re_fetchRequest :: "string \<Rightarrow> json option"
  re_transfer :: "refund_transfer \<Rightarrow> transfer_reply option"
  re_finalizePin :: "service_order \<Rightarrow> string \<Rightarrow> pin_ids option"

record refund_state =
  rs_store :: order_store
  rs_effects :: "refund_effect list"

definition rs_emit :: "refund_effect list \<Rightarrow> refund_state \<Rightarrow> refund_state" where
  "rs_emit es st = st\<lparr>rs_effects := rs_effects st @ es\<rparr>"

record refund_result =
  rx_order :: service_order
  rx_txid :: "string option"
  rx_finalizePinId :: "string option"

type_synonym 'a refund_run = "(refund_error + 'a) \<times> refund_state"

definition paysItself :: "refund_env \<Rightarrow> service_order \<Rightarrow> bool" where
  "paysItself env o1 =
     (case normalizeOptionalText (re_resolve env (so_localMetabotId o1)) of
        None \<Rightarrow> False | Some own \<Rightarrow> js_trim (so_counterparty o1) = own)"

definition requestMismatch :: "refund_env \<Rightarrow> service_order \<Rightarrow> json \<Rightarrow> refund_error option" where
  "requestMismatch env o1 p =
     (if text_of p ''paymentTxid'' \<noteq> so_paymentTxid o1 then Some RequestTxidMismatch
      else if differs (or_text (so_servicePinId o1)) p ''servicePinId'' then Some RequestServiceMismatch
      else if differs (so_counterparty o1) p ''buyerGlobalMetaId'' then Some RequestBuyerMismatch
      else if (case re_resolve env (so_localMetabotId o1) of
            None \<Rightarrow> False
          | Some own \<Rightarrow> own \<noteq> '''' \<and> js_truthy (jprop p ''sellerGlobalMetaId'') \<and> trimmed_of p ''sellerGlobalMetaId'' \<noteq> js_trim own)
        then Some RequestSellerMismatch
      else None)"

definition loadAndValidateRefundRequestPayload :: "refund_env \<Rightarrow> service_order \<Rightarrow> refund_error + json" where
  "loadAndValidateRefundRequestPayload env o1 =
     (case re_fetchRequest env (or_text (so_refundRequestPinId o1)) of
        None \<Rightarrow> Inl RequestUnreadable
      | Some content \<Rightarrow>
          (case parseRefundRequestPayload (re_parse env) content of
             None \<Rightarrow> Inl RequestInvalid
           | Some p \<Rightarrow> (case requestMismatch env o1 p of Some e \<Rightarrow> Inl e | None \<Rightarrow> Inr p)))"

definition resolveRefundAmount :: "service_order \<Rightarrow> json \<Rightarrow> string" where
  "resolveRefundAmount o1 p = or_reason (trimmed_of p ''refundAmount'') (so_paymentAmount o1)"

definition resolveRefundCurrency :: "service_order \<Rightarrow> json \<Rightarrow> string" where
  "resolveRefundCurrency o1 p = or_reason (trimmed_of p ''refundCurrency'') (so_paymentCurrency o1)"

definition record_all :: "string \<Rightarrow> int \<Rightarrow> service_order list \<Rightarrow> order_store \<Rightarrow> order_store" where
  "record_all txid now orders st = foldl (\<lambda>st o1. snd (recordRefundTransfer (so_id o1) txid now st)) st orders"

definition resolveRefundTxid :: "refund_env \<Rightarrow> service_order \<Rightarrow> refund_transfer \<Rightarrow> refund_state \<Rightarrow> string refund_run" where
  "resolveRefundTxid env o1 transfer st =
     (case js_trim (or_text (so_refundTxid o1)) of existing \<Rightarrow>
        if existing \<noteq> '''' then (Inr existing, st)
        else (case re_transfer env transfer of
                None \<Rightarrow> (Inl TransferFailed, st)
              | Some reply \<Rightarrow>
                  if tr_success reply = Some False then (Inl TransferFailed, st)
                  else (let st = rs_emit [RefundTransfer transfer] st; txid = js_trim (or_text (tr_txId reply)) in
                    if txid = '''' then (Inl NoTransferTxid, st)
                    else (Inr txid, st\<lparr>rs_store := record_all txid (re_now env)
                      (listOrdersByPaymentTxid (rs_store st) (so_paymentTxid o1)) (rs_store st)\<rparr>))))"

text \<open>All rows of the payment are marked, told to the listeners, and the seller's own row returned.\<close>

definition mark_each ::
  "(string \<Rightarrow> order_store \<Rightarrow> service_order option \<times> order_store) \<Rightarrow> service_order list \<Rightarrow> order_store \<Rightarrow>
   service_order list \<times> order_store" where
  "mark_each mark orders st = foldl
     (\<lambda>(done, st) o1. case mark (so_id o1) st of (None, st') \<Rightarrow> (done, st') | (Some o2, st') \<Rightarrow> (done @ [o2], st'))
     ([], st) orders"

definition finish_refund ::
  "service_order \<Rightarrow> service_order list \<Rightarrow> refund_state \<Rightarrow> refund_result refund_run" where
  "finish_refund o1 updated st =
     (let st = rs_emit (map (RefundEvent EvRefunded) updated) st in
      case coalesce (find (\<lambda>c. so_id c = so_id o1) updated) (getOrderById (rs_store st) (so_id o1)) of
        None \<Rightarrow> (Inl ReloadFailed, st)
      | Some seller \<Rightarrow> (Inr \<lparr>rx_order = seller, rx_txid = so_refundTxid seller,
          rx_finalizePinId = so_refundFinalizePinId seller\<rparr>, st))"

definition resolveNoTransferRefund :: "refund_env \<Rightarrow> service_order \<Rightarrow> string \<Rightarrow> refund_state \<Rightarrow> refund_result refund_run" where
  "resolveNoTransferRefund env o1 reason st =
     (case mark_each (\<lambda>oid. markRefundedLocally oid (re_now env) (Some reason))
         (listOrdersByPaymentTxid (rs_store st) (so_paymentTxid o1)) (rs_store st) of
        (updated, store) \<Rightarrow> finish_refund o1 updated (st\<lparr>rs_store := store\<rparr>))"

text \<open>Settled rows stay as they are and are told all the same.\<close>

definition resolveSelfDirectedRefund :: "refund_env \<Rightarrow> service_order \<Rightarrow> refund_state \<Rightarrow> refund_result refund_run" where
  "resolveSelfDirectedRefund env o1 st =
     (let rows = listOrdersByPaymentTxid (rs_store st) (so_paymentTxid o1) in
      case foldl (\<lambda>(done, s) c. if settled c then (done @ [c], s)
            else (case markRefundedLocally (so_id c) (re_now env) (Some SELF_ORDER_REASON) s of
                    (None, s') \<Rightarrow> (done, s') | (Some c', s') \<Rightarrow> (done @ [c'], s')))
          ([], rs_store st) rows of
        (updated, store) \<Rightarrow> finish_refund o1 updated (st\<lparr>rs_store := store\<rparr>))"

definition finalizeRefund ::
  "refund_env \<Rightarrow> service_order \<Rightarrow> string \<Rightarrow> refund_state \<Rightarrow> refund_result refund_run" where
  "finalizeRefund env o1 refundTxid st =
     (case re_finalizePin env o1 refundTxid of
        None \<Rightarrow> (Inl FinalizeFailed, st)
      | Some ids \<Rightarrow>
          (let st = rs_emit [RefundFinalizePin o1 refundTxid] st;
               pin = js_trim (if given (pi_pin ids) then or_text (pi_pin ids) else or_text (pi_txid ids)) in
           if pin = '''' then (Inl NoFinalizePin, st)
           else (case mark_each (\<lambda>oid. markRefunded oid refundTxid pin (re_now env))
                   (listOrdersByPaymentTxid (rs_store st) (so_paymentTxid o1)) (rs_store st) of
                   (updated, store) \<Rightarrow>
                     (case finish_refund o1 updated (st\<lparr>rs_store := store\<rparr>) of
                        (Inl e, st) \<Rightarrow> (Inl e, st)
                      | (Inr res, st) \<Rightarrow> (Inr (res\<lparr>rx_txid := Some refundTxid, rx_finalizePinId := Some pin\<rparr>), st)))))"

definition sellerRefusal :: "service_order \<Rightarrow> refund_error option" where
  "sellerRefusal o1 =
     (if so_role o1 \<noteq> Seller then Some NotSeller
      else if so_status o1 = OsRefunded then Some AlreadyRefunded
      else if so_status o1 \<noteq> OsRefundPending \<or> \<not> given (so_refundRequestPinId o1) then Some NoPendingRequest
      else None)"

definition payRefund :: "refund_env \<Rightarrow> service_order \<Rightarrow> json \<Rightarrow> refund_state \<Rightarrow> refund_result refund_run" where
  "payRefund env o1 p st =
     (let amount = resolveRefundAmount o1 p; currency = resolveRefundCurrency o1 p;
          address = trimmed_of p ''refundToAddress'' in
      if isZeroAmount amount then resolveNoTransferRefund env o1 FREE_REFUND_REASON st
      else if address = '''' then (Inl NoRefundAddress, st)
      else (case resolveRefundTxid env o1
              \<lparr>rt_orderId = so_id o1, rt_address = address, rt_amount = amount, rt_currency = currency\<rparr> st of
              (Inl e, st) \<Rightarrow> (Inl e, st)
            | (Inr txid, st) \<Rightarrow> finalizeRefund env o1 txid st))"

definition processSellerRefundForOrderId :: "refund_env \<Rightarrow> string \<Rightarrow> refund_state \<Rightarrow> refund_result refund_run" where
  "processSellerRefundForOrderId env orderId st =
     (case getOrderById (rs_store st) orderId of
        None \<Rightarrow> (Inl RefundOrderMissing, st)
      | Some o1 \<Rightarrow>
          (case sellerRefusal o1 of
             Some e \<Rightarrow> (Inl e, st)
           | None \<Rightarrow>
               if paysItself env o1 then resolveSelfDirectedRefund env o1 st
               else (case loadAndValidateRefundRequestPayload env o1 of
                       Inl e \<Rightarrow> (Inl e, st)
                     | Inr p \<Rightarrow> payRefund env o1 p st)))"

definition processSellerRefundForSession :: "refund_env \<Rightarrow> string \<Rightarrow> refund_state \<Rightarrow> refund_result refund_run" where
  "processSellerRefundForSession env sid st =
     (case findLatestOrderBySessionId (rs_store st) sid of
        None \<Rightarrow> (Inl RefundOrderMissing, st)
      | Some o1 \<Rightarrow> processSellerRefundForOrderId env (so_id o1) st)"

section \<open>Refund requests from the chain\<close>

record refund_pin =
  rp_pinId :: string
  rp_content :: json
  rp_timestampMs :: "int option"

record sync_env =
  se_now :: int
  se_parse :: "string \<Rightarrow> json option"
  se_newId :: "string \<Rightarrow> string" \<comment> \<open>the id given to an order made up for a request pin\<close>
  se_resolve :: "int \<Rightarrow> string option"
  se_botByGlobalMetaId :: "string \<Rightarrow> int option"
  se_botByServicePin :: "string \<Rightarrow> int option"
  se_verifyTransfer :: "service_order \<Rightarrow> json \<Rightarrow> bool"
  se_verifyMrc20 :: "service_order \<Rightarrow> json \<Rightarrow> bool \<times> string"

definition local_id :: "sync_env \<Rightarrow> service_order \<Rightarrow> string" where
  "local_id env o1 = js_trim (or_text (se_resolve env (so_localMetabotId o1)))"

definition matchesRefundRequestPayload :: "sync_env \<Rightarrow> service_order \<Rightarrow> json \<Rightarrow> bool" where
  "matchesRefundRequestPayload env o1 p \<longleftrightarrow>
     text_of p ''paymentTxid'' = so_paymentTxid o1 \<and>
     \<not> (given (so_servicePinId o1) \<and> js_truthy (jprop p ''servicePinId'') \<and>
        text_of p ''servicePinId'' \<noteq> or_text (so_servicePinId o1)) \<and>
     (case so_role o1 of
        Buyer \<Rightarrow> \<not> differs (so_counterparty o1) p ''sellerGlobalMetaId'' \<and> \<not> differs (local_id env o1) p ''buyerGlobalMetaId''
      | Seller \<Rightarrow> \<not> differs (so_counterparty o1) p ''buyerGlobalMetaId'' \<and> \<not> differs (local_id env o1) p ''sellerGlobalMetaId'')"

definition shouldApplyRefundRequest :: "service_order \<Rightarrow> string \<Rightarrow> bool" where
  "shouldApplyRefundRequest o1 pinId \<longleftrightarrow>
     \<not> settled o1 \<and> \<not> served o1 \<and> so_refundRequestPinId o1 \<noteq> Some pinId \<and>
     \<not> (so_status o1 = OsRefundPending \<and> given (so_refundRequestPinId o1))"

definition fallback_score :: "sync_env \<Rightarrow> json \<Rightarrow> service_order \<Rightarrow> int" where
  "fallback_score env p o1 =
     (let service = trimmed_of p ''servicePinId''; buyer = trimmed_of p ''buyerGlobalMetaId'';
          seller = trimmed_of p ''sellerGlobalMetaId'' in
      (if service \<noteq> '''' \<and> so_servicePinId o1 = Some service then 4 else 0) +
      (if buyer \<noteq> '''' \<and> so_counterparty o1 = buyer then 2 else 0) +
      (if seller \<noteq> '''' \<and> local_id env o1 = seller then 2 else 0))"

definition selectFallbackSellerOrderForRefundRequest ::
  "sync_env \<Rightarrow> service_order list \<Rightarrow> json \<Rightarrow> string \<Rightarrow> service_order option" where
  "selectFallbackSellerOrderForRefundRequest env orders p pinId =
     (case sort_key (\<lambda>o1. (- fallback_score env p o1, - so_updatedAt o1))
         (filter (\<lambda>o1. so_role o1 = Seller \<and> shouldApplyRefundRequest o1 pinId) orders) of
        [] \<Rightarrow> None
      | [o1] \<Rightarrow> Some o1
      | best # second # _ \<Rightarrow>
          if fallback_score env p best = 0 \<or> fallback_score env p second = fallback_score env p best then None
          else Some best)"

definition epoch_ms :: "rat \<Rightarrow> int" where
  "epoch_ms q = (if q \<ge> 1000000000000 then \<lfloor>q\<rfloor> else \<lfloor>q * 1000\<rfloor>)"

definition resolveFailureDetectedAt :: "json \<Rightarrow> int option" where
  "resolveFailureDetectedAt p =
     (case jprop p ''failureDetectedAt'' of
        Some (JNum q) \<Rightarrow> Some (epoch_ms q)
      | Some (JStr s) \<Rightarrow> if js_trim s = '''' then None else map_option epoch_ms (js_number (Some (JStr s)))
      | _ \<Rightarrow> None)"

definition resolveRefundRequestedAt :: "sync_env \<Rightarrow> int option \<Rightarrow> json \<Rightarrow> int" where
  "resolveRefundRequestedAt env timestampMs p =
     (case coalesce timestampMs (resolveFailureDetectedAt p) of None \<Rightarrow> se_now env | Some t \<Rightarrow> t)"

definition resolveFailureReason :: "json \<Rightarrow> string" where
  "resolveFailureReason p = or_reason (trimmed_of p ''failureReason'') ''delivery_timeout''"

definition ends_with :: "string \<Rightarrow> string \<Rightarrow> bool" where
  "ends_with suffix s \<longleftrightarrow> length suffix \<le> length s \<and> drop (length s - length suffix) s = suffix"

definition resolvePaymentChainFromRefundPayload :: "json \<Rightarrow> string" where
  "resolvePaymentChainFromRefundPayload p =
     (let explicit = js_lower (trimmed_of p ''paymentChain'');
          kind = js_lower (trimmed_of p ''settlementKind'');
          currency = js_upper (trimmed_of p ''refundCurrency'') in
      if explicit \<in> set payment_chains then explicit
      else if kind = ''mrc20'' \<or> ends_with MRC20_SUFFIX currency then ''btc''
      else if currency = ''BTC'' then ''btc''
      else if currency = ''DOGE'' then ''doge''
      else ''mvc'')"

definition resolveLocalMetabotIdForRefundRequest :: "sync_env \<Rightarrow> string \<Rightarrow> string option \<Rightarrow> int option" where
  "resolveLocalMetabotIdForRefundRequest env seller servicePinId =
     coalesce (se_botByGlobalMetaId env seller)
       (case servicePinId of None \<Rightarrow> None | Some pin \<Rightarrow> se_botByServicePin env pin)"

definition text_opt :: "json \<Rightarrow> string \<Rightarrow> string option" where
  "text_opt p k = (if trimmed_of p k = '''' then None else Some (trimmed_of p k))"

definition synthesized_input :: "sync_env \<Rightarrow> json \<Rightarrow> int \<Rightarrow> order_input" where
  "synthesized_input env p mb =
     \<lparr>oi_role = Seller, oi_localMetabotId = mb, oi_counterparty = trimmed_of p ''buyerGlobalMetaId'',
      oi_servicePinId = text_opt p ''servicePinId'', oi_orderPinId = None,
      oi_serviceName = or_reason (trimmed_of p ''serviceName'') ''Service Order'',
      oi_paymentTxid = Some (trimmed_of p ''paymentTxid''),
      oi_paymentChain = Some (resolvePaymentChainFromRefundPayload p),
      oi_paymentAmount = or_reason (trimmed_of p ''refundAmount'') ''0'',
      oi_paymentCurrency = text_opt p ''refundCurrency'', oi_settlementKind = text_opt p ''settlementKind'',
      oi_mrc20Ticker = text_opt p ''mrc20Ticker'', oi_mrc20Id = text_opt p ''mrc20Id'',
      oi_paymentCommitTxid = text_opt p ''paymentCommitTxid'', oi_orderMessagePinId = text_opt p ''orderMessagePinId'',
      oi_orderMessageTxid = None, oi_coworkSessionId = None, oi_status = Some OsFailed,
      oi_now = resolveRefundRequestedAt env None p\<rparr>"

definition synthesizeSellerOrderForRefundRequest ::
  "sync_env \<Rightarrow> string \<Rightarrow> json \<Rightarrow> order_store \<Rightarrow> order_error + service_order option \<times> order_store" where
  "synthesizeSellerOrderForRefundRequest env newId p st =
     (if trimmed_of p ''sellerGlobalMetaId'' = '''' \<or> trimmed_of p ''buyerGlobalMetaId'' = '''' \<or>
         trimmed_of p ''paymentTxid'' = '''' then Inr (None, st)
      else (case resolveLocalMetabotIdForRefundRequest env (trimmed_of p ''sellerGlobalMetaId'') (text_opt p ''servicePinId'') of
              None \<Rightarrow> Inr (None, st)
            | Some mb \<Rightarrow> (case createOrder newId (synthesized_input env p mb) st of
                Inl e \<Rightarrow> Inl e
              | Inr (o1, st') \<Rightarrow> Inr (Some o1, st'))))"

definition matchingOrders ::
  "sync_env \<Rightarrow> refund_pin \<Rightarrow> json \<Rightarrow> order_store \<Rightarrow> order_error + service_order list \<times> order_store" where
  "matchingOrders env pin p st =
     (let byTxid = listOrdersByPaymentTxid st (text_of p ''paymentTxid'') in
      case filter (\<lambda>o1. shouldApplyRefundRequest o1 (rp_pinId pin)) (filter (\<lambda>o1. matchesRefundRequestPayload env o1 p) byTxid) of
        o1 # os \<Rightarrow> Inr (o1 # os, st)
      | [] \<Rightarrow>
          (case selectFallbackSellerOrderForRefundRequest env byTxid p (rp_pinId pin) of
             Some o1 \<Rightarrow> Inr ([o1], st)
           | None \<Rightarrow>
               (case synthesizeSellerOrderForRefundRequest env (se_newId env (rp_pinId pin)) p st of
                  Inl e \<Rightarrow> Inl e
                | Inr (None, st) \<Rightarrow> Inr ([], st)
                | Inr (Some o1, st) \<Rightarrow> Inr (if shouldApplyRefundRequest o1 (rp_pinId pin) then [o1] else [], st))))"

definition apply_request ::
  "string \<Rightarrow> int \<Rightarrow> string \<Rightarrow> int \<Rightarrow> string \<Rightarrow> order_store \<Rightarrow> service_order option \<times> order_store" where
  "apply_request reason failedAt pinId requestedAt oid st =
     markRefundPending oid (Some pinId) requestedAt (snd (markFailed oid reason failedAt st))"

definition sync_request :: "sync_env \<Rightarrow> refund_pin \<Rightarrow> refund_state \<Rightarrow> order_error + refund_state" where
  "sync_request env pin st =
     (case parseRefundRequestPayload (se_parse env) (rp_content pin) of
        None \<Rightarrow> Inr st
      | Some p \<Rightarrow>
          (case matchingOrders env pin p (rs_store st) of
             Inl e \<Rightarrow> Inl e
           | Inr (orders, store) \<Rightarrow>
               (let requestedAt = resolveRefundRequestedAt env (rp_timestampMs pin) p;
                    failedAt = (case resolveFailureDetectedAt p of None \<Rightarrow> requestedAt | Some t \<Rightarrow> t) in
                case mark_each (apply_request (resolveFailureReason p) failedAt (rp_pinId pin) requestedAt) orders store of
                  (updated, store) \<Rightarrow>
                    Inr (rs_emit (map (RefundEvent EvRefundRequested) updated) (st\<lparr>rs_store := store\<rparr>)))))"

text \<open>An exception ends the loop: the error, and the state the pins before it left.\<close>

fun syncRequestPins :: "sync_env \<Rightarrow> refund_pin list \<Rightarrow> refund_state \<Rightarrow> order_error option \<times> refund_state" where
  "syncRequestPins env [] st = (None, st)"
| "syncRequestPins env (pin # pins) st =
     (case sync_request env pin st of Inl e \<Rightarrow> (Some e, st) | Inr st \<Rightarrow> syncRequestPins env pins st)"

section \<open>Refund proofs from the chain\<close>

definition shouldUseMrc20Verifier :: "service_order \<Rightarrow> json \<Rightarrow> bool" where
  "shouldUseMrc20Verifier o1 p \<longleftrightarrow>
     ends_with MRC20_SUFFIX (js_upper (js_trim (case jprop p ''refundCurrency'' of
        None \<Rightarrow> '''' | Some JNull \<Rightarrow> '''' | Some j \<Rightarrow> js_string j))) \<or>
     so_settlementKind o1 = Mrc20"

definition starts_with :: "string \<Rightarrow> string \<Rightarrow> bool" where
  "starts_with p s \<longleftrightarrow> take (length p) s = p"

definition isMrc20TransientVerificationReason :: "string \<Rightarrow> bool" where
  "isMrc20TransientVerificationReason reason \<longleftrightarrow>
     starts_with ''fetch_token_info_failed:'' (js_trim reason) \<or> starts_with ''fetch_token_utxos_failed:'' (js_trim reason) \<or>
     js_trim reason = ''recipient_txid_not_observable''"

definition refundVerified :: "sync_env \<Rightarrow> service_order \<Rightarrow> json \<Rightarrow> bool" where
  "refundVerified env o1 p =
     (if shouldUseMrc20Verifier o1 p
      then (case se_verifyMrc20 env o1 p of (valid, reason) \<Rightarrow> valid \<or> isMrc20TransientVerificationReason reason)
      else se_verifyTransfer env o1 p)"

definition payload_text :: "json \<Rightarrow> string \<Rightarrow> string" where
  "payload_text p k = asStr (jprop p k) ''''"

definition sync_finalize :: "sync_env \<Rightarrow> refund_state \<Rightarrow> refund_pin \<Rightarrow> refund_state" where
  "sync_finalize env st pin =
     (case parseRefundFinalizePayload (se_parse env) (rp_content pin) of
        None \<Rightarrow> st
      | Some p \<Rightarrow>
          (case listByRefundRequestPinId (rs_store st) (payload_text p ''refundRequestPinId'') of
             [] \<Rightarrow> st
           | o1 # os \<Rightarrow>
               (let v = (case find (\<lambda>c. so_role c = Buyer) (o1 # os) of Some b \<Rightarrow> b | None \<Rightarrow> o1) in
                if so_status v = OsRefunded \<or> so_refundFinalizePinId v = Some (rp_pinId pin) \<or>
                   payload_text p ''paymentTxid'' \<noteq> so_paymentTxid v \<or>
                   (given (so_servicePinId v) \<and> js_truthy (jprop p ''servicePinId'') \<and>
                    jprop p ''servicePinId'' \<noteq> Some (JStr (or_text (so_servicePinId v)))) \<or>
                   \<not> refundVerified env v p
                then st
                else (case mark_each (\<lambda>oid. markRefunded oid (payload_text p ''refundTxid'') (rp_pinId pin) (se_now env))
                        (o1 # os) (rs_store st) of
                        (updated, store) \<Rightarrow> rs_emit (map (RefundEvent EvRefunded) updated) (st\<lparr>rs_store := store\<rparr>)))))"

definition syncFinalizePins :: "sync_env \<Rightarrow> refund_pin list \<Rightarrow> refund_state \<Rightarrow> refund_state" where
  "syncFinalizePins env pins st = foldl (sync_finalize env) st pins"

section \<open>Providers with an open refund\<close>

record risk_summary =
  ry_provider :: string
  ry_ageHours :: int
  ry_hidden :: bool

definition resolveProviderGlobalMetaId :: "sync_env \<Rightarrow> service_order \<Rightarrow> string option" where
  "resolveProviderGlobalMetaId env o1 =
     (case so_role o1 of
        Buyer \<Rightarrow> if so_counterparty o1 = '''' then None else Some (so_counterparty o1)
      | Seller \<Rightarrow> normalizeOptionalText (se_resolve env (so_localMetabotId o1)))"

definition note_oldest :: "sync_env \<Rightarrow> (string, int) jsmap \<Rightarrow> service_order \<Rightarrow> (string, int) jsmap" where
  "note_oldest env m o1 =
     (case (so_refundCompletedAt o1, so_refundRequestedAt o1, resolveProviderGlobalMetaId env o1) of
        (None, Some t, Some provider) \<Rightarrow>
          (case jget m provider of
             None \<Rightarrow> jset provider t m
           | Some existing \<Rightarrow> if t < existing then jset provider t m else m)
      | _ \<Rightarrow> m)"

text \<open>In the order of the map; the final sort by \<open>localeCompare\<close> is left out.\<close>

definition listProviderRefundRiskSummaries :: "sync_env \<Rightarrow> order_store \<Rightarrow> risk_summary list" where
  "listProviderRefundRiskSummaries env st =
     map (\<lambda>(provider, oldest). \<lparr>ry_provider = provider, ry_ageHours = max 0 ((se_now env - oldest) div (60 * 60000)),
        ry_hidden = shouldHideProviderForUnresolvedRefund (Some oldest) None (se_now env)\<rparr>)
       (foldl (note_oldest env) [] (listOrdersByStatuses st Buyer [OsRefundPending] @ listOrdersByStatuses st Seller [OsRefundPending]))"

end
