(* ===== verification/OrderFacts.thy ===== *)
theory OrderFacts
  imports OrderRefund
begin

text \<open>
  Facts about the order table. \<open>row_le\<close> is what any operation may do to a row (its status moves
  forward, its parties, keys and deadlines stay), \<open>store_le\<close> lifts it to the table; both are
  preorders, so that a service method is in them as soon as its writes are. \<open>store_ok\<close> is the
  table's invariant.
\<close>

named_theorems orders \<open>what the operations on the order table do to rows and table\<close>

section \<open>How a row may change\<close>

fun later :: "order_status \<Rightarrow> order_status list" where
  "later OsAwaitingFirstResponse =
     [OsAwaitingFirstResponse, OsInProgress, OsRatingPending, OsCompleted, OsFailed, OsRefundPending, OsRefunded]"
| "later OsInProgress = [OsInProgress, OsRatingPending, OsCompleted, OsFailed, OsRefundPending, OsRefunded]"
| "later OsRatingPending = [OsRatingPending, OsCompleted, OsFailed, OsRefundPending, OsRefunded]"
| "later OsCompleted = [OsCompleted, OsRefunded]"
| "later OsFailed = [OsFailed, OsRefundPending, OsRefunded]"
| "later OsRefundPending = [OsRefundPending, OsRefunded]"
| "later OsRefunded = [OsRefunded]"

lemma later_refl [simp]: "s \<in> set (later s)" by (cases s) auto

lemma later_trans: "t \<in> set (later s) \<Longrightarrow> u \<in> set (later t) \<Longrightarrow> u \<in> set (later s)"
  by (cases s) auto

definition same_terms :: "service_order \<Rightarrow> service_order \<Rightarrow> bool" where
  "same_terms a b \<longleftrightarrow> so_id b = so_id a \<and> so_role b = so_role a \<and> so_localMetabotId b = so_localMetabotId a \<and>
     so_counterparty b = so_counterparty a \<and> so_paymentTxid b = so_paymentTxid a \<and> so_orderPinId b = so_orderPinId a \<and>
     so_firstResponseDeadlineAt b = so_firstResponseDeadlineAt a \<and> so_deliveryDeadlineAt b = so_deliveryDeadlineAt a \<and>
     so_createdAt b = so_createdAt a"

definition paid_back :: "service_order \<Rightarrow> bool" where
  "paid_back o1 \<longleftrightarrow> js_trim (or_text (so_refundTxid o1)) \<noteq> '''' \<or> so_status o1 = OsRefunded"

definition delivered :: "service_order \<Rightarrow> bool" where
  "delivered o1 \<longleftrightarrow> given (so_deliveryMessagePinId o1) \<or> time_given (so_deliveredAt o1)"

text \<open>What the stamps of a row say about its status.\<close>

definition order_ok :: "service_order \<Rightarrow> bool" where
  "order_ok o1 \<longleftrightarrow>
     (so_status o1 \<in> {OsAwaitingFirstResponse, OsInProgress} \<longrightarrow> \<not> served o1) \<and>
     (delivered o1 \<longrightarrow> so_status o1 \<in> {OsRatingPending, OsCompleted, OsRefunded}) \<and>
     so_firstResponseDeadlineAt o1 \<le> so_deliveryDeadlineAt o1 \<and>
     (so_status o1 = OsInProgress \<longrightarrow> so_firstResponseAt o1 \<noteq> None) \<and>
     (so_status o1 = OsCompleted \<longrightarrow> so_orderEndedAt o1 \<noteq> None) \<and>
     (so_status o1 = OsRefundPending \<longrightarrow> so_refundRequestedAt o1 \<noteq> None) \<and>
     (so_status o1 = OsRefunded \<longleftrightarrow> so_refundCompletedAt o1 \<noteq> None) \<and>
     (given (so_refundTxid o1) \<longrightarrow> paid_back o1) \<and>
     currency_admitted (so_settlementKind o1) (so_paymentChain o1) (so_mrc20Ticker o1) (so_mrc20Id o1) (so_paymentCurrency o1)"

definition row_le :: "service_order \<Rightarrow> service_order \<Rightarrow> bool" where
  "row_le a b \<longleftrightarrow> same_terms a b \<and> so_status b \<in> set (later (so_status a)) \<and>
     (paid_back a \<longrightarrow> paid_back b) \<and> (order_ok a \<longrightarrow> order_ok b)"

lemma row_le_refl [simp]: "row_le a a" by (simp add: row_le_def same_terms_def)

lemma row_le_trans: "row_le a b \<Longrightarrow> row_le b c \<Longrightarrow> row_le a c"
  unfolding row_le_def same_terms_def using later_trans by auto

lemma coalesce_simps [simp]:
  "coalesce None b = b" "coalesce (Some x) b = Some x" "coalesce a b = None \<longleftrightarrow> a = None \<and> b = None"
  "given (Some s) \<longleftrightarrow> s \<noteq> ''''" "\<not> given None" "\<not> time_given None"
  by (simp_all add: coalesce_def given_def time_given_def split: option.splits)

lemma not_given_blank [simp]: "\<not> given t \<Longrightarrow> js_trim (or_text t) = ''''"
  by (auto simp: given_def or_text_def js_trim_def split: option.splits)

section \<open>How the table may change\<close>

definition store_le :: "order_store \<Rightarrow> order_store \<Rightarrow> bool" where
  "store_le st st' \<longleftrightarrow> os_revision st \<le> os_revision st' \<and>
     (os_revision st = os_revision st' \<longrightarrow> st' = st) \<and>
     (\<forall>oid o1. getOrderById st oid = Some o1 \<longrightarrow> (\<exists>o2. getOrderById st' oid = Some o2 \<and> row_le o1 o2))"

lemma store_le_refl [simp]: "store_le st st" by (auto simp: store_le_def)

lemma store_leI:
  assumes "os_revision st \<le> os_revision st'" "os_revision st = os_revision st' \<Longrightarrow> st' = st"
    "\<And>oid o1. getOrderById st oid = Some o1 \<Longrightarrow> \<exists>o2. getOrderById st' oid = Some o2 \<and> row_le o1 o2"
  shows "store_le st st'"
  using assms by (simp add: store_le_def)

lemma store_leD: "store_le st st' \<Longrightarrow> getOrderById st oid = Some o1 \<Longrightarrow> \<exists>o2. getOrderById st' oid = Some o2 \<and> row_le o1 o2"
  by (auto simp: store_le_def)

lemma store_le_rev: "store_le st st' \<Longrightarrow> os_revision st \<le> os_revision st'"
  by (simp add: store_le_def)

lemma store_le_same: "store_le st st' \<Longrightarrow> os_revision st = os_revision st' \<Longrightarrow> st' = st"
  by (simp add: store_le_def)

lemma store_le_trans:
  assumes "store_le a b" "store_le b c"
  shows "store_le a c"
proof (rule store_leI)
  show "os_revision a \<le> os_revision c" using store_le_rev [OF assms(1)] store_le_rev [OF assms(2)] by simp
next
  assume "os_revision a = os_revision c"
  then have "os_revision a = os_revision b" "os_revision b = os_revision c"
    using store_le_rev [OF assms(1)] store_le_rev [OF assms(2)] by simp_all
  then show "c = a" using store_le_same [OF assms(1)] store_le_same [OF assms(2)] by simp
next
  fix oid o1 assume "getOrderById a oid = Some o1"
  from store_leD [OF assms(1) this] obtain o2 where o2: "getOrderById b oid = Some o2" "row_le o1 o2" by blast
  from store_leD [OF assms(2) o2(1)] show "\<exists>o3. getOrderById c oid = Some o3 \<and> row_le o1 o3"
    using row_le_trans [OF o2(2)] by blast
qed

lemma update_order_get:
  "getOrderById (snd (update_order oid skip f st)) k =
     (if k = oid then map_option (\<lambda>o1. if skip o1 then o1 else f o1) (getOrderById st oid) else getOrderById st k)"
  by (simp add: update_order_def saveDb_def getOrderById_def split: option.splits)

lemma update_order_moves:
  "snd (update_order oid skip f st) = st \<or> os_revision (snd (update_order oid skip f st)) = os_revision st + 1"
  by (cases "getOrderById st oid") (simp_all add: update_order_def saveDb_def)

lemma update_order_le:
  assumes "\<And>o1. \<not> skip o1 \<Longrightarrow> row_le o1 (f o1)"
  shows "store_le st (snd (update_order oid skip f st))"
proof (rule store_leI)
  show "os_revision st \<le> os_revision (snd (update_order oid skip f st))"
    by (simp add: update_order_def saveDb_def split: option.splits)
  show "snd (update_order oid skip f st) = st" if "os_revision st = os_revision (snd (update_order oid skip f st))"
  proof -
    show ?thesis using update_order_moves [of oid skip f st] that by auto
  qed
  fix k o1 assume "getOrderById st k = Some o1"
  then show "\<exists>o2. getOrderById (snd (update_order oid skip f st)) k = Some o2 \<and> row_le o1 o2"
    using assms [of o1] by (cases "k = oid"; cases "skip o1") (simp_all add: update_order_get)
qed

section \<open>Creating\<close>

lemma find_keyed:
  assumes "find P (map snd m) = Some x"
  shows "x \<in> snd ` set m \<and> P x"
  using assms by (induction m) (auto split: if_splits)

lemma createOrder_cases:
  assumes "createOrder newId input st = Inr (o1, st')"
  obtains (old) "existing_order st input = Some o1" "st' = st"
  | (fresh) settlement where "resolveStructuredSettlement input = Inr settlement" "existing_order st input = None"
      "o1 = new_order newId input settlement" "\<not> unique_violation st o1"
      "currency_admitted (so_settlementKind o1) (so_paymentChain o1) (so_mrc20Ticker o1) (so_mrc20Id o1) (so_paymentCurrency o1)"
      "st' = saveDb (st\<lparr>os_orders := os_orders st @ [(so_id o1, o1)]\<rparr>)"
proof (cases "resolveStructuredSettlement input")
  case (Inl e)
  then show ?thesis using assms by (simp add: createOrder_def)
next
  case (Inr settlement)
  show ?thesis
  proof (cases "existing_order st input")
    case (Some x)
    then have "x = o1" "st' = st" using assms Inr by (simp_all add: createOrder_def)
    then show ?thesis using Some by (intro old) simp_all
  next
    case None
    let ?o = "new_order newId input settlement"
    show ?thesis
    proof (cases "insert_order st ?o")
      case (Some s1)
      then have "o1 = ?o" "st' = saveDb s1" using assms Inr None by (simp_all add: createOrder_def)
      moreover have "\<not> unique_violation st ?o" "s1 = st\<lparr>os_orders := os_orders st @ [(so_id ?o, ?o)]\<rparr>"
        "currency_admitted (so_settlementKind ?o) (so_paymentChain ?o) (so_mrc20Ticker ?o) (so_mrc20Id ?o) (so_paymentCurrency ?o)"
        using Some unfolding insert_order_def by (simp_all only: if_splits option.inject option.distinct de_Morgan_disj simp_thms split: if_splits)
      ultimately show ?thesis using fresh [OF Inr None] by blast
    next
      case N2: None
      then show ?thesis using assms Inr None by (simp add: createOrder_def)
    qed
  qed
qed

lemma createOrder_le:
  assumes "createOrder newId input st = Inr (o1, st')"
  shows "store_le st st'"
  using assms
proof (cases rule: createOrder_cases)
  case (fresh settlement)
  show ?thesis
  proof (rule store_leI)
    show "os_revision st \<le> os_revision st'" by (simp add: fresh(6) saveDb_def)
    show "st' = st" if "os_revision st = os_revision st'" using that by (simp add: fresh(6) saveDb_def)
    fix k x assume "getOrderById st k = Some x"
    then show "\<exists>y. getOrderById st' k = Some y \<and> row_le x y"
      by (simp add: fresh(6) saveDb_def getOrderById_def)
  qed
qed simp

section \<open>Steps\<close>

text \<open>One write to the table: an update of a row, or an insert. Every method of the services is a
  sequence of such steps.\<close>

inductive row_step :: "order_store \<Rightarrow> order_store \<Rightarrow> bool" where
  touch: "(\<And>o1. \<not> skip o1 \<Longrightarrow> row_le o1 (f o1)) \<Longrightarrow> row_step st (snd (update_order oid skip f st))"

inductive table_step :: "order_store \<Rightarrow> order_store \<Rightarrow> bool" where
  update: "row_step st st' \<Longrightarrow> table_step st st'"
| create: "createOrder newId input st = Inr (o1, st') \<Longrightarrow>
    oi_status input \<in> {None, Some OsAwaitingFirstResponse, Some OsFailed} \<Longrightarrow> table_step st st'"

abbreviation row_steps :: "order_store \<Rightarrow> order_store \<Rightarrow> bool" where
  "row_steps \<equiv> row_step\<^sup>*\<^sup>*"

abbreviation order_steps :: "order_store \<Rightarrow> order_store \<Rightarrow> bool" where
  "order_steps \<equiv> table_step\<^sup>*\<^sup>*"

lemma row_steps_order: "row_steps st st' \<Longrightarrow> order_steps st st'"
  by (induction rule: rtranclp_induct) (auto intro: table_step.update rtranclp.rtrancl_into_rtrancl)

lemma touches: "(\<And>o1. \<not> skip o1 \<Longrightarrow> row_le o1 (f o1)) \<Longrightarrow> row_steps st (snd (update_order oid skip f st))"
  by (rule r_into_rtranclp) (rule touch)

lemma foldl_steps:
  assumes "\<And>acc x. R\<^sup>*\<^sup>* (sel acc) (sel (g acc x))"
  shows "R\<^sup>*\<^sup>* (sel acc) (sel (foldl g acc xs))"
proof (induction xs arbitrary: acc)
  case (Cons x xs)
  show ?case using rtranclp_trans [OF assms Cons.IH] by simp
qed simp

lemma row_step_le: "row_step st st' \<Longrightarrow> store_le st st'"
  by (induction rule: row_step.induct) (rule update_order_le)

lemma steps_le: "order_steps st st' \<Longrightarrow> store_le st st'"
proof (induction rule: rtranclp_induct)
  case (step a b)
  from step.hyps(2) have "store_le a b" by cases (auto intro: row_step_le createOrder_le)
  then show ?case using step.IH store_le_trans by blast
qed simp

text \<open>Updates make no rows.\<close>

lemma row_steps_origin: "row_steps st st' \<Longrightarrow> getOrderById st' k = Some b \<Longrightarrow> \<exists>a. getOrderById st k = Some a \<and> row_le a b"
proof (induction arbitrary: b rule: rtranclp_induct)
  case (step s t)
  from step.hyps(2) step.prems obtain a where "getOrderById s k = Some a" "row_le a b"
    by cases (auto simp: update_order_get split: if_splits)
  then show ?case using step.IH row_le_trans by blast
qed auto

section \<open>The operations\<close>

text \<open>What a row update has to respect.\<close>

lemma row_leI:
  assumes "same_terms a b" "so_status b \<in> set (later (so_status a))" "paid_back a \<Longrightarrow> paid_back b"
    "order_ok a \<Longrightarrow> order_ok b"
  shows "row_le a b"
  using assms by (simp add: row_le_def)

lemmas row_defs = same_terms_def paid_back_def order_ok_def delivered_def served_def

lemma markFirstResponseReceived_steps [orders]: "row_steps st (snd (markFirstResponseReceived oid t st))"
  unfolding markFirstResponseReceived_def
  by (rule touches, rename_tac o1, case_tac "so_status o1"; simp add: row_le_def row_defs)

lemma markDelivered_steps [orders]: "row_steps st (snd (markDelivered oid pin t st))"
  unfolding markDelivered_def
  by (rule touches, rename_tac o1, case_tac "so_status o1"; simp add: row_le_def row_defs)

lemma markRatingRequested_steps [orders]: "row_steps st (snd (markRatingRequested oid t st))"
  unfolding markRatingRequested_def
  by (rule touches, rename_tac o1, case_tac "so_status o1"; simp add: row_le_def row_defs)

lemma markOrderEnded_steps [orders]: "row_steps st (snd (markOrderEnded oid r pin t st))"
  unfolding markOrderEnded_def
  by (rule touches, rename_tac o1, case_tac "so_status o1"; simp add: row_le_def row_defs)

lemma markFailed_steps [orders]: "row_steps st (snd (markFailed oid rs t st))"
  unfolding markFailed_def
  by (rule touches, rename_tac o1, case_tac "so_status o1"; simp add: row_le_def row_defs)

lemma markRefundPending_steps [orders]: "row_steps st (snd (markRefundPending oid pin t st))"
  unfolding markRefundPending_def
  by (rule touches, rename_tac o1, case_tac "so_status o1"; simp add: row_le_def row_defs)

lemma markRefundRequestRetry_steps [orders]: "row_steps st (snd (markRefundRequestRetry oid t u st))"
  unfolding markRefundRequestRetry_def
  by (rule touches, rename_tac o1, case_tac "so_status o1"; simp add: row_le_def row_defs)

lemma markRefunded_steps [orders]: "row_steps st (snd (markRefunded oid txid fpin t st))"
  unfolding markRefunded_def
  by (rule touches, rename_tac o1, case_tac "so_status o1"; simp add: row_le_def row_defs)

lemma markRefundedLocally_steps [orders]: "row_steps st (snd (markRefundedLocally oid t r st))"
  unfolding markRefundedLocally_def
  by (rule touches, rename_tac o1, case_tac "so_status o1"; simp add: row_le_def row_defs)

lemma setCoworkSessionId_steps [orders]: "row_steps st (snd (setCoworkSessionId oid sid t st))"
  unfolding setCoworkSessionId_def
  by (rule touches, rename_tac o1, case_tac "so_status o1"; simp add: row_le_def row_defs)

lemma recordRefundTransfer_steps [orders]: "js_trim txid \<noteq> '''' \<Longrightarrow> row_steps st (snd (recordRefundTransfer oid txid t st))"
  unfolding recordRefundTransfer_def
  by (rule touches, rename_tac o1, case_tac "so_status o1"; simp add: row_le_def row_defs or_text_def)

lemma service_ref_steps [orders]: "row_steps st (snd (repairOrderServiceReference oid pin name st))"
  unfolding repairOrderServiceReference_def prod.case
  by (rule touches, rename_tac o1, case_tac "so_status o1"; simp add: row_le_def row_defs)

section \<open>The invariant\<close>

definition keys_ok :: "service_order \<Rightarrow> bool" where
  "keys_ok o1 \<longleftrightarrow> js_trim (so_paymentTxid o1) = so_paymentTxid o1 \<and>
     (\<forall>pin. so_orderPinId o1 = Some pin \<longrightarrow> js_trim pin = pin \<and> pin \<noteq> '''')"

text \<open>two rows of one bot and role for the same payment or the same order pin\<close>

definition clash :: "service_order \<Rightarrow> service_order \<Rightarrow> bool" where
  "clash a b \<longleftrightarrow> so_localMetabotId a = so_localMetabotId b \<and> so_role a = so_role b \<and>
     ((so_paymentTxid a \<noteq> '''' \<and> so_paymentTxid a = so_paymentTxid b) \<or>
      (so_orderPinId a \<noteq> None \<and> so_orderPinId a = so_orderPinId b))"

definition store_ok :: "order_store \<Rightarrow> bool" where
  "store_ok st \<longleftrightarrow> distinct (map fst (os_orders st)) \<and>
     (\<forall>oid o1. getOrderById st oid = Some o1 \<longrightarrow> so_id o1 = oid \<and> order_ok o1 \<and> keys_ok o1) \<and>
     (\<forall>i j a b. getOrderById st i = Some a \<longrightarrow> getOrderById st j = Some b \<longrightarrow> clash a b \<longrightarrow> i = j)"

lemma store_okD:
  assumes "store_ok st" "getOrderById st oid = Some o1"
  shows "so_id o1 = oid" "order_ok o1" "keys_ok o1"
  using assms by (auto simp: store_ok_def)

lemma store_ok_clash:
  "store_ok st \<Longrightarrow> getOrderById st i = Some a \<Longrightarrow> getOrderById st j = Some b \<Longrightarrow> clash a b \<Longrightarrow> i = j"
  by (auto simp: store_ok_def)

lemma store_okI:
  assumes "distinct (map fst (os_orders st))"
    "\<And>oid o1. getOrderById st oid = Some o1 \<Longrightarrow> so_id o1 = oid \<and> order_ok o1 \<and> keys_ok o1"
    "\<And>i j a b. getOrderById st i = Some a \<Longrightarrow> getOrderById st j = Some b \<Longrightarrow> clash a b \<Longrightarrow> i = j"
  shows "store_ok st"
  using assms by (simp add: store_ok_def)

lemma row_le_keys: "row_le a b \<Longrightarrow> so_id b = so_id a \<and> (keys_ok a \<longrightarrow> keys_ok b) \<and> clash b c = clash a c \<and> clash c b = clash c a"
  by (auto simp: row_le_def same_terms_def keys_ok_def clash_def)

lemma row_le_ok: "row_le a b \<Longrightarrow> order_ok a \<Longrightarrow> order_ok b"
  by (simp add: row_le_def)

lemma order_key: "jget m oid = Some a \<Longrightarrow> oid \<in> fst ` set m"
  by (metis domI dom_map_of_conv_image_fst)

lemma order_row: "getOrderById st k = Some b \<Longrightarrow> b \<in> set (order_rows st)"
  by (force simp: order_rows_def getOrderById_def dest: jget_SomeD)

lemma update_order_ok [invs]:
  assumes "store_ok st" "\<And>o1. \<not> skip o1 \<Longrightarrow> row_le o1 (f o1)"
  shows "store_ok (snd (update_order oid skip f st))"
proof (rule store_okI)
  let ?st = "snd (update_order oid skip f st)"
  have keys: "map fst (os_orders ?st) = map fst (os_orders st)"
    by (cases "getOrderById st oid") (auto simp: update_order_def saveDb_def getOrderById_def map_fst_jset dest: order_key)
  then show "distinct (map fst (os_orders ?st))" using assms(1) by (simp add: store_ok_def)
  have origin: "\<exists>a. getOrderById st k = Some a \<and> row_le a x" if "getOrderById ?st k = Some x" for k x
    using that assms(2) by (auto simp: update_order_get split: if_splits)
  show "so_id x = k \<and> order_ok x \<and> keys_ok x" if "getOrderById ?st k = Some x" for k x
    using origin [OF that] store_okD [OF assms(1)] row_le_keys row_le_ok by metis
  show "i = j" if g: "getOrderById ?st i = Some a" "getOrderById ?st j = Some b" "clash a b" for i j a b
  proof -
    obtain a0 b0 where o: "getOrderById st i = Some a0" "row_le a0 a" "getOrderById st j = Some b0" "row_le b0 b"
      using origin g(1,2) by blast
    then have "clash a0 b0" using g(3) row_le_keys by blast
    then show ?thesis using store_ok_clash [OF assms(1) o(1,3)] by simp
  qed
qed

lemma coalesce_None: "coalesce a b = None \<Longrightarrow> a = None \<and> b = None"
  by simp

lemma no_existing:
  assumes "existing_order st input = None" "getOrderById st k = Some b"
    "so_localMetabotId b = oi_localMetabotId input" "so_role b = oi_role input"
  shows "normalizeOptionalText (oi_orderPinId input) = Some pin \<Longrightarrow> so_orderPinId b \<noteq> Some pin"
    "normalizePaymentTxid (oi_paymentTxid input) \<noteq> '''' \<Longrightarrow> so_paymentTxid b \<noteq> normalizePaymentTxid (oi_paymentTxid input)"
proof -
  have b: "b \<in> set (order_rows st)" using assms(2) by (rule order_row)
  note none = coalesce_None [OF assms(1) [unfolded existing_order_def]]
  show "so_orderPinId b \<noteq> Some pin" if "normalizeOptionalText (oi_orderPinId input) = Some pin"
    using find_None [OF _ b] conjunct1 [OF none] that assms(3,4) by (auto simp: same_side_def)
  show "so_paymentTxid b \<noteq> normalizePaymentTxid (oi_paymentTxid input)" if "normalizePaymentTxid (oi_paymentTxid input) \<noteq> ''''"
    using find_None [OF _ b] conjunct2 [OF none] that assms(3,4) by (auto simp: same_side_def)
qed

lemma new_order_ok:
  assumes "oi_status input \<in> {None, Some OsAwaitingFirstResponse, Some OsFailed}" "o1 = new_order newId input settlement"
    "currency_admitted (so_settlementKind o1) (so_paymentChain o1) (so_mrc20Ticker o1) (so_mrc20Id o1) (so_paymentCurrency o1)"
  shows "order_ok o1" "keys_ok o1"
proof -
  have stamps: "so_deliveryMessagePinId o1 = None" "so_deliveredAt o1 = None" "so_orderEndedAt o1 = None"
    "so_orderEndMessagePinId o1 = None" "so_refundCompletedAt o1 = None" "so_refundTxid o1 = None"
    "so_firstResponseDeadlineAt o1 \<le> so_deliveryDeadlineAt o1" "so_status o1 \<in> {OsAwaitingFirstResponse, OsFailed}"
    using assms(1) unfolding assms(2) new_order_def by (auto simp: computeOrderDeadlines_def)
  then show "order_ok o1" using assms(3) by (auto simp: row_defs)
  have "so_paymentTxid o1 = normalizePaymentTxid (oi_paymentTxid input)"
    "so_orderPinId o1 = normalizeOptionalText (oi_orderPinId input)"
    unfolding assms(2) new_order_def by simp_all
  then show "keys_ok o1"
    by (auto simp: keys_ok_def normalizePaymentTxid_def normalizeOptionalText_def js_trim_empty split: option.splits if_splits)
qed

lemma createOrder_ok [invs]:
  assumes "store_ok st" "createOrder newId input st = Inr (o1, st')"
    "oi_status input \<in> {None, Some OsAwaitingFirstResponse, Some OsFailed}"
  shows "store_ok st'"
  using assms(2)
proof (cases rule: createOrder_cases)
  case old
  then show ?thesis using assms(1) by simp
next
  case (fresh settlement)
  have get: "getOrderById st' k = (case getOrderById st k of None \<Rightarrow> if k = so_id o1 then Some o1 else None | Some x \<Rightarrow> Some x)" for k
    by (simp add: fresh(6) saveDb_def getOrderById_def map_add_def split: option.splits)
  have ids: "so_id b \<noteq> so_id o1" if "b \<in> set (order_rows st)" for b
    using fresh(4) that by (auto simp: unique_violation_def list_ex_iff)
  have keys: "so_paymentTxid o1 = normalizePaymentTxid (oi_paymentTxid input)"
    "so_orderPinId o1 = normalizeOptionalText (oi_orderPinId input)"
    "so_localMetabotId o1 = oi_localMetabotId input" "so_role o1 = oi_role input"
    unfolding fresh(3) new_order_def by simp_all
  have apart: "\<not> clash o1 b" "\<not> clash b o1" if "getOrderById st k = Some b" for k b
    using no_existing [OF fresh(2) that] unfolding clash_def keys by (metis option.exhaust)+
  show ?thesis
  proof (rule store_okI)
    have "so_id o1 \<notin> fst ` set (os_orders st)"
    proof
      assume "so_id o1 \<in> fst ` set (os_orders st)"
      then obtain b where "getOrderById st (so_id o1) = Some b"
        by (metis getOrderById_def map_of_eq_None_iff option.exhaust)
      then show False using ids [OF order_row] store_okD(1) [OF assms(1)] by blast
    qed
    then show "distinct (map fst (os_orders st'))" using assms(1) by (simp add: fresh(6) saveDb_def store_ok_def)
    show "so_id x = k \<and> order_ok x \<and> keys_ok x" if "getOrderById st' k = Some x" for k x
      using that store_okD [OF assms(1)] new_order_ok [OF assms(3) fresh(3,5)] by (auto simp: get split: option.splits if_splits)
    show "i = j" if "getOrderById st' i = Some a" "getOrderById st' j = Some b" "clash a b" for i j a b
      using that apart store_ok_clash [OF assms(1)] by (auto simp: get split: option.splits if_splits)
  qed
qed

lemma row_step_ok [invs]: "row_step st st' \<Longrightarrow> store_ok st \<Longrightarrow> store_ok st'"
  by (induction rule: row_step.induct) (rule update_order_ok)

lemma table_step_ok [invs]: "table_step st st' \<Longrightarrow> store_ok st \<Longrightarrow> store_ok st'"
  by (induction rule: table_step.induct) (auto intro: row_step_ok createOrder_ok)

lemma steps_ok [invs]: "order_steps st st' \<Longrightarrow> store_ok st \<Longrightarrow> store_ok st'"
  by (induction rule: rtranclp_induct) (auto intro: table_step_ok)

section \<open>The services are sequences of steps\<close>

lemma repairOrderPaymentAmount_steps [orders]:
  assumes "repairOrderPaymentAmount oid amount currency now st = Inr (r, st')"
  shows "row_steps st st'"
proof (cases "getOrderById st oid")
  case None
  then show ?thesis using assms by (simp add: repairOrderPaymentAmount_def)
next
  case (Some o1)
  let ?a = "js_trim amount" and ?c = "js_upper (js_trim currency)"
  let ?f = "\<lambda>o1. o1\<lparr>so_paymentAmount := ?a, so_paymentCurrency := ?c, so_updatedAt := now\<rparr>"
  consider (same) "st' = st"
    | (moved) "currency_admitted (so_settlementKind o1) (so_paymentChain o1) (so_mrc20Ticker o1) (so_mrc20Id o1) ?c"
        "st' = snd (update_order oid (\<lambda>_. False) ?f st)"
    using assms Some by (auto simp: repairOrderPaymentAmount_def split: if_splits)
  then show ?thesis
  proof cases
    case moved
    let ?skip = "\<lambda>o1. \<not> currency_admitted (so_settlementKind o1) (so_paymentChain o1) (so_mrc20Ticker o1) (so_mrc20Id o1) ?c"
    have "update_order oid (\<lambda>_. False) ?f st = update_order oid ?skip ?f st"
      using Some moved(1) by (simp add: update_order_def)
    then show ?thesis unfolding moved(2)
      by (simp only:) (rule touches, rename_tac o1, case_tac "so_status o1"; simp add: row_le_def row_defs)
  qed simp
qed

lemma refund_locally_steps [orders]: "row_steps st (snd (refund_locally skip t r os st))"
proof -
  let ?g = "\<lambda>(done, st) o1. if skip o1 then (done, st)
        else (case markRefundedLocally (so_id o1) t (Some r) st of
                (None, st') \<Rightarrow> (done, st') | (Some o2, st') \<Rightarrow> (done @ [o2], st'))"
  have "row_steps (snd ([] :: service_order list, st)) (snd (foldl ?g ([], st) os))"
  proof (rule foldl_steps [where sel = snd])
    fix acc :: "service_order list \<times> order_store" and x
    show "row_steps (snd acc) (snd (?g acc x))"
      using markRefundedLocally_steps [of "snd acc" "so_id x" t "Some r"] by (auto split: prod.splits option.splits)
  qed
  then show ?thesis by (simp add: refund_locally_def)
qed

text \<open>The loops that write one row each and collect the results.\<close>

lemma collect_steps:
  assumes "\<And>x st. row_steps st (snd (mark x st))"
  shows "row_steps st (snd (foldl (\<lambda>(done, st) x. case mark x st of
      (None, st') \<Rightarrow> (done, st') | (Some y, st') \<Rightarrow> (done @ [y], st')) (d, st) xs))"
proof -
  let ?g = "\<lambda>(done, st) x. case mark x st of (None, st') \<Rightarrow> (done, st') | (Some y, st') \<Rightarrow> (done @ [y], st')"
  have "row_steps (snd (d, st)) (snd (foldl ?g (d, st) xs))"
  proof (rule foldl_steps [where sel = snd])
    fix acc x
    show "row_steps (snd acc) (snd (?g acc x))"
      using assms [of "snd acc" x] by (auto split: prod.splits option.splits)
  qed
  then show ?thesis by simp
qed

lemma pending_all_steps [orders]: "row_steps st (snd (pending_all pin t os st))"
  unfolding pending_all_def by (rule collect_steps) (rule orders)

lemma mark_each_steps [orders]: "(\<And>oid st. row_steps st (snd (mark oid st))) \<Longrightarrow> row_steps st (snd (mark_each mark os st))"
  unfolding mark_each_def by (rule collect_steps)

lemma mirror_steps [orders]: "row_steps st (snd (mirrorRefundPendingToCounterparts o1 pin t st))"
  unfolding mirrorRefundPendingToCounterparts_def by (rule orders)

lemma apply_request_steps [orders]: "row_steps st (snd (apply_request r f pin q oid st))"
  unfolding apply_request_def by (rule rtranclp_trans [OF markFailed_steps markRefundPending_steps])

lemma repair_group_steps: "row_steps (snd acc) (snd (repair_group now sel acc))"
  using refund_locally_steps [of "snd acc" settled now SELF_ORDER_REASON "sel (snd acc)"]
  by (simp add: repair_group_def split_beta)

lemma repair_orders_steps [orders]: "row_steps st (snd (repair_orders env cs st))"
proof -
  obtain pins txids where k: "repair_keys env cs = (pins, txids)" by fastforce
  let ?p = "foldl (\<lambda>acc pin. repair_group (oe_now env) (\<lambda>st. listOrdersByOrderPinId st pin) acc) ([], st) pins"
  have "row_steps (snd ([] :: service_order list, st)) (snd ?p)"
    by (rule foldl_steps [where sel = snd]) (rule repair_group_steps)
  moreover have "row_steps (snd ?p) (snd (foldl (\<lambda>acc txid. repair_group (oe_now env) (\<lambda>st. listOrdersByPaymentTxid st txid) acc) ?p txids))"
    by (rule foldl_steps [where sel = snd]) (rule repair_group_steps)
  ultimately show ?thesis by (simp add: repair_orders_def k)
qed

lemma lift_store_sel [simp]:
  "lc_store (snd (lift_store f lc)) = snd (f (lc_store lc))" "fst (lift_store f lc) = fst (f (lc_store lc))"
  by (simp_all add: lift_store_def split_beta)

lemma effects_store [simp]:
  "lc_store (emit es lc) = lc_store lc" "lc_store (emitExperienceEvent t o1 lc) = lc_store lc"
  "lc_store (emitOrderEvents t os lc) = lc_store lc"
  by (simp_all add: emit_def emitExperienceEvent_def emitOrderEvents_def split: option.splits)

lemma repair_steps [orders]: "row_steps (lc_store lc) (lc_store (snd (repairSelfDirectedOrders env lc)))"
proof -
  obtain cs lc' where c: "listSelfDirectedRepairCandidates lc = (cs, lc')" by fastforce
  then have "lc_store lc' = lc_store lc"
    by (auto simp: listSelfDirectedRepairCandidates_def Let_def split: option.splits if_splits)
  then show ?thesis by (simp add: repairSelfDirectedOrders_def c repair_orders_steps)
qed

lemma mark_matched_steps:
  assumes "\<And>oid st. row_steps st (snd (mark oid st))"
  shows "row_steps (lc_store lc) (lc_store (snd (mark_matched role m t mark lc)))"
proof (cases "findOrderForMatch (lc_store lc) role m")
  case None
  then show ?thesis by (simp add: mark_matched_def)
next
  case (Some o1)
  then show ?thesis using assms by (simp add: mark_matched_def split_beta)
qed

lemma matched_steps [orders]:
  "row_steps (lc_store lc) (lc_store (snd (markBuyerOrderFirstResponseReceived env m t lc)))"
  "row_steps (lc_store lc) (lc_store (snd (markSellerOrderFirstResponseSent env m t lc)))"
  "row_steps (lc_store lc) (lc_store (snd (markSellerOrderFailed env m r t lc)))"
  "row_steps (lc_store lc) (lc_store (snd (markBuyerOrderDelivered env m pin t lc)))"
  "row_steps (lc_store lc) (lc_store (snd (markSellerOrderDelivered env m pin t lc)))"
  "row_steps (lc_store lc) (lc_store (snd (markOrderRatingRequested env role m t lc)))"
  "row_steps (lc_store lc) (lc_store (snd (lifecycleOrderEnded env role m r' pin t lc)))"
  unfolding markBuyerOrderFirstResponseReceived_def markSellerOrderFirstResponseSent_def markSellerOrderFailed_def
    markBuyerOrderDelivered_def markSellerOrderDelivered_def markOrderRatingRequested_def lifecycleOrderEnded_def
  by (rule mark_matched_steps, rule orders)+

lemma attach_steps [orders]:
  "row_steps (lc_store lc) (lc_store (snd (attachCoworkSessionToSellerOrder env m sid lc)))"
  by (simp add: attachCoworkSessionToSellerOrder_def setCoworkSessionId_steps split: option.splits)

lemma refund_free_steps: "row_steps (lc_store lc) (lc_store (snd (refund_free o1 t lc)))"
  by (simp add: refund_free_def split_beta refund_locally_steps)

lemma request_refund_steps: "row_steps (lc_store lc) (lc_store (snd (request_refund env o1 t lc)))"
proof (cases "case oe_refundRequestPin env of None \<Rightarrow> None | Some write \<Rightarrow> write o1")
  case None
  then show ?thesis by (simp add: request_refund_def markRefundRequestRetry_steps)
next
  case (Some ids)
  have "row_steps st (snd (mirrorRefundPendingToCounterparts o1 p t (snd (markRefundPending (so_id o1) p t st))))" for p st
    by (rule rtranclp_trans [OF markRefundPending_steps mirror_steps])
  then show ?thesis using Some by (simp add: request_refund_def split_beta Let_def)
qed

lemma tryCreateRefundRequest_steps [orders]:
  "row_steps (lc_store lc) (lc_store (snd (tryCreateRefundRequest env oid t lc)))"
  using refund_free_steps request_refund_steps by (simp add: tryCreateRefundRequest_def split: option.splits)

lemma failed_and_requested_steps [orders]:
  "row_steps (lc_store lc) (lc_store (snd (markBuyerOrderFailedAndRequestRefund env m r t lc)))"
proof -
  let ?marked = "mark_matched Buyer m EvFailed (\<lambda>oid. markFailed oid (or_reason r ''delivery_artifact_failed'') (or_now env t)) lc"
  have marked: "row_steps (lc_store lc) (lc_store (snd ?marked))" by (rule mark_matched_steps) (rule orders)
  have "lc_store (snd (markBuyerOrderFailedAndRequestRefund env m r t lc)) = lc_store (snd ?marked) \<or>
      (\<exists>i. lc_store (snd (markBuyerOrderFailedAndRequestRefund env m r t lc)) =
        lc_store (snd (tryCreateRefundRequest env i (or_now env t) (snd ?marked))))"
    by (cases ?marked) (auto simp: markBuyerOrderFailedAndRequestRefund_def Let_def split: option.splits)
  then show ?thesis using marked rtranclp_trans [OF marked tryCreateRefundRequest_steps] by metis
qed

lemma scan_buyer_cases:
  obtains (untouched) "scan_buyer env o1 lc = lc"
  | (failed) t where "getTimedOutOrderTransition o1 (oe_now env) = Some t"
      "fst (markFailed (so_id o1) (timeout_reason t) (oe_now env) (lc_store lc)) = None"
      "lc_store (scan_buyer env o1 lc) = snd (markFailed (so_id o1) (timeout_reason t) (oe_now env) (lc_store lc))"
  | (requested) t x lc' where "getTimedOutOrderTransition o1 (oe_now env) = Some t"
      "fst (markFailed (so_id o1) (timeout_reason t) (oe_now env) (lc_store lc)) = Some x"
      "lc_store lc' = snd (markFailed (so_id o1) (timeout_reason t) (oe_now env) (lc_store lc))"
      "scan_buyer env o1 lc = snd (tryCreateRefundRequest env (so_id x) (oe_now env) lc')"
proof (cases "getTimedOutOrderTransition o1 (oe_now env)")
  case None
  then show ?thesis using untouched by (simp add: scan_buyer_def)
next
  case (Some t)
  let ?m = "lift_store (markFailed (so_id o1) (timeout_reason t) (oe_now env)) lc"
  show ?thesis
  proof (cases "fst ?m")
    case None
    then show ?thesis using failed [OF Some] by (simp add: scan_buyer_def Some split_beta)
  next
    case (Some x)
    then show ?thesis
      using requested [OF \<open>getTimedOutOrderTransition o1 (oe_now env) = Some t\<close>, of x "emitExperienceEvent EvFailed (Some x) (snd ?m)"]
      by (simp add: scan_buyer_def \<open>getTimedOutOrderTransition o1 (oe_now env) = Some t\<close> split_beta)
  qed
qed

lemma scan_row_steps:
  "row_steps (lc_store lc) (lc_store (scan_buyer env o1 lc))"
  "row_steps (lc_store lc) (lc_store (scan_seller env o1 lc))"
  "row_steps (lc_store lc) (lc_store (scan_retry env o1 lc))"
  "row_steps (lc_store lc) (lc_store (tryEndRatingTimedOutOrder env o1 lc))"
proof -
  show "row_steps (lc_store lc) (lc_store (scan_retry env o1 lc))"
    unfolding scan_retry_def by (rule orders)
  show "row_steps (lc_store lc) (lc_store (scan_seller env o1 lc))"
    by (simp add: scan_seller_def split_beta markFailed_steps split: option.splits)
  show "row_steps (lc_store lc) (lc_store (tryEndRatingTimedOutOrder env o1 lc))"
    by (simp add: tryEndRatingTimedOutOrder_def split_beta markOrderEnded_steps split: option.splits)
  show "row_steps (lc_store lc) (lc_store (scan_buyer env o1 lc))"
  proof (cases rule: scan_buyer_cases [of env o1 lc])
    case (requested t x lc')
    then have "row_steps (lc_store lc) (lc_store lc')" by (simp add: markFailed_steps)
    then show ?thesis unfolding requested(4) by (rule rtranclp_trans) (rule tryCreateRefundRequest_steps)
  qed (simp_all add: markFailed_steps)
qed

lemma scan_steps [orders]: "row_steps (lc_store lc) (lc_store (scanTimedOutOrders env lc))"
proof -
  have loop: "row_steps (lc_store lc) (lc_store (foldl f lc xs))"
    if "\<And>lc o1. row_steps (lc_store lc) (lc_store (f lc o1))" for f :: "lifecycle \<Rightarrow> service_order \<Rightarrow> lifecycle" and lc xs
    by (rule foldl_steps [where sel = lc_store]) (rule that)
  show ?thesis unfolding scanTimedOutOrders_def Let_def
    by (rule rtranclp_trans [OF rtranclp_trans [OF rtranclp_trans [OF rtranclp_trans [OF repair_steps]]]];
        rule loop, rule scan_row_steps)
qed

section \<open>Refund services\<close>

lemma record_all_steps [orders]: "js_trim txid \<noteq> '''' \<Longrightarrow> row_steps st (record_all txid t os st)"
  unfolding record_all_def by (rule foldl_steps [where sel = "\<lambda>st. st"]) (rule orders)

lemma rs_emit_store [simp]: "rs_store (rs_emit es st) = rs_store st"
  by (simp add: rs_emit_def)

lemma finish_store [simp]: "rs_store (snd (finish_refund o1 os st)) = rs_store st"
  by (simp add: finish_refund_def Let_def split: option.splits)

lemma resolveRefundTxid_steps: "row_steps (rs_store st) (rs_store (snd (resolveRefundTxid env o1 tr st)))"
  by (simp add: resolveRefundTxid_def Let_def record_all_steps split: option.splits)

lemma resolveNoTransferRefund_steps: "row_steps (rs_store st) (rs_store (snd (resolveNoTransferRefund env o1 r st)))"
  by (simp add: resolveNoTransferRefund_def split_beta mark_each_steps markRefundedLocally_steps)

lemma resolveSelfDirectedRefund_steps: "row_steps (rs_store st) (rs_store (snd (resolveSelfDirectedRefund env o1 st)))"
proof -
  let ?g = "\<lambda>(done, s) c. if settled c then (done @ [c], s)
            else (case markRefundedLocally (so_id c) (re_now env) (Some SELF_ORDER_REASON) s of
                    (None, s') \<Rightarrow> (done, s') | (Some c', s') \<Rightarrow> (done @ [c'], s'))"
  have "row_steps (snd ([] :: service_order list, rs_store st))
      (snd (foldl ?g ([], rs_store st) (listOrdersByPaymentTxid (rs_store st) (so_paymentTxid o1))))"
  proof (rule foldl_steps [where sel = snd])
    fix acc :: "service_order list \<times> order_store" and c
    show "row_steps (snd acc) (snd (?g acc c))"
      using markRefundedLocally_steps [of "snd acc" "so_id c" "re_now env" "Some SELF_ORDER_REASON"]
      by (auto split: prod.splits option.splits)
  qed
  then show ?thesis by (simp add: resolveSelfDirectedRefund_def Let_def split_beta)
qed

lemma finalizeRefund_steps: "row_steps (rs_store st) (rs_store (snd (finalizeRefund env o1 txid st)))"
proof (cases "re_finalizePin env o1 txid")
  case None
  then show ?thesis by (simp add: finalizeRefund_def)
next
  case (Some ids)
  have emb: "rs_store (snd (case finish_refund o1 u s of (Inl e, st) \<Rightarrow> (Inl e, st) | (Inr res, st) \<Rightarrow> (Inr (g res), st))) = rs_store s"
    for u s and g :: "refund_result \<Rightarrow> refund_result"
    using finish_store [of o1 u s] by (auto split: prod.splits sum.splits simp del: finish_store)
  show ?thesis
    by (simp add: finalizeRefund_def Some Let_def split_beta [of _ "mark_each _ _ _"] emb mark_each_steps markRefunded_steps)
qed

lemma payRefund_steps: "row_steps (rs_store st) (rs_store (snd (payRefund env o1 p st)))"
proof -
  let ?tr = "\<lparr>rt_orderId = so_id o1, rt_address = trimmed_of p ''refundToAddress'', rt_amount = resolveRefundAmount o1 p,
    rt_currency = resolveRefundCurrency o1 p\<rparr>"
  obtain r st' where r: "resolveRefundTxid env o1 ?tr st = (r, st')" by fastforce
  then have "row_steps (rs_store st) (rs_store st')" using resolveRefundTxid_steps [of st env o1 ?tr] by simp
  then show ?thesis using rtranclp_trans [OF _ finalizeRefund_steps] resolveNoTransferRefund_steps
    by (simp add: payRefund_def Let_def r split: sum.splits)
qed

lemma processSellerRefund_steps [orders]:
  "row_steps (rs_store st) (rs_store (snd (processSellerRefundForOrderId env oid st)))"
  using resolveSelfDirectedRefund_steps payRefund_steps
  by (simp add: processSellerRefundForOrderId_def split: option.splits sum.splits)

lemma synthesize_steps:
  assumes "synthesizeSellerOrderForRefundRequest env i p st = Inr (r, st')"
  shows "order_steps st st'"
proof -
  consider (same) "st' = st" | (made) input o1 where "createOrder i input st = Inr (o1, st')" "oi_status input = Some OsFailed"
  proof (cases "resolveLocalMetabotIdForRefundRequest env (trimmed_of p ''sellerGlobalMetaId'') (text_opt p ''servicePinId'')")
    case None
    then show ?thesis using assms same by (simp add: synthesizeSellerOrderForRefundRequest_def split: if_splits)
  next
    case (Some mb)
    have "oi_status (synthesized_input env p mb) = Some OsFailed" by (simp add: synthesized_input_def)
    then show ?thesis using assms Some same made
      by (fastforce simp: synthesizeSellerOrderForRefundRequest_def split: if_splits sum.splits)
  qed
  then show ?thesis by cases (auto intro: table_step.create)
qed

lemma matchingOrders_steps:
  assumes "matchingOrders env pin p st = Inr (os, st')"
  shows "order_steps st st'"
  using assms synthesize_steps by (fastforce simp: matchingOrders_def Let_def split: list.splits option.splits sum.splits)

lemma sync_request_steps:
  assumes "sync_request env pin st = Inr st'"
  shows "order_steps (rs_store st) (rs_store st')"
proof (cases "parseRefundRequestPayload (se_parse env) (rp_content pin)")
  case None
  then show ?thesis using assms by (simp add: sync_request_def)
next
  case (Some p)
  then obtain os store where m: "matchingOrders env pin p (rs_store st) = Inr (os, store)"
    using assms by (fastforce simp: sync_request_def split: sum.splits)
  have "order_steps store (rs_store st')"
    using assms row_steps_order [OF mark_each_steps [OF apply_request_steps]] by (auto simp: sync_request_def Some m Let_def split_beta)
  with matchingOrders_steps [OF m] show ?thesis by (rule rtranclp_trans)
qed

lemma syncRequestPins_steps [orders]: "order_steps (rs_store st) (rs_store (snd (syncRequestPins env pins st)))"
proof (induction pins arbitrary: st)
  case (Cons pin pins)
  show ?case
  proof (cases "sync_request env pin st")
    case (Inr st')
    show ?thesis using rtranclp_trans [OF sync_request_steps [OF Inr] Cons.IH [of st']] Inr by simp
  qed simp
qed simp

lemma sync_finalize_steps: "row_steps (rs_store st) (rs_store (sync_finalize env st pin))"
  by (simp add: sync_finalize_def Let_def split_beta mark_each_steps markRefunded_steps split: option.splits list.splits)

lemma syncFinalizePins_steps [orders]: "row_steps (rs_store st) (rs_store (syncFinalizePins env pins st))"
  unfolding syncFinalizePins_def by (rule foldl_steps [where sel = rs_store]) (rule sync_finalize_steps)

lemma create_as_steps [orders]:
  assumes "create_as role env input lc = Inr (o1, lc')"
  shows "order_steps (lc_store lc) (lc_store lc')"
proof -
  let ?input = "input\<lparr>oi_role := role, oi_status := Some OsAwaitingFirstResponse, oi_now := oe_now env\<rparr>"
  have "\<not> isSelfDirectedPair env (oi_localMetabotId input) (oi_counterparty input)"
    using assms unfolding create_as_def by (metis Inl_Inr_False)
  with assms have run: "(case createOrder (oe_newId env) ?input (lc_store lc) of Inl e \<Rightarrow> Inl (StoreError e)
      | Inr (o1, st) \<Rightarrow> Inr (o1, emitExperienceEvent EvCreated (Some o1) (lc\<lparr>lc_store := st\<rparr>))) = Inr (o1, lc')"
    by (simp only: create_as_def if_False)
  then obtain st where "createOrder (oe_newId env) ?input (lc_store lc) = Inr (o1, st)" "lc_store lc' = st"
    by (cases "createOrder (oe_newId env) ?input (lc_store lc)") auto
  then have "table_step (lc_store lc) (lc_store lc')" using table_step.create [of _ ?input] by simp
  then show ?thesis by (rule r_into_rtranclp)
qed

end
