(* ===== verification/OrderProps.thy ===== *)
theory OrderProps
  imports OrderFacts
begin

text \<open>
  The properties of the service order ledger: its invariant, the direction of an order's life, the
  scan, refunds, the cached repair scan, and lookups.
\<close>

section \<open>The ledger under its services\<close>

text \<open>One call of a service method, as the ledger sees it.\<close>

inductive service_step :: "order_store \<Rightarrow> order_store \<Rightarrow> bool" where
  buyer_places: "createBuyerOrder env input lc = Inr (o1, lc') \<Longrightarrow> service_step (lc_store lc) (lc_store lc')"
| seller_books: "createSellerOrder env input lc = Inr (o1, lc') \<Longrightarrow> service_step (lc_store lc) (lc_store lc')"
| buyer_answered: "service_step (lc_store lc) (lc_store (snd (markBuyerOrderFirstResponseReceived env m t lc)))"
| seller_answers: "service_step (lc_store lc) (lc_store (snd (markSellerOrderFirstResponseSent env m t lc)))"
| buyer_served: "service_step (lc_store lc) (lc_store (snd (markBuyerOrderDelivered env m pin t lc)))"
| seller_serves: "service_step (lc_store lc) (lc_store (snd (markSellerOrderDelivered env m pin t lc)))"
| seller_fails: "service_step (lc_store lc) (lc_store (snd (markSellerOrderFailed env m reason t lc)))"
| buyer_gives_up: "service_step (lc_store lc) (lc_store (snd (markBuyerOrderFailedAndRequestRefund env m reason t lc)))"
| rating_asked: "service_step (lc_store lc) (lc_store (snd (markOrderRatingRequested env role m t lc)))"
| ended: "service_step (lc_store lc) (lc_store (snd (lifecycleOrderEnded env role m why pin t lc)))"
| attached: "service_step (lc_store lc) (lc_store (snd (attachCoworkSessionToSellerOrder env m sid lc)))"
| repaired: "service_step (lc_store lc) (lc_store (snd (repairSelfDirectedOrders env lc)))"
| refund_asked: "service_step (lc_store lc) (lc_store (snd (tryCreateRefundRequest env oid t1 lc)))"
| scanned: "service_step (lc_store lc) (lc_store (scanTimedOutOrders env lc))"
| refund_paid: "service_step (rs_store st) (rs_store (snd (processSellerRefundForOrderId renv oid st)))"
| requests_synced: "service_step (rs_store st) (rs_store (snd (syncRequestPins senv pins st)))"
| proofs_synced: "service_step (rs_store st) (rs_store (syncFinalizePins senv pins st))"
| reference_repaired: "service_step store (snd (repairOrderServiceReference oid pin1 name store))"
| amount_repaired: "repairOrderPaymentAmount oid amount currency now store = Inr (r, store') \<Longrightarrow> service_step store store'"

lemma service_order_steps: "service_step st st' \<Longrightarrow> order_steps st st'"
  by (induction rule: service_step.induct)
    (auto intro: orders row_steps_order row_steps_order [OF service_ref_steps] simp: createBuyerOrder_def createSellerOrder_def)

lemma services_order_steps: "service_step\<^sup>*\<^sup>* st st' \<Longrightarrow> order_steps st st'"
  by (induction rule: rtranclp_induct) (auto intro: service_order_steps rtranclp_trans)

definition empty_ledger :: order_store where
  "empty_ledger = \<lparr>os_orders = [], os_revision = 0\<rparr>"

lemma empty_ok [simp]: "store_ok empty_ledger"
  by (simp add: store_ok_def empty_ledger_def getOrderById_def)

lemma services_ok: "service_step\<^sup>*\<^sup>* empty_ledger st \<Longrightarrow> store_ok st"
  using steps_ok [OF services_order_steps] by simp

text \<open>C14. Whatever the services do from an empty ledger, no two orders of a bot in one role share a
  payment or an order pin, and the stamps of each order agree with its status: an open order is
  neither delivered nor ended, a delivered one is neither failed nor up for a refund, a completed
  one has ended, and exactly the refunded ones bear the time of the refund; the currency is one the
  settlement admits.\<close>

lemma ledger_is_consistent:
  assumes "service_step\<^sup>*\<^sup>* empty_ledger st" "getOrderById st i = Some a" "getOrderById st j = Some b"
  shows "(clash a b \<longrightarrow> a = b) \<and> so_id a = i \<and> order_ok a"
  using services_ok [OF assms(1)] store_okD store_ok_clash assms(2,3) by (metis option.inject)


section \<open>The scan\<close>

definition expired :: "int \<Rightarrow> service_order \<Rightarrow> bool" where
  "expired now o1 \<longleftrightarrow> getTimedOutOrderTransition o1 now \<noteq> None"

lemma expired_before: "row_le a b \<Longrightarrow> order_ok a \<Longrightarrow> expired now b \<Longrightarrow> expired now a"
  by (cases "so_status a") (auto simp: row_le_def same_terms_def expired_def getTimedOutOrderTransition_def order_ok_def split: if_splits)

lemma expired_open: "expired now o1 \<Longrightarrow> so_status o1 \<in> {OsAwaitingFirstResponse, OsInProgress}"
  by (auto simp: expired_def getTimedOutOrderTransition_def split: if_splits)

lemma expired_fails:
  assumes "getOrderById st oid = Some a" "order_ok a" "expired now a"
  shows "getOrderById (snd (markFailed oid r t st)) oid = Some b \<Longrightarrow> \<not> expired now b"
    "fst (markFailed oid r t st) \<noteq> None"
proof -
  have "so_status a \<in> {OsAwaitingFirstResponse, OsInProgress}" "\<not> served a"
    using expired_open [OF assms(3)] assms(2) by (auto simp: order_ok_def)
  then show "fst (markFailed oid r t st) \<noteq> None" "getOrderById (snd (markFailed oid r t st)) oid = Some b \<Longrightarrow> \<not> expired now b"
    using assms(1) by (auto simp: markFailed_def update_order_def saveDb_def getOrderById_def expired_def getTimedOutOrderTransition_def)
qed

text \<open>\<open>quiet\<close>: the row under an id, if any, is not expired; steps on rows keep it.\<close>

definition quiet :: "int \<Rightarrow> order_store \<Rightarrow> string \<Rightarrow> bool" where
  "quiet now st k \<longleftrightarrow> (\<forall>b. getOrderById st k = Some b \<longrightarrow> \<not> expired now b)"

lemma quiet_kept: "row_steps st st' \<Longrightarrow> store_ok st \<Longrightarrow> quiet now st k \<Longrightarrow> quiet now st' k"
  using row_steps_origin expired_before store_okD(2) unfolding quiet_def by metis

lemma row_steps_ok: "row_steps st st' \<Longrightarrow> store_ok st \<Longrightarrow> store_ok st'"
  by (rule steps_ok [OF row_steps_order])

text \<open>A snapshot row that was open: if its current row is expired, so was the snapshot.\<close>

definition snapshot :: "order_store \<Rightarrow> service_order \<Rightarrow> bool" where
  "snapshot st o1 \<longleftrightarrow> order_ok o1 \<and> (\<forall>a. getOrderById st (so_id o1) = Some a \<longrightarrow> row_le o1 a)"

lemma scan_buyer_hits:
  assumes ok: "store_ok (lc_store lc)" and sn: "snapshot (lc_store lc) o1"
  shows "quiet (oe_now env) (lc_store (scan_buyer env o1 lc)) (so_id o1)"
proof (cases "getOrderById (lc_store lc) (so_id o1)")
  case None
  then show ?thesis using row_steps_origin [OF scan_row_steps(1)] by (fastforce simp: quiet_def)
next
  case (Some a)
  let ?now = "oe_now env"
  have a: "order_ok a" "row_le o1 a" "order_ok o1" using store_okD [OF ok Some] sn Some by (simp_all add: snapshot_def)
  show ?thesis
  proof (cases "expired ?now a")
    case False
    then have "quiet ?now (lc_store lc) (so_id o1)" using Some by (simp add: quiet_def)
    then show ?thesis using quiet_kept [OF scan_row_steps(1) ok] by blast
  next
    case True
    then obtain t where t: "getTimedOutOrderTransition o1 ?now = Some t"
      using expired_before [OF a(2,3)] by (auto simp: expired_def)
    let ?st = "snd (markFailed (so_id o1) (timeout_reason t) ?now (lc_store lc))"
    have q: "quiet ?now ?st (so_id o1)" using expired_fails(1) [OF Some a(1) True] by (auto simp: quiet_def)
    have ok': "store_ok ?st" using row_steps_ok [OF markFailed_steps ok] .
    show ?thesis
    proof (cases rule: scan_buyer_cases [of env o1 lc])
      case untouched
      have "fst (markFailed (so_id o1) (timeout_reason t) ?now (lc_store lc)) \<noteq> None"
        using expired_fails(2) [OF Some a(1) True] .
      then obtain x where "fst (markFailed (so_id o1) (timeout_reason t) ?now (lc_store lc)) = Some x" by blast
      then have "scan_buyer env o1 lc = snd (tryCreateRefundRequest env (so_id x) ?now
          (emitExperienceEvent EvFailed (Some x) (snd (lift_store (markFailed (so_id o1) (timeout_reason t) ?now) lc))))"
        by (simp add: scan_buyer_def t split_beta)
      then have "row_steps ?st (lc_store (scan_buyer env o1 lc))"
        using tryCreateRefundRequest_steps [of "emitExperienceEvent EvFailed (Some x)
          (snd (lift_store (markFailed (so_id o1) (timeout_reason t) ?now) lc))"] by simp
      then show ?thesis using quiet_kept ok' q by blast
    next
      case (failed t')
      then show ?thesis using q t by simp
    next
      case (requested t' x lc')
      then have "lc_store lc' = ?st" using t by simp
      then show ?thesis unfolding requested(4) using quiet_kept [OF tryCreateRefundRequest_steps] ok' q by metis
    qed
  qed
qed

lemma scan_seller_hits:
  assumes ok: "store_ok (lc_store lc)" and sn: "snapshot (lc_store lc) o1" and paid: "js_trim (so_paymentTxid o1) \<noteq> ''''"
  shows "quiet (oe_now env) (lc_store (scan_seller env o1 lc)) (so_id o1)"
proof (cases "getOrderById (lc_store lc) (so_id o1)")
  case None
  then show ?thesis using row_steps_origin [OF scan_row_steps(2)] by (fastforce simp: quiet_def)
next
  case (Some a)
  let ?now = "oe_now env"
  have a: "order_ok a" "row_le o1 a" "order_ok o1" using store_okD [OF ok Some] sn Some by (simp_all add: snapshot_def)
  show ?thesis
  proof (cases "expired ?now a")
    case False
    then have "quiet ?now (lc_store lc) (so_id o1)" using Some by (simp add: quiet_def)
    then show ?thesis using quiet_kept [OF scan_row_steps(2) ok] by blast
  next
    case True
    then obtain t where t: "getTimedOutOrderTransition o1 ?now = Some t"
      using expired_before [OF a(2,3)] by (auto simp: expired_def)
    then show ?thesis using expired_fails(1) [OF Some a(1) True] paid
      by (auto simp: quiet_def scan_seller_def split_beta)
  qed
qed

lemma in_select_newest: "o1 \<in> set (select_newest P st) \<longleftrightarrow> o1 \<in> set (order_rows st) \<and> P o1"
  by (auto simp: select_newest_def newest_first_def)

lemma rows_get: "store_ok st \<Longrightarrow> o1 \<in> set (order_rows st) \<Longrightarrow> getOrderById st (so_id o1) = Some o1"
  by (force simp: order_rows_def getOrderById_def store_ok_def)

lemma row_snapshot: "store_ok st \<Longrightarrow> o1 \<in> set (order_rows st) \<Longrightarrow> order_ok o1"
  using rows_get store_okD(2) by blast

lemma scan_phase:
  assumes frame: "\<And>lc o1. row_steps (lc_store lc) (lc_store (f lc o1))"
    and hit: "\<And>lc o1. store_ok (lc_store lc) \<Longrightarrow> snapshot (lc_store lc) o1 \<and> Q o1 \<Longrightarrow> quiet now (lc_store (f lc o1)) (so_id o1)"
    and ok: "store_ok (lc_store lc)"
    and o1: "getOrderById (lc_store lc) k = Some a" "a \<in> set os" "\<forall>o1 \<in> set os. o1 \<in> set (order_rows (lc_store lc)) \<and> Q o1"
  shows "quiet now (lc_store (foldl f lc os)) k"
proof -
  have all: "\<forall>o1 \<in> set xs. quiet now (lc_store (foldl f lc1 xs)) (so_id o1)"
    if "row_steps (lc_store lc) (lc_store lc1)" "\<forall>o1 \<in> set xs. getOrderById (lc_store lc) (so_id o1) = Some o1 \<and> order_ok o1 \<and> Q o1" for lc1 xs
    using that
  proof (induction xs arbitrary: lc1)
    case (Cons x xs)
    have ok1: "store_ok (lc_store lc1)" using row_steps_ok [OF Cons.prems(1) ok] .
    have x: "getOrderById (lc_store lc) (so_id x) = Some x" "order_ok x" "Q x" using Cons.prems(2) by auto
    have "snapshot (lc_store lc1) x"
      using x steps_le [OF row_steps_order [OF Cons.prems(1)]] store_leD by (fastforce simp: snapshot_def)
    then have q: "quiet now (lc_store (f lc1 x)) (so_id x)" using hit [OF ok1] x(3) by blast
    have step: "row_steps (lc_store lc) (lc_store (f lc1 x))" using rtranclp_trans [OF Cons.prems(1) frame] .
    have "row_steps (lc_store (f lc1 x)) (lc_store (foldl f (f lc1 x) xs))"
      by (rule foldl_steps [where sel = lc_store]) (rule frame)
    then have "quiet now (lc_store (foldl f (f lc1 x) xs)) (so_id x)" using quiet_kept row_steps_ok [OF step ok] q by blast
    then show ?case using Cons.IH [OF step] Cons.prems(2) by simp
  qed simp
  have "\<forall>o1 \<in> set os. getOrderById (lc_store lc) (so_id o1) = Some o1 \<and> order_ok o1 \<and> Q o1"
    using o1(3) rows_get [OF ok] row_snapshot [OF ok] by blast
  then have "quiet now (lc_store (foldl f lc os)) (so_id a)" using all [OF rtranclp.rtrancl_refl] o1(2) by blast
  then show ?thesis using store_okD(1) [OF ok o1(1)] by simp
qed

lemma scan_quiet:
  assumes ok: "store_ok (lc_store lc)"
    and o1: "getOrderById (lc_store (scanTimedOutOrders env lc)) k = Some o1"
    and who: "so_role o1 = Buyer \<or> js_trim (so_paymentTxid o1) \<noteq> ''''"
  shows "\<not> expired (oe_now env) o1"
proof
  let ?now = "oe_now env"
  assume e: "expired ?now o1"
  define l1 where "l1 = snd (repairSelfDirectedOrders env lc)"
  define l2 where "l2 = foldl (\<lambda>lc o1. scan_buyer env o1 lc) l1 (listOrdersByStatuses (lc_store l1) Buyer OPEN_STATUSES)"
  define l3 where "l3 = foldl (\<lambda>lc o1. scan_seller env o1 lc) l2 (listOrdersByStatuses (lc_store l2) Seller OPEN_STATUSES)"
  define l4 where "l4 = foldl (\<lambda>lc o1. scan_retry env o1 lc) l3 (listRefundRequestRetryCandidates (lc_store l3) Buyer ?now)"
  have scan: "scanTimedOutOrders env lc = foldl (\<lambda>lc o1. tryEndRatingTimedOutOrder env o1 lc) l4
      (listRatingTimeoutCandidates (lc_store l4) Seller ?now)"
    by (simp add: scanTimedOutOrders_def l1_def l2_def l3_def l4_def Let_def)
  have loop: "row_steps (lc_store x) (lc_store (foldl f x xs))"
    if "\<And>lc o1. row_steps (lc_store lc) (lc_store (f lc o1))" for f :: "lifecycle \<Rightarrow> service_order \<Rightarrow> lifecycle" and x xs
    by (rule foldl_steps [where sel = lc_store]) (rule that)
  have s1: "row_steps (lc_store lc) (lc_store l1)" unfolding l1_def by (rule repair_steps)
  have s2: "row_steps (lc_store l1) (lc_store l2)" unfolding l2_def by (rule loop, rule scan_row_steps)
  have s3: "row_steps (lc_store l2) (lc_store l3)" unfolding l3_def by (rule loop, rule scan_row_steps)
  have s4: "row_steps (lc_store l3) (lc_store (scanTimedOutOrders env lc))"
    unfolding scan l4_def by (rule rtranclp_trans [OF loop loop]) (rule scan_row_steps)+
  have ok1: "store_ok (lc_store l1)" and ok2: "store_ok (lc_store l2)" and ok3: "store_ok (lc_store l3)"
    using row_steps_ok [OF s1 ok] row_steps_ok [OF s2] row_steps_ok [OF s3] by blast+
  obtain a3 where a3: "getOrderById (lc_store l3) k = Some a3" "row_le a3 o1" using row_steps_origin [OF s4 o1] by blast
  obtain a2 where a2: "getOrderById (lc_store l2) k = Some a2" "row_le a2 a3" using row_steps_origin [OF s3 a3(1)] by blast
  obtain a1 where a1: "getOrderById (lc_store l1) k = Some a1" "row_le a1 a2" using row_steps_origin [OF s2 a2(1)] by blast
  have e3: "expired ?now a3" using expired_before [OF a3(2) store_okD(2) [OF ok3 a3(1)] e] .
  have e2: "expired ?now a2" using expired_before [OF a2(2) store_okD(2) [OF ok2 a2(1)] e3] .
  have e1: "expired ?now a1" using expired_before [OF a1(2) store_okD(2) [OF ok1 a1(1)] e2] .
  have terms: "so_role a1 = so_role o1" "so_role a2 = so_role o1" "so_paymentTxid a2 = so_paymentTxid o1"
    using a1(2) a2(2) a3(2) by (simp_all add: row_le_def same_terms_def)
  show False
  proof (cases "so_role o1")
    case Buyer
    have "a1 \<in> set (listOrdersByStatuses (lc_store l1) Buyer OPEN_STATUSES)"
      using order_row [OF a1(1)] expired_open [OF e1] Buyer terms by (simp add: listOrdersByStatuses_def in_select_newest OPEN_STATUSES_def)
    then have "quiet ?now (lc_store l2) k" unfolding l2_def
      using scan_phase [where Q = "\<lambda>_. True" and f = "\<lambda>lc o1. scan_buyer env o1 lc", OF scan_row_steps(1) _ ok1 a1(1)]
        scan_buyer_hits by (auto simp: listOrdersByStatuses_def in_select_newest)
    then show False using a2(1) e2 by (simp add: quiet_def)
  next
    case Seller
    have "a2 \<in> set (filter (\<lambda>o1. js_trim (so_paymentTxid o1) \<noteq> '''') (listOrdersByStatuses (lc_store l2) Seller OPEN_STATUSES))"
      using order_row [OF a2(1)] expired_open [OF e2] Seller terms who
      by (simp add: listOrdersByStatuses_def in_select_newest OPEN_STATUSES_def)
    moreover have "l3 = foldl (\<lambda>lc o1. scan_seller env o1 lc) l2
        (filter (\<lambda>o1. js_trim (so_paymentTxid o1) \<noteq> '''') (listOrdersByStatuses (lc_store l2) Seller OPEN_STATUSES))"
      unfolding l3_def foldl_filter [symmetric] by (rule foldl_cong) (simp_all add: scan_seller_def)
    ultimately have "quiet ?now (lc_store l3) k"
      using scan_phase [where Q = "\<lambda>o1. js_trim (so_paymentTxid o1) \<noteq> ''''" and f = "\<lambda>lc o1. scan_seller env o1 lc",
          OF scan_row_steps(2) _ ok2 a2(1)] scan_seller_hits
      by (auto simp: listOrdersByStatuses_def in_select_newest)
    then show False using a3(1) e3 by (simp add: quiet_def)
  qed
qed

text \<open>C17. After a scan no bought order is open past its deadline, and no sold one that was paid for:
  each such order was failed on the way. (A sold order without a payment is never timed out.)\<close>

lemma scan_leaves_no_expired_order:
  assumes "service_step\<^sup>*\<^sup>* empty_ledger (lc_store lc)"
    "getOrderById (lc_store (scanTimedOutOrders env lc)) oid = Some o1"
    "so_role o1 = Buyer \<or> js_trim (so_paymentTxid o1) \<noteq> ''''"
  shows "getTimedOutOrderTransition o1 (oe_now env) = None"
  using scan_quiet [OF services_ok [OF assms(1)] assms(2,3)] by (simp add: expired_def)

section \<open>Refund requests\<close>

text \<open>C18. A refund is requested once: after a call that wrote the request of an order that had not
  been served, no later call on the order writes another one, whatever the services did in between.\<close>

lemma refund_is_requested_once:
  assumes "getOrderById (lc_store lc) oid = Some o1" "\<not> served o1"
    "snd (tryCreateRefundRequest env oid t lc) = lc1" "RefundRequestPin o1 \<in> set (drop (length (lc_effects lc)) (lc_effects lc1))"
    "service_step\<^sup>*\<^sup>* empty_ledger (lc_store lc)" "service_step\<^sup>*\<^sup>* (lc_store lc1) (lc_store lc2)"
  shows "snd (tryCreateRefundRequest env' oid t' lc2) = lc2"
proof -
  have ok: "store_ok (lc_store lc)" using services_ok assms(5) by blast
  have id: "so_id o1 = oid" using store_okD(1) [OF ok assms(1)] .
  let ?wrote = "case oe_refundRequestPin env of None \<Rightarrow> None | Some wrote \<Rightarrow> wrote o1"
  have failed: "so_role o1 = Buyer \<and> so_status o1 = OsFailed \<and> \<not> given (so_refundRequestPinId o1) \<and> \<not> isZeroAmount (so_paymentAmount o1)"
  proof (rule ccontr)
    assume "\<not> ?thesis"
    then consider "lc1 = lc" | "lc1 = snd (refund_free o1 t lc)"
      using assms(1,3) by (auto simp: tryCreateRefundRequest_def split: if_splits)
    then show False
    proof cases
      case 2
      then have "lc_effects lc1 = lc_effects lc @ concat (map (\<lambda>o1. [Experience EvRefunded o1, OrderEvent EvRefunded o1])
          (fst (refund_locally (\<lambda>_. False) t FREE_REFUND_REASON (listRelatedOrders (lc_store lc) o1) (lc_store lc))))"
        by (simp add: refund_free_def split_beta lift_store_def emitOrderEvents_def emit_def)
      then show False using assms(4) by auto
    qed (use assms(4) in simp)
  qed
  then have run: "lc1 = snd (request_refund env o1 t lc)"
    using assms(1,3) by (simp add: tryCreateRefundRequest_def)
  show ?thesis
  proof (cases ?wrote)
    case None
    then have "lc_effects lc1 = lc_effects lc" by (simp add: run request_refund_def lift_store_def split_beta)
    then show ?thesis using assms(4) by simp
  next
    case (Some ids)
    let ?p = "coalesce (pi_pin ids) (pi_txid ids)"
    let ?st = "snd (markRefundPending oid ?p t (lc_store lc))"
    have pending: "\<exists>b. getOrderById ?st oid = Some b \<and> so_status b = OsRefundPending"
      using assms(1,2) failed by (simp add: markRefundPending_def update_order_get)
    have "row_steps ?st (lc_store lc1)"
      using Some id mirror_steps by (simp add: run request_refund_def split_beta Let_def)
    then have "order_steps ?st (lc_store lc2)"
      using services_order_steps [OF assms(6)] row_steps_order rtranclp_trans by metis
    then obtain b where b: "getOrderById (lc_store lc2) oid = Some b" "so_status b \<in> set (later OsRefundPending)"
      using pending store_leD [OF steps_le] by (metis row_le_def)
    then show ?thesis by (auto simp: tryCreateRefundRequest_def)
  qed
qed

text \<open>An order that ended after it failed is the exception: the request is written, the row stays as it
  was, and the next scan finds it due again.\<close>

lemma ended_failure_is_requested_again:
  assumes "getOrderById (lc_store lc) oid = Some o1" "so_id o1 = oid" "so_role o1 = Buyer" "so_status o1 = OsFailed"
    "so_refundRequestPinId o1 = None" "\<not> isZeroAmount (so_paymentAmount o1)" "time_given (so_orderEndedAt o1)"
    "oe_refundRequestPin env = Some write" "write o1 = Some ids"
  shows "RefundRequestPin o1 \<in> set (lc_effects (snd (tryCreateRefundRequest env oid t lc)))"
    "getOrderById (snd (markRefundPending oid p t (lc_store lc))) oid = Some o1"
proof -
  have "served o1" using assms(7) by (simp add: served_def)
  then show "getOrderById (snd (markRefundPending oid p t (lc_store lc))) oid = Some o1"
    using assms(1) by (simp add: markRefundPending_def update_order_get)
  have "lc_effects (snd (lift_store f l)) = lc_effects l" for f :: "order_store \<Rightarrow> 'a \<times> order_store" and l
    by (simp add: lift_store_def split_beta)
  then show "RefundRequestPin o1 \<in> set (lc_effects (snd (tryCreateRefundRequest env oid t lc)))"
    using assms by (simp add: tryCreateRefundRequest_def request_refund_def split_beta Let_def emitOrderEvents_def emit_def lift_store_def)
qed

section \<open>Paying refunds\<close>

definition transfers :: "refund_state \<Rightarrow> refund_transfer list" where
  "transfers st = concat (map (\<lambda>e. case e of RefundTransfer t \<Rightarrow> [t] | _ \<Rightarrow> []) (rs_effects st))"

lemma transfers_emit [simp]:
  "transfers (rs_emit (map (RefundEvent t) os) st) = transfers st"
  "transfers (rs_emit [RefundFinalizePin o1 x] st) = transfers st"
  "transfers (rs_emit [RefundTransfer tr] st) = transfers st @ [tr]"
  "transfers (st\<lparr>rs_store := s\<rparr>) = transfers st"
  by (simp_all add: transfers_def rs_emit_def comp_def)

lemma transfers_finish [simp]: "transfers (snd (finish_refund o1 os st)) = transfers st"
  by (simp add: finish_refund_def Let_def split: option.splits)

lemma transfers_local [simp]:
  "transfers (snd (resolveNoTransferRefund env o1 r st)) = transfers st"
  "transfers (snd (resolveSelfDirectedRefund env o1 st)) = transfers st"
  by (simp_all add: resolveNoTransferRefund_def resolveSelfDirectedRefund_def Let_def split_beta)

lemma transfers_finalize [simp]: "transfers (snd (finalizeRefund env o1 x st)) = transfers st"
proof (cases "re_finalizePin env o1 x")
  case (Some ids)
  have emb: "transfers (snd (case finish_refund o1 u s of (Inl e, st) \<Rightarrow> (Inl e, st) | (Inr res, st) \<Rightarrow> (Inr (g res), st))) = transfers s"
    for u s and g :: "refund_result \<Rightarrow> refund_result"
    using transfers_finish [of o1 u s] by (auto split: prod.splits sum.splits simp del: transfers_finish)
  show ?thesis by (simp add: finalizeRefund_def Some Let_def split_beta [of _ "mark_each _ _ _"] emb)
qed (simp add: finalizeRefund_def)





section \<open>The cached scan\<close>

definition cache_ok :: "lifecycle \<Rightarrow> bool" where
  "cache_ok lc \<longleftrightarrow> (case lc_cache lc of None \<Rightarrow> True
     | Some (r, os) \<Rightarrow> r \<le> os_revision (lc_store lc) \<and> (r = os_revision (lc_store lc) \<longrightarrow> os = repair_scan (lc_store lc)))"

lemma cache_kept:
  assumes "cache_ok lc" "store_le (lc_store lc) (lc_store lc')" "lc_cache lc' = lc_cache lc"
  shows "cache_ok lc'"
proof (cases "lc_cache lc")
  case (Some c)
  obtain r os where c: "c = (r, os)" by (cases c)
  have r: "r \<le> os_revision (lc_store lc)" "r = os_revision (lc_store lc) \<Longrightarrow> os = repair_scan (lc_store lc)"
    using assms(1) Some c by (simp_all add: cache_ok_def)
  have "r \<le> os_revision (lc_store lc')" using r(1) store_le_rev [OF assms(2)] by simp
  moreover have "os = repair_scan (lc_store lc')" if "r = os_revision (lc_store lc')"
  proof -
    have "os_revision (lc_store lc) = os_revision (lc_store lc')" using that r(1) store_le_rev [OF assms(2)] by simp
    then have "lc_store lc' = lc_store lc" by (rule store_le_same [OF assms(2)])
    then show ?thesis using r(2) that by simp
  qed
  ultimately show ?thesis using Some c assms(3) by (simp add: cache_ok_def)
qed (use assms(3) in \<open>simp add: cache_ok_def\<close>)

lemma candidates_fresh:
  assumes "cache_ok lc" "listSelfDirectedRepairCandidates lc = (os, lc')"
  shows "os = repair_scan (lc_store lc)" "cache_ok lc'" "lc_store lc' = lc_store lc"
  using assms by (auto simp: listSelfDirectedRepairCandidates_def cache_ok_def Let_def split: option.splits prod.splits if_splits)

text \<open>C20. The cache of the repair scan cannot be seen: from a state whose cache was sound, after any
  calls that leave it alone, the repair does to the ledger what it does without a cache, and leaves a
  sound cache.\<close>

lemma repair_cache_is_transparent:
  assumes "cache_ok lc" "service_step\<^sup>*\<^sup>* (lc_store lc) (lc_store lc')" "lc_cache lc' = lc_cache lc"
    "repairSelfDirectedOrders env lc' = (repaired, lc'')"
  shows "(repaired, lc_store lc'') = repair_orders env (repair_scan (lc_store lc')) (lc_store lc') \<and> cache_ok lc''"
proof -
  have ok: "cache_ok lc'" using cache_kept [OF assms(1) steps_le [OF services_order_steps [OF assms(2)]] assms(3)] .
  obtain os l where l: "listSelfDirectedRepairCandidates lc' = (os, l)" by fastforce
  note c = candidates_fresh [OF ok l]
  have "(repaired, lc'') = lift_store (repair_orders env os) l" using assms(4) by (simp add: repairSelfDirectedOrders_def l)
  then have r: "repaired = fst (repair_orders env os (lc_store l))" "lc_store lc'' = snd (repair_orders env os (lc_store l))"
    "lc_cache lc'' = lc_cache l"
    by (auto simp: lift_store_def split_beta)
  have "store_le (lc_store l) (lc_store lc'')" unfolding r(2) by (rule steps_le [OF row_steps_order [OF repair_orders_steps]])
  then have "cache_ok lc''" using cache_kept c(2) r(3) by blast
  then show ?thesis using r(1,2) c(1,3) by simp
qed

section \<open>Looking an order up\<close>




section \<open>Examples\<close>

definition demo_env :: "int \<Rightarrow> string option \<Rightarrow> order_env" where
  "demo_env now pin =
     \<lparr>oe_now = now, oe_newId = ''o1'', oe_resolve = (\<lambda>_. Some ''me''),
      oe_refundRequestPin = Some (\<lambda>_. map_option (\<lambda>p. \<lparr>pi_pin = Some p, pi_txid = None\<rparr>) pin),
      oe_orderEndPin = None, oe_retryDelay = DEFAULT_REFUND_REQUEST_RETRY_DELAY_MS\<rparr>"

definition demo_input :: "string \<Rightarrow> order_input" where
  "demo_input counterparty =
     \<lparr>oi_role = Buyer, oi_localMetabotId = 1, oi_counterparty = counterparty, oi_servicePinId = None, oi_orderPinId = None,
      oi_serviceName = ''svc'', oi_paymentTxid = Some ''tx1'', oi_paymentChain = Some ''mvc'', oi_paymentAmount = ''10'',
      oi_paymentCurrency = None, oi_settlementKind = None, oi_mrc20Ticker = None, oi_mrc20Id = None,
      oi_paymentCommitTxid = None, oi_orderMessagePinId = None, oi_orderMessageTxid = None, oi_coworkSessionId = None,
      oi_status = None, oi_now = 1000000\<rparr>"

definition new_lifecycle :: "order_store \<Rightarrow> lifecycle" where
  "new_lifecycle st = \<lparr>lc_store = st, lc_pending = [], lc_cache = None, lc_effects = []\<rparr>"

definition bought :: lifecycle where
  "bought = (case createBuyerOrder (demo_env 1000000 None) (demo_input ''seller'') (new_lifecycle empty_ledger) of
     Inl _ \<Rightarrow> new_lifecycle empty_ledger | Inr (_, lc) \<Rightarrow> lc)"

definition status_of :: "order_store \<Rightarrow> string \<Rightarrow> order_status option" where
  "status_of st oid = map_option so_status (getOrderById st oid)"

lemma bought_run:
  "(case createBuyerOrder (demo_env 1000000 None) (demo_input ''seller'') (new_lifecycle empty_ledger) of
      Inl _ \<Rightarrow> False | Inr (o1, lc) \<Rightarrow> so_id o1 = ''o1'')"
  "status_of (lc_store bought) ''o1'' = Some OsAwaitingFirstResponse"
  "status_of (lc_store (scanTimedOutOrders (demo_env 2000000 (Some ''R1'')) bought)) ''o1'' = Some OsRefundPending"
  by code_simp+

lemma bought_reached: "service_step\<^sup>*\<^sup>* empty_ledger (lc_store bought)"
proof -
  obtain o1 lc where run: "createBuyerOrder (demo_env 1000000 None) (demo_input ''seller'') (new_lifecycle empty_ledger) = Inr (o1, lc)"
    using bought_run(1) by (auto split: sum.splits)
  have "bought = lc" by (simp add: bought_def run)
  then show ?thesis using r_into_rtranclp [where r = service_step, OF service_step.buyer_places [OF run]]
    by (simp add: new_lifecycle_def)
qed

lemma status_ofD: "status_of st oid = Some s \<Longrightarrow> \<exists>o1. getOrderById st oid = Some o1 \<and> so_status o1 = s"
  by (auto simp: status_of_def)

lemma ledger_is_consistent_witness:
  "\<exists>a. getOrderById (lc_store bought) ''o1'' = Some a \<and> so_id a = ''o1'' \<and> order_ok a"
proof -
  obtain a where a: "getOrderById (lc_store bought) ''o1'' = Some a" using status_ofD [OF bought_run(2)] by blast
  from ledger_is_consistent [OF bought_reached a a] show ?thesis using a by blast
qed


lemma scan_leaves_no_expired_order_witness:
  "\<exists>o2. getOrderById (lc_store (scanTimedOutOrders (demo_env 2000000 (Some ''R1'')) bought)) ''o1'' = Some o2 \<and>
     getTimedOutOrderTransition o2 2000000 = None"
proof -
  let ?env = "demo_env 2000000 (Some ''R1'')"
  obtain o2 where o2: "getOrderById (lc_store (scanTimedOutOrders ?env bought)) ''o1'' = Some o2"
    using status_ofD [OF bought_run(3)] by blast
  have "map_option so_role (getOrderById (lc_store (scanTimedOutOrders ?env bought)) ''o1'') = Some Buyer" by code_simp
  then have "so_role o2 = Buyer" using o2 by simp
  then show ?thesis using scan_leaves_no_expired_order [OF bought_reached o2] o2 by (auto simp: demo_env_def)
qed

text \<open>A failed order whose first request could not be written, then one that could.\<close>

definition unrequested :: lifecycle where
  "unrequested = scanTimedOutOrders (demo_env 2000000 None) bought"

definition requested :: lifecycle where
  "requested = snd (tryCreateRefundRequest (demo_env 2100000 (Some ''R1'')) ''o1'' 2100000 unrequested)"

lemma requested_run:
  "(case getOrderById (lc_store unrequested) ''o1'' of None \<Rightarrow> False
    | Some a \<Rightarrow> \<not> served a \<and> RefundRequestPin a \<in> set (drop (length (lc_effects unrequested)) (lc_effects requested)))"
  by code_simp

lemma refund_is_requested_once_witness:
  "snd (tryCreateRefundRequest (demo_env 2200000 (Some ''R2'')) ''o1'' 2200000 requested) = requested"
proof -
  obtain a where a: "getOrderById (lc_store unrequested) ''o1'' = Some a" "\<not> served a"
    "RefundRequestPin a \<in> set (drop (length (lc_effects unrequested)) (lc_effects requested))"
    using requested_run by (auto split: option.splits)
  have "service_step\<^sup>*\<^sup>* empty_ledger (lc_store unrequested)"
    using bought_reached service_step.scanned [of bought] unfolding unrequested_def by (rule rtranclp.rtrancl_into_rtrancl)
  from refund_is_requested_once [OF a(1,2) requested_def [symmetric] a(3) this rtranclp.rtrancl_refl] show ?thesis .
qed

text \<open>A seller's order, a refund request for it on the chain, and a proof that cannot be published.\<close>

definition demo_request :: refund_pin where
  "demo_request =
     \<lparr>rp_pinId = ''R1'', rp_content = JObj [(''paymentTxid'', JStr ''tx1''), (''sellerGlobalMetaId'', JStr ''me''),
        (''buyerGlobalMetaId'', JStr ''buyer''), (''refundToAddress'', JStr ''addr''), (''refundAmount'', JStr ''1000'')],
      rp_timestampMs = Some 1500000\<rparr>"

definition demo_sync :: sync_env where
  "demo_sync =
     \<lparr>se_now = 1600000, se_parse = (\<lambda>_. None), se_newId = (\<lambda>pin. ''made-'' @ pin), se_resolve = (\<lambda>_. Some ''me''),
      se_botByGlobalMetaId = (\<lambda>g. if g = ''me'' then Some 1 else None), se_botByServicePin = (\<lambda>_. None),
      se_verifyTransfer = (\<lambda>_ _. True), se_verifyMrc20 = (\<lambda>_ _. (True, ''verified''))\<rparr>"

definition demo_refund :: "int \<Rightarrow> refund_env" where
  "demo_refund now =
     \<lparr>re_now = now, re_parse = (\<lambda>_. None), re_resolve = (\<lambda>_. Some ''me''), re_fetchRequest = (\<lambda>_. Some (rp_content demo_request)),
      re_transfer = (\<lambda>_. Some \<lparr>tr_success = Some True, tr_txId = Some ''paid1''\<rparr>), re_finalizePin = (\<lambda>_ _. None)\<rparr>"

definition sold :: lifecycle where
  "sold = (case createSellerOrder (demo_env 1000000 None) (demo_input ''buyer'') (new_lifecycle empty_ledger) of
     Inl _ \<Rightarrow> new_lifecycle empty_ledger | Inr (_, lc) \<Rightarrow> lc)"

definition asked :: refund_state where
  "asked = snd (syncRequestPins demo_sync [demo_request] \<lparr>rs_store = lc_store sold, rs_effects = []\<rparr>)"

definition paid :: "refund_result refund_run" where
  "paid = processSellerRefundForOrderId (demo_refund 1700000) ''o1'' asked"



lemma repair_cache_is_transparent_witness:
  "fst (repairSelfDirectedOrders (demo_env 2000000 None) bought) =
     fst (repair_orders (demo_env 2000000 None) (repair_scan (lc_store bought)) (lc_store bought))"
proof -
  have "lc_cache bought = None" by code_simp
  then have "cache_ok bought" by (simp add: cache_ok_def)
  moreover obtain rs lc where r: "repairSelfDirectedOrders (demo_env 2000000 None) bought = (rs, lc)" by fastforce
  ultimately show ?thesis using repair_cache_is_transparent [OF _ rtranclp.rtrancl_refl refl r] by (metis fst_conv)
qed


text \<open>A request that names a token without its id cannot be booked, and ends the loop before the pins
  after it.\<close>

definition bad_request :: refund_pin where
  "bad_request =
     \<lparr>rp_pinId = ''R0'', rp_content = JObj [(''paymentTxid'', JStr ''tx0''), (''sellerGlobalMetaId'', JStr ''me''),
        (''buyerGlobalMetaId'', JStr ''eve''), (''refundCurrency'', JStr ''X-MRC20'')], rp_timestampMs = Some 1500000\<rparr>"

lemma bad_request_stops_the_sync:
  "(case syncRequestPins demo_sync [bad_request, demo_request] \<lparr>rs_store = lc_store sold, rs_effects = []\<rparr> of
      (e, st) \<Rightarrow> e = Some WriteAborted \<and> status_of (rs_store st) ''o1'' = Some OsAwaitingFirstResponse)"
  by code_simp

end
