(* ===== verification/Spec2Isabelle.thy ===== *)
theory Spec2Isabelle
  imports CompFacts Examples EstimateFacts RefreshProps PrefProps WatchProps AgentProps OrderProps
begin

text \<open>
  IDBots: the MetaTask replay engine.
\<close>

section \<open>What verification means\<close>

text \<open>C1. Tree mode: in a pool where no submission supersedes another, a node is shown as verified
  only with a submission and at least the policy's quorum of counted pass votes on that very
  submission, from distinct voters (a counted vote is never the author's or the publisher's).\<close>

lemma tree_verified_has_quorum:
  assumes "replayMetaTask sha events opts = Some (Inr p)" "po_mode (tp_policy p) = ''tree''"
    "good_pool events" "no_supersedes events"
    "(node, np) \<in> set (tp_nodeStates p)" "np_status np = StVerified"
  shows "po_verifyQuorum (tp_policy p) \<le> of_nat (np_passVotes np) \<and> np_submission np \<noteq> None \<and>
    distinct (map vs_voter (np_votes np))"
  using tree_node_quorum [OF assms] by blast

lemma tree_verified_has_quorum_witness:
  "po_verifyQuorum (tp_policy tree_demo) \<le> of_nat (np_passVotes (node_at tree_demo ''n1'')) \<and>
   np_submission (node_at tree_demo ''n1'') \<noteq> None \<and> distinct (map vs_voter (np_votes (node_at tree_demo ''n1'')))"
proof (rule tree_verified_has_quorum [OF tree_demo_run, where node = "''n1''"])
  show "po_mode (tp_policy tree_demo) = ''tree''" "good_pool tree_pool" "no_supersedes tree_pool" by code_simp+
  show "(''n1'', node_at tree_demo ''n1'') \<in> set (tp_nodeStates tree_demo)" by (rule node_at_in) code_simp
  show "np_status (node_at tree_demo ''n1'') = StVerified" by code_simp
qed

text \<open>C2. Competitive mode: a node is shown as verified only with a leading candidate that has at
  least the policy's quorum of counted pass votes on that very candidate, from distinct voters;
  supersedes do not carry votes over.\<close>

lemma comp_verified_has_quorum:
  assumes "replayMetaTask sha events opts = Some (Inr p)" "po_mode (tp_policy p) = ''competitive''"
    "(node, np) \<in> set (tp_nodeStates p)" "np_status np = StVerified"
  shows "po_verifyQuorum (tp_policy p) \<le> of_nat (np_passVotes np) \<and> np_submission np \<noteq> None \<and>
    distinct (map vs_voter (np_votes np))"
proof -
  obtain rt cv where cv: "compViewOf (poolCtx opts events rt) = Some cv" "p = compProject sha (poolCtx opts events rt) cv"
    using replay_comp_cases [OF assms(1,2)] by blast
  obtain disputed where np: "np = compNodeState (poolCtx opts events rt) cv disputed node"
    using assms(3) compProject_node unfolding cv(2) by metis
  then have "compStatus cv node = StVerified" using assms(4) by simp
  from comp_node_quorum [OF cv(1) this] show ?thesis
    by (simp add: np cv(2) compProject_def Let_def case_prod_unfold)
qed

lemma comp_verified_has_quorum_witness:
  "po_verifyQuorum (tp_policy comp_demo) \<le> of_nat (np_passVotes (node_at comp_demo ''n2'')) \<and>
   np_submission (node_at comp_demo ''n2'') \<noteq> None \<and> distinct (map vs_voter (np_votes (node_at comp_demo ''n2'')))"
proof (rule comp_verified_has_quorum [OF comp_demo_run, where node = "''n2''"])
  show "po_mode (tp_policy comp_demo) = ''competitive''" by code_simp
  show "(''n2'', node_at comp_demo ''n2'') \<in> set (tp_nodeStates comp_demo)" by (rule node_at_in) code_simp
  show "np_status (node_at comp_demo ''n2'') = StVerified" by code_simp
qed

section \<open>Settlement\<close>

text \<open>C3. A replay settles only a complete task with no disputed node; the manifest has one line per
  bot, in descending order, no negative amount, and pays at most 10000 basis points in all.\<close>

lemma settlement_is_sound:
  assumes "replayMetaTask sha events opts = Some (Inr p)" "tp_settlement p = Some s"
  shows "tp_taskComplete p \<and> pr_disputed (tp_progress p) = 0 \<and> sound_shares (se_shares s)"
proof -
  obtain rt where rt: "rootPinOf (byPathOf events) (ro_rootPinId opts) = Some rt"
    using assms(1) by (auto simp: replay_run split: option.splits)
  have "compReplay sha (poolCtx opts events rt) = Some p \<or> treeReplay sha (poolCtx opts events rt) = Some p"
    using assms(1) rt by (auto simp: replay_run split: if_splits)
  then show ?thesis
  proof
    assume "compReplay sha (poolCtx opts events rt) = Some p"
    then show ?thesis using assms(2) comp_settlement by (auto simp: compReplay_def)
  next
    assume "treeReplay sha (poolCtx opts events rt) = Some p"
    then show ?thesis using assms(2) tree_settlement by (auto simp: treeReplay_def)
  qed
qed

lemma settlement_is_sound_witness:
  "tp_taskComplete comp_demo \<and> pr_disputed (tp_progress comp_demo) = 0 \<and>
   sound_shares (se_shares (the (tp_settlement comp_demo)))"
  by (rule settlement_is_sound [OF comp_demo_run]) code_simp

text \<open>C21. Tree mode: on a settled task the share estimate that is shown while a task runs is the settlement
  itself: the same lines, in the same order, with the same basis points.\<close>

lemma estimate_meets_settlement:
  assumes "replayMetaTask sha events opts = Some (Inr p)" "po_mode (tp_policy p) = ''tree''"
    "good_pool events" "tp_settlement p = Some s"
  shows "es_shares (estimateMetaTaskShares p) = se_shares s"
proof -
  obtain rt tv where "treeViewOf (poolCtx opts events rt) = Some tv" "p = treeProject sha (poolCtx opts events rt) tv"
    using replay_tree_cases [OF assms(1,2)] by blast
  then show ?thesis by (rule tree_estimate_shares [OF assms(3) _ _ assms(4)])
qed

lemma estimate_meets_settlement_witness:
  "es_shares (estimateMetaTaskShares tree_demo) = se_shares (the (tp_settlement tree_demo)) \<and>
   es_shares (estimateMetaTaskShares tree_demo) \<noteq> []"
proof
  show "es_shares (estimateMetaTaskShares tree_demo) = se_shares (the (tp_settlement tree_demo))"
  proof (rule estimate_meets_settlement [OF tree_demo_run])
    show "po_mode (tp_policy tree_demo) = ''tree''" "good_pool tree_pool" by code_simp+
    show "tp_settlement tree_demo = Some (the (tp_settlement tree_demo))" by code_simp
  qed
  show "es_shares (estimateMetaTaskShares tree_demo) \<noteq> []" by code_simp
qed

section \<open>The amend fold\<close>

text \<open>C4. Tree mode: the applied amends form a version chain that starts at the published tree, each
  by the publisher at or after H_ACT2; every amend is applied or recorded as ignored, exactly
  once; after an applied amend the weights are integers of 1..10000 that add up to 10000 and the
  parent relation has no cycle.\<close>

lemma tree_fold_contract:
  assumes "foldAmends ctx nodes es = Some st"
  shows "\<exists>cs. version_chain (am_treePinId ctx) cs \<and> list_all (tree_admits ctx) cs \<and>
     fs_head st = head_after (am_treePinId ctx) cs \<and>
     mset (map fst (fs_ignored st)) + mset (map ev_pinId cs) = mset (map ev_pinId es) \<and>
     (if cs = [] then fs_nodes st = nodes
      else acyclic (parent_rel (fs_nodes st)) \<and>
        sum_list (map (\<lambda>nd. the (int_in_range (jprop nd ''weight'') 1 10000)) (map snd (fs_nodes st))) = 10000 \<and>
        list_all (\<lambda>nd. int_in_range (jprop nd ''weight'') 1 10000 \<noteq> None) (map snd (fs_nodes st)))"
proof -
  obtain cs where cs: "version_chain (am_treePinId ctx) cs" "\<forall>e \<in> set cs. tree_admits ctx e"
    "fs_head st = head_after (am_treePinId ctx) cs" "cs = [] \<longrightarrow> fs_nodes st = nodes"
    "cs \<noteq> [] \<longrightarrow> tree_invariants (fs_nodes st)"
    "mset (map fst (fs_ignored st)) + mset (map ev_pinId cs) = mset (map ev_pinId es)"
    using tree_fold.fold_run [OF assms [unfolded foldAmends_def]] by (auto simp: fold_init_def)
  then show ?thesis
    using sumWeights_full [of "fs_nodes st"]
    by (intro exI [of _ cs]) (simp add: list_all_iff tree_invariants_def isAcyclic_iff)
qed

definition demo_amend :: chain_event where
  "demo_amend = ev ''A1'' ''amend'' ''pub'' 191600
     [(''bases'', JStr ''R''), (''ops'', JArr [
        JObj [(''op'', JStr ''reweight''), (''node'', JStr ''n1''), (''weight'', JNum 7000)],
        JObj [(''op'', JStr ''add_node''), (''newNode'', node_json ''n2'' (JStr ''n1'') 3000 [])]])]"

definition demo_amend_ctx :: amend_ctx where
  "demo_amend_ctx = \<lparr>am_rootAuthor = ''pub'', am_treePinId = ''R'', am_firstClaimOrder = [], am_verifiedNodeIds = [],
     am_activeCycleNodeIds = [], am_rootVerified = False, am_hAct2 = Some 191500\<rparr>"

definition demo_tree :: tree where
  "demo_tree = [(''n1'', node_json ''n1'' JNull 10000 [])]"

lemma tree_fold_contract_witness:
  "fs_head (the (foldAmends demo_amend_ctx demo_tree [demo_amend])) = ''A1'' \<and>
   (\<exists>cs. version_chain ''R'' cs \<and> ''A1'' = head_after ''R'' cs)"
proof -
  have run: "foldAmends demo_amend_ctx demo_tree [demo_amend] = Some (the (foldAmends demo_amend_ctx demo_tree [demo_amend]))"
    by (rule option.collapse [symmetric]) code_simp
  have h: "fs_head (the (foldAmends demo_amend_ctx demo_tree [demo_amend])) = ''A1''" by code_simp
  have t: "am_treePinId demo_amend_ctx = ''R''" by code_simp
  show ?thesis using tree_fold_contract [OF run] h unfolding t by auto
qed

text \<open>C5. The engine's cycle check on a tree accepts exactly the trees whose parent relation is
  acyclic.\<close>

lemma isAcyclic_is_acyclic: "isAcyclic nodes \<longleftrightarrow> acyclic (parent_rel nodes)"
  by (rule isAcyclic_iff)



text \<open>C7. Frozen on start: a tree-mode amend never changes a node whose first effective claim landed
  before it (up to the shallow copy the code makes of every node).\<close>

lemma started_nodes_are_frozen:
  assumes "amend_step ctx st e = Some st'" "frozenAt ctx (orderKey e) n" "jget (fs_nodes st) n = Some v"
  shows "jget (fs_nodes st') n = Some v \<or> jget (fs_nodes st') n = Some (spread v)"
  using assms by (rule amend_step_frozen)

lemma started_nodes_are_frozen_witness:
  "let ctx = demo_amend_ctx\<lparr>am_firstClaimOrder := [(''n1'', (191550, 0, 0, ''C''))]\<rparr> in
   let st' = the (amend_step ctx (fold_init ''R'' demo_tree) demo_amend) in
   jget (fs_nodes st') ''n1'' = Some (node_json ''n1'' JNull 10000 []) \<or>
   jget (fs_nodes st') ''n1'' = Some (spread (node_json ''n1'' JNull 10000 []))"
  unfolding Let_def
proof (rule started_nodes_are_frozen)
  show "amend_step (demo_amend_ctx\<lparr>am_firstClaimOrder := [(''n1'', (191550, 0, 0, ''C''))]\<rparr>) (fold_init ''R'' demo_tree) demo_amend =
      Some (the (amend_step (demo_amend_ctx\<lparr>am_firstClaimOrder := [(''n1'', (191550, 0, 0, ''C''))]\<rparr>) (fold_init ''R'' demo_tree) demo_amend))"
    by (rule option.collapse [symmetric]) code_simp
qed code_simp+

text \<open>C8. Competitive mode: the applied amends form a version chain by the publisher at or after
  H_ACT2, every amend is applied or ignored exactly once, the terminal node is the one before the
  fold, and after an applied amend the tree has weights adding up to 10000, no parent cycle, no
  dangling dep and no dep cycle.\<close>

lemma comp_fold_contract:
  assumes "foldCompetitiveAmends ctx nodes es = Some st"
  shows "compFinalNode (fs_nodes st) (cm_finalnode ctx) = compFinalNode nodes (cm_finalnode ctx) \<and>
    (\<exists>cs. version_chain (cm_treePinId ctx) cs \<and> list_all (comp_admits ctx) cs \<and>
     fs_head st = head_after (cm_treePinId ctx) cs \<and>
     mset (map fst (fs_ignored st)) + mset (map ev_pinId cs) = mset (map ev_pinId es) \<and>
     (if cs = [] then fs_nodes st = nodes
      else acyclic (parent_rel (fs_nodes st)) \<and> acyclic (deps_rel (fs_nodes st)) \<and>
        compDepsRefsValid (fs_nodes st) \<and>
        sum_list (map (\<lambda>nd. the (int_in_range (jprop nd ''weight'') 1 10000)) (map snd (fs_nodes st))) = 10000))"
proof -
  obtain cs where cs: "version_chain (cm_treePinId ctx) cs" "\<forall>e \<in> set cs. comp_admits ctx e"
    "fs_head st = head_after (cm_treePinId ctx) cs" "cs = [] \<longrightarrow> fs_nodes st = nodes"
    "cs \<noteq> [] \<longrightarrow> comp_tree_ok (fs_nodes st)"
    "compFinalNode (fs_nodes st) (cm_finalnode ctx) = compFinalNode nodes (cm_finalnode ctx)"
    "mset (map fst (fs_ignored st)) + mset (map ev_pinId cs) = mset (map ev_pinId es)"
    using comp_fold.fold_run [OF assms [unfolded foldCompetitiveAmends_def]] by (auto simp: fold_init_def)
  then show ?thesis
    using sumWeights_full [of "fs_nodes st"]
    by (intro conjI exI [of _ cs]) (simp_all add: list_all_iff comp_tree_ok_def isAcyclic_iff compDepsAcyclic_iff)
qed

definition demo_comp_ctx :: comp_amend_ctx where
  "demo_comp_ctx = \<lparr>cm_rootAuthor = ''pub'', cm_treePinId = ''R'', cm_subs = [], cm_finalnode = '''', cm_hAct2 = Some 191500\<rparr>"

lemma comp_fold_contract_witness:
  "compFinalNode (fs_nodes (the (foldCompetitiveAmends demo_comp_ctx demo_tree [demo_amend]))) '''' = compFinalNode demo_tree ''''"
proof -
  have run: "foldCompetitiveAmends demo_comp_ctx demo_tree [demo_amend] =
      Some (the (foldCompetitiveAmends demo_comp_ctx demo_tree [demo_amend]))"
    by (rule option.collapse [symmetric]) code_simp
  have f: "cm_finalnode demo_comp_ctx = ''''" by code_simp
  show ?thesis using comp_fold_contract [OF run] unfolding f by blast
qed

section \<open>The competitive oracle and the winning chain\<close>

text \<open>C9. Chain validity by the memoised search is the least fixpoint of its recursion: the
  candidate is admissible, verified and not superseded, and so, recursively, is the candidate it
  names for every dep; a cycle of references makes nothing valid, and the order in which the
  search is asked does not matter.\<close>

lemma chainValid_is_least_fixpoint:
  "chainValid tr subs pin \<longleftrightarrow> good (chain_ok tr subs) (chain_succs tr subs) pin"
  by (simp add: chainValid_good)

text \<open>The dep-cycle check of competitive mode accepts exactly the trees whose deps, restricted to
  live nodes, have no cycle.\<close>

lemma depsAcyclic_is_acyclic: "compDepsAcyclic tr \<longleftrightarrow> acyclic (deps_rel tr)"
  by (rule compDepsAcyclic_iff)

text \<open>C10. The winning chain starts at the winner, holds each candidate under its own node, is
  chain-valid throughout, and has an entry for every dep of its nodes.\<close>

lemma winning_chain_is_closed:
  assumes "compViewOf (poolCtx opts events rt) = Some cv" "winnerOf (poolCtx opts events rt) cv = Some w"
  shows "jget (winningChainByNode (poolCtx opts events rt) cv) (sb_node w) = Some w \<and>
    list_all (\<lambda>(node, sub). sb_node sub = node \<and> chainValid (cv_tree cv) (cv_subs cv) (sb_pinId sub) \<and>
        list_all (\<lambda>dep. jhas (winningChainByNode (poolCtx opts events rt) cv) dep) (compDepsOf (cv_tree cv) node))
      (winningChainByNode (poolCtx opts events rt) cv)"
  using winningChain_sound [OF assms] by (auto simp: list_all_iff sound_sub_def)

lemma winning_chain_is_closed_witness:
  "let ctx = poolCtx defaultOptions comp_pool (task_ev ''competitive''); cv = the (compViewOf ctx) in
   jget (winningChainByNode ctx cv) (sb_node (the (winnerOf ctx cv))) = Some (the (winnerOf ctx cv))"
  unfolding Let_def
proof (rule winning_chain_is_closed [THEN conjunct1])
  show "compViewOf (poolCtx defaultOptions comp_pool (task_ev ''competitive'')) =
      Some (the (compViewOf (poolCtx defaultOptions comp_pool (task_ev ''competitive''))))"
    by (rule option.collapse [symmetric]) code_simp
  show "winnerOf (poolCtx defaultOptions comp_pool (task_ev ''competitive''))
        (the (compViewOf (poolCtx defaultOptions comp_pool (task_ev ''competitive'')))) =
      Some (the (winnerOf (poolCtx defaultOptions comp_pool (task_ev ''competitive''))
        (the (compViewOf (poolCtx defaultOptions comp_pool (task_ev ''competitive''))))))"
    by (rule option.collapse [symmetric]) code_simp
qed

text \<open>C11. A node's leader is valid, verified, and first in the leader order among the verified
  chain-valid candidates of the node.\<close>

lemma leader_is_earliest:
  assumes "leaderOf cv node = Some l" "sub \<in> set (validOn cv node)" "sb_verified sub" "chainValidIn cv sub"
  shows "l \<in> set (cv_valid cv) \<and> sb_node l = node \<and> sb_verified l \<and> chainValidIn cv l \<and>
    leaderKey l \<le> leaderKey sub"
  using leaderOf_Some [OF assms(1)] leaderOf_least [OF assms] by blast

lemma leader_is_earliest_witness:
  "let cv = the (compViewOf (poolCtx defaultOptions comp_pool (task_ev ''competitive''))) in
   leaderKey (the (leaderOf cv ''n2'')) \<le> leaderKey (hd (validOn cv ''n2''))"
  unfolding Let_def
proof (rule leader_is_earliest [THEN conjunct2, THEN conjunct2, THEN conjunct2, THEN conjunct2])
  let ?cv = "the (compViewOf (poolCtx defaultOptions comp_pool (task_ev ''competitive'')))"
  show "leaderOf ?cv ''n2'' = Some (the (leaderOf ?cv ''n2''))"
    by (rule option.collapse [symmetric]) code_simp
  show "hd (validOn ?cv ''n2'') \<in> set (validOn ?cv ''n2'')" by (rule hd_in_set) code_simp
qed code_simp+

section \<open>Votes\<close>

text \<open>C12. Of the votes of a bot on a target that pass the gates, the last one in chain order acts,
  and no other; a vote that the gates reject neither acts nor withdraws an earlier one.\<close>

lemma last_valid_vote_acts:
  "jget (snd (votePrepass ctx votes)) k =
     (case filter (\<lambda>v. vote_counts ctx v \<and> event_vote_key v = k) votes of
        [] \<Rightarrow> None
      | v # vs \<Rightarrow> Some (toVoteRecord (last (v # vs))))"
  by (rule votePrepass_lookup)

text \<open>C13. The event set of a task does not depend on the order in which the pool delivers the pins:
  two pools with the same pins give the same error or equivalent event sets.\<close>

lemma event_set_order_free:
  assumes "distinct (map ev_pinId events)" "mset events' = mset events"
  shows "rel_sum (=) ts_equiv (taskEventSet (byPathOf events) r) (taskEventSet (byPathOf events') r)"
  using assms by (rule taskEventSet_perm)

lemma event_set_order_free_witness:
  "rel_sum (=) ts_equiv (taskEventSet (byPathOf tree_pool) None) (taskEventSet (byPathOf (rev tree_pool)) None)"
  by (rule event_set_order_free) (code_simp, simp)

end
